(* ===== verification/Prelude.thy ===== *)
theory Prelude
  imports Main "HOL-Library.Sublist"
begin

text \<open>
  What every component of the development shares: the collections of lemmas that carry the
  component proofs, first-match search over ordered rule lists (the shape of almost every
  policy decision in the program), removal of duplicates in order, and ordered lookups in
  association lists.

  \<^item> \<open>go_simps\<close>: unfolding and evaluation facts of the Go string model;
  \<^item> \<open>inv_intros\<close>: preservation facts of the components' invariants.
\<close>

named_theorems go_simps "equations of the Go standard-library model"
named_theorems inv_intros "preservation of component invariants"

section \<open>First match in an ordered rule list\<close>

text \<open>
  \<open>find_first f xs\<close> is the shape of a loop that returns from its body at the first element
  that gives a result.
\<close>

fun find_first :: "('a \<Rightarrow> 'b option) \<Rightarrow> 'a list \<Rightarrow> 'b option" where
  "find_first f [] = None"
| "find_first f (x # xs) = (case f x of Some y \<Rightarrow> Some y | None \<Rightarrow> find_first f xs)"

lemma find_first_None_iff: "find_first f xs = None \<longleftrightarrow> (\<forall>x \<in> set xs. f x = None)"
  by (induction xs) (auto split: option.splits)

lemma find_first_SomeD:
  assumes "find_first f xs = Some y"
  obtains us x vs where "xs = us @ x # vs" "f x = Some y" "\<forall>u \<in> set us. f u = None"
  using assms
proof (induction xs arbitrary: thesis)
  case Nil
  then show ?case by simp
next
  case (Cons a xs)
  show ?case
  proof (cases "f a")
    case None
    with Cons.prems(2) have "find_first f xs = Some y" by simp
    then obtain us x vs where "xs = us @ x # vs" "f x = Some y" "\<forall>u \<in> set us. f u = None"
      using Cons.IH by blast
    with None show ?thesis by (intro Cons.prems(1) [of "a # us" x vs]) auto
  next
    case (Some b)
    with Cons.prems(2) show ?thesis by (intro Cons.prems(1) [of "[]" a xs]) auto
  qed
qed

lemma find_first_append:
  "find_first f (xs @ ys) = (case find_first f xs of Some y \<Rightarrow> Some y | None \<Rightarrow> find_first f ys)"
  by (induction xs) (auto split: option.splits)

lemma find_first_skip: "\<forall>u \<in> set us. f u = None \<Longrightarrow> find_first f (us @ xs) = find_first f xs"
  by (induction us) auto

lemma find_first_in_set: "find_first f xs = Some y \<Longrightarrow> \<exists>x \<in> set xs. f x = Some y"
  by (induction xs) (auto split: option.splits)

section \<open>Removing duplicates in order\<close>

text \<open>
  The loop over a \<open>seen\<close> map: an item is kept when it was not met before.
\<close>

fun dedupe_from :: "'a set \<Rightarrow> 'a list \<Rightarrow> 'a list" where
  "dedupe_from seen [] = []"
| "dedupe_from seen (x # xs) =
     (if x \<in> seen then dedupe_from seen xs else x # dedupe_from (insert x seen) xs)"

lemma set_dedupe_from: "set (dedupe_from seen xs) = set xs - seen"
  by (induction xs arbitrary: seen) auto

lemma distinct_dedupe_from: "distinct (dedupe_from seen xs)"
  by (induction xs arbitrary: seen) (auto simp: set_dedupe_from)

lemma subseq_dedupe_from: "subseq (dedupe_from seen xs) xs"
  by (induction xs arbitrary: seen) auto

lemma dedupe_from_id: "distinct xs \<Longrightarrow> set xs \<inter> seen = {} \<Longrightarrow> dedupe_from seen xs = xs"
  by (induction xs arbitrary: seen) auto

lemma dedupe_from_insert: "x \<notin> set ys \<Longrightarrow> dedupe_from (insert x s) ys = dedupe_from s ys"
proof (induction ys arbitrary: s)
  case Nil
  then show ?case by simp
next
  case (Cons y ys)
  then show ?case using Cons.IH [of "insert y s"] by (auto simp: insert_commute)
qed

lemma filter_dedupe_from: "filter P (dedupe_from seen xs) = dedupe_from seen (filter P xs)"
proof (induction xs arbitrary: seen)
  case Nil
  then show ?case by simp
next
  case (Cons x xs)
  show ?case
    using Cons.IH dedupe_from_insert [of x "filter P xs" seen] by auto
qed

section \<open>Generic facts on lists and maps\<close>

lemma dropWhile_eq_self: "(xs = [] \<or> \<not> P (hd xs)) \<Longrightarrow> dropWhile P xs = xs"
  by (cases xs) auto

lemma hd_dropWhile_not: "dropWhile P xs \<noteq> [] \<Longrightarrow> \<not> P (hd (dropWhile P xs))"
  by (rule hd_dropWhile)

lemma dropWhile_append_self: "\<forall>x \<in> set xs. P x \<Longrightarrow> dropWhile P (xs @ ys) = dropWhile P ys"
  by (induction xs) auto

lemma length_le_append_suffix: "xs = ys @ zs \<Longrightarrow> length zs \<le> length xs"
  by simp

text \<open>
  Wherever two lists are concatenated and compared, the lists agree if one component has a known
  length; the audit chain's missing separators are about exactly this.
\<close>

lemma append_eq_same_length: "length xs = length us \<Longrightarrow> xs @ ys = us @ vs \<longleftrightarrow> xs = us \<and> ys = vs"
  by auto

lemma map_add_self_dom: "k \<in> dom m \<Longrightarrow> (n ++ m) k = m k"
  by (auto simp: map_add_def split: option.splits)

lemma find_append: "find P (xs @ ys) = (case find P xs of Some x \<Rightarrow> Some x | None \<Rightarrow> find P ys)"
  by (induction xs) auto

end
