(* ===== verification/Go_Strings.thy ===== *)
theory Go_Strings
  imports Prelude
begin

text \<open>
  The part of Go's \<open>strings\<close> and \<open>strconv\<close> packages that the program uses, on byte
  strings (\<open>string\<close>, a list of 8-bit characters, as Go strings are).

  Case folding and white space are modelled on the ASCII range: \<^verbatim>\<open>strings.ToLower\<close> and
  \<^verbatim>\<open>strings.TrimSpace\<close> also know non-ASCII letters and spaces, and a byte above 127 is left
  alone here. Every separator, quote, header name and keyword the program looks for is ASCII.
\<close>

section \<open>Bytes\<close>

definition byte_of :: "char \<Rightarrow> nat" where
  "byte_of c = of_char c"

text \<open>\<^verbatim>\<open>unicode.IsSpace\<close> on Latin-1's ASCII half: tab, LF, VT, FF, CR and the blank.\<close>

definition IsSpace :: "char \<Rightarrow> bool" where
  "IsSpace c \<longleftrightarrow> (9 \<le> byte_of c \<and> byte_of c \<le> 13) \<or> byte_of c = 32"

definition lower_byte :: "char \<Rightarrow> char" where
  "lower_byte c = (if 65 \<le> byte_of c \<and> byte_of c \<le> 90 then char_of (byte_of c + 32) else c)"

lemma byte_of_lower: "byte_of (lower_byte c) = (if 65 \<le> byte_of c \<and> byte_of c \<le> 90
    then byte_of c + 32 else byte_of c)"
  by (auto simp: lower_byte_def byte_of_def)

lemma lower_byte_idem [simp]: "lower_byte (lower_byte c) = lower_byte c"
  by (auto simp: lower_byte_def byte_of_def)

section \<open>Case folding\<close>

lemma lower_byte_eq:
  assumes "\<not> (97 \<le> byte_of d \<and> byte_of d \<le> 122)" "lower_byte c = d"
  shows "c = d"
proof (rule ccontr)
  assume "c \<noteq> d"
  with assms(2) have "65 \<le> byte_of c \<and> byte_of c \<le> 90" by (metis lower_byte_def)
  with assms show False using byte_of_lower [of c] by auto
qed

definition ToLower :: "string \<Rightarrow> string" where
  "ToLower s = map lower_byte s"

lemma in_set_ToLower: "\<not> (97 \<le> byte_of d \<and> byte_of d \<le> 122) \<Longrightarrow> d \<notin> set s \<Longrightarrow> d \<notin> set (ToLower s)"
  unfolding ToLower_def using lower_byte_eq [of d] by fastforce

lemma length_ToLower [simp]: "length (ToLower s) = length s"
  by (simp add: ToLower_def)

lemma ToLower_idem [simp]: "ToLower (ToLower s) = ToLower s"
  by (simp add: ToLower_def)

lemma ToLower_append [simp]: "ToLower (s @ t) = ToLower s @ ToLower t"
  by (simp add: ToLower_def)

lemma ToLower_Nil [simp]: "ToLower [] = []"
  by (simp add: ToLower_def)

lemma ToLower_Cons: "ToLower (c # s) = lower_byte c # ToLower s"
  by (simp add: ToLower_def)

lemma ToLower_eq_Nil [simp]: "ToLower s = [] \<longleftrightarrow> s = []"
  by (simp add: ToLower_def)

lemma take_ToLower: "take n (ToLower s) = ToLower (take n s)"
  by (simp add: ToLower_def take_map)

lemma drop_ToLower: "drop n (ToLower s) = ToLower (drop n s)"
  by (simp add: ToLower_def drop_map)

section \<open>Prefixes and suffixes\<close>

definition HasPrefix :: "string \<Rightarrow> string \<Rightarrow> bool" where
  "HasPrefix s p \<longleftrightarrow> take (length p) s = p"

definition HasSuffix :: "string \<Rightarrow> string \<Rightarrow> bool" where
  "HasSuffix s p \<longleftrightarrow> length p \<le> length s \<and> drop (length s - length p) s = p"

definition TrimPrefix :: "string \<Rightarrow> string \<Rightarrow> string" where
  "TrimPrefix s p = (if HasPrefix s p then drop (length p) s else s)"

definition TrimSuffix :: "string \<Rightarrow> string \<Rightarrow> string" where
  "TrimSuffix s p = (if HasSuffix s p then take (length s - length p) s else s)"

fun Contains :: "string \<Rightarrow> string \<Rightarrow> bool" where
  "Contains [] p = (p = [])"
| "Contains (c # s) p = (HasPrefix (c # s) p \<or> Contains s p)"

lemma HasPrefix_iff_prefix: "HasPrefix s p \<longleftrightarrow> prefix p s"
  by (auto simp: HasPrefix_def prefix_def) (metis append_take_drop_id)

lemma HasPrefix_append [simp]: "HasPrefix (p @ s) p"
  by (simp add: HasPrefix_def)

lemma HasPrefix_Nil [simp]: "HasPrefix s []"
  by (simp add: HasPrefix_def)

lemma HasPrefixE: "HasPrefix s p \<Longrightarrow> (\<And>t. s = p @ t \<Longrightarrow> P) \<Longrightarrow> P"
  by (auto simp: HasPrefix_iff_prefix elim: prefixE)

lemma HasSuffix_iff_suffix: "HasSuffix s p \<longleftrightarrow> suffix p s"
proof
  assume "HasSuffix s p"
  then have "s = take (length s - length p) s @ p"
    by (metis HasSuffix_def append_take_drop_id)
  then show "suffix p s" by (auto simp: suffix_def)
next
  assume "suffix p s"
  then show "HasSuffix s p" by (auto simp: suffix_def HasSuffix_def)
qed

lemma HasSuffix_append [simp]: "HasSuffix (s @ p) p"
  by (simp add: HasSuffix_def)

lemma HasSuffixE: "HasSuffix s p \<Longrightarrow> (\<And>t. s = t @ p \<Longrightarrow> P) \<Longrightarrow> P"
  by (auto simp: HasSuffix_iff_suffix elim: suffixE)

lemma TrimPrefix_append [simp]: "TrimPrefix (p @ s) p = s"
  by (simp add: TrimPrefix_def)

lemma TrimSuffix_append [simp]: "TrimSuffix (s @ p) p = s"
  by (simp add: TrimSuffix_def)

lemma Contains_iff: "Contains s p \<longleftrightarrow> (\<exists>u v. s = u @ p @ v)"
proof (induction s)
  case Nil
  then show ?case by auto
next
  case (Cons c s)
  show ?case
  proof
    assume "Contains (c # s) p"
    then consider "HasPrefix (c # s) p" | "Contains s p" by auto
    then show "\<exists>u v. c # s = u @ p @ v"
    proof cases
      case 1
      then obtain t where "c # s = [] @ p @ t" by (auto elim: HasPrefixE)
      then show ?thesis by blast
    next
      case 2
      then obtain u v where "s = u @ p @ v" using Cons.IH by auto
      then have "c # s = (c # u) @ p @ v" by simp
      then show ?thesis by blast
    qed
  next
    assume "\<exists>u v. c # s = u @ p @ v"
    then obtain u v where eq: "c # s = u @ p @ v" by blast
    show "Contains (c # s) p"
    proof (cases u)
      case Nil
      with eq have "HasPrefix (c # s) p" by (simp del: prefix_Cons add: HasPrefix_iff_prefix)
      then show ?thesis by simp
    next
      case (Cons d u')
      with eq have "s = u' @ p @ v" by simp
      with Cons.IH have "Contains s p" by blast
      then show ?thesis by simp
    qed
  qed
qed

section \<open>Trimming\<close>

definition TrimRightFunc :: "(char \<Rightarrow> bool) \<Rightarrow> string \<Rightarrow> string" where
  "TrimRightFunc P s = rev (dropWhile P (rev s))"

definition TrimFunc :: "(char \<Rightarrow> bool) \<Rightarrow> string \<Rightarrow> string" where
  "TrimFunc P s = TrimRightFunc P (dropWhile P s)"

definition TrimSpace :: "string \<Rightarrow> string" where
  "TrimSpace s = TrimFunc IsSpace s"

definition Trim :: "string \<Rightarrow> string \<Rightarrow> string" where
  "Trim s cutset = TrimFunc (\<lambda>c. c \<in> set cutset) s"

definition TrimRight :: "string \<Rightarrow> string \<Rightarrow> string" where
  "TrimRight s cutset = TrimRightFunc (\<lambda>c. c \<in> set cutset) s"

text \<open>A string is trimmed when neither end is to be cut.\<close>

definition trimmed_by :: "(char \<Rightarrow> bool) \<Rightarrow> string \<Rightarrow> bool" where
  "trimmed_by P s \<longleftrightarrow> s = [] \<or> (\<not> P (hd s) \<and> \<not> P (last s))"

lemma TrimFunc_id: "trimmed_by P s \<Longrightarrow> TrimFunc P s = s"
  by (cases "s = []")
    (auto simp: trimmed_by_def TrimFunc_def TrimRightFunc_def dropWhile_eq_self hd_rev)

lemma hd_TrimRightFunc: "TrimRightFunc P s \<noteq> [] \<Longrightarrow> hd (TrimRightFunc P s) = hd s"
proof -
  assume ne: "TrimRightFunc P s \<noteq> []"
  have "rev (takeWhile P (rev s) @ dropWhile P (rev s)) = s" by simp
  then have "s = TrimRightFunc P s @ rev (takeWhile P (rev s))"
    by (simp only: TrimRightFunc_def rev_append)
  with ne show ?thesis by (metis hd_append2)
qed

lemma trimmed_TrimFunc: "trimmed_by P (TrimFunc P s)"
proof (cases "TrimFunc P s = []")
  case True
  then show ?thesis by (simp add: trimmed_by_def)
next
  case False
  let ?t = "dropWhile P s"
  have "TrimFunc P s = []" if "?t = []" using that by (simp only: TrimFunc_def TrimRightFunc_def) simp
  with False have ne: "?t \<noteq> []" by blast
  have "hd (TrimFunc P s) = hd ?t"
    using False hd_TrimRightFunc unfolding TrimFunc_def by blast
  moreover have "\<not> P (hd ?t)" using ne by (rule hd_dropWhile)
  moreover have "\<not> P (last (TrimFunc P s))"
    using False hd_dropWhile [of P "rev ?t"]
    by (simp add: TrimFunc_def TrimRightFunc_def last_rev)
  ultimately show ?thesis using False by (simp add: trimmed_by_def)
qed

lemma TrimFunc_idem [simp]: "TrimFunc P (TrimFunc P s) = TrimFunc P s"
  by (rule TrimFunc_id) (rule trimmed_TrimFunc)

lemma TrimSpace_idem [simp]: "TrimSpace (TrimSpace s) = TrimSpace s"
  by (simp add: TrimSpace_def)

lemma length_TrimFunc: "length (TrimFunc P s) \<le> length s"
proof -
  have "length (TrimFunc P s) \<le> length (dropWhile P s)"
    by (metis TrimFunc_def TrimRightFunc_def length_dropWhile_le length_rev)
  also have "\<dots> \<le> length s" by (rule length_dropWhile_le)
  finally show ?thesis .
qed

lemma length_TrimSpace: "length (TrimSpace s) \<le> length s"
  by (simp add: TrimSpace_def length_TrimFunc)

lemma set_TrimFunc: "set (TrimFunc P s) \<subseteq> set s"
proof
  fix x
  assume "x \<in> set (TrimFunc P s)"
  then have "x \<in> set (dropWhile P s)"
    unfolding TrimFunc_def TrimRightFunc_def by (metis set_dropWhileD set_rev)
  then show "x \<in> set s" by (rule set_dropWhileD)
qed

lemma set_TrimSpace: "set (TrimSpace s) \<subseteq> set s"
  by (simp add: TrimSpace_def set_TrimFunc)

lemma TrimSpace_Nil [simp]: "TrimSpace [] = []"
  by (simp add: TrimSpace_def TrimFunc_def TrimRightFunc_def)

section \<open>Searching for a byte\<close>

fun IndexByte :: "string \<Rightarrow> char \<Rightarrow> nat option" where
  "IndexByte [] b = None"
| "IndexByte (c # s) b = (if c = b then Some 0 else map_option Suc (IndexByte s b))"

definition LastIndexByte :: "string \<Rightarrow> char \<Rightarrow> nat option" where
  "LastIndexByte s b = map_option (\<lambda>i. length s - 1 - i) (IndexByte (rev s) b)"

lemma IndexByte_None_iff [simp]: "IndexByte s b = None \<longleftrightarrow> b \<notin> set s"
  by (induction s) auto

lemma IndexByte_append: "b \<notin> set u \<Longrightarrow> IndexByte (u @ b # v) b = Some (length u)"
  by (induction u) auto

lemma IndexByte_Some: "IndexByte s b = Some i \<Longrightarrow> i < length s \<and> s ! i = b \<and> b \<notin> set (take i s)"
  by (induction s arbitrary: i) (auto split: if_splits simp: take_Cons')

lemma LastIndexByte_None_iff [simp]: "LastIndexByte s b = None \<longleftrightarrow> b \<notin> set s"
  by (simp add: LastIndexByte_def)

lemma LastIndexByte_append: "b \<notin> set v \<Longrightarrow> LastIndexByte (u @ b # v) b = Some (length u)"
  by (simp add: LastIndexByte_def IndexByte_append)

text \<open>
  \<^verbatim>\<open>if idx := strings.LastIndex(host, ":"); idx != -1 { host = host[:idx] }\<close>, the port
  stripping of the proxies and of the broker's matcher.
\<close>

definition cut_last :: "char \<Rightarrow> string \<Rightarrow> string" where
  "cut_last b s = (case LastIndexByte s b of Some i \<Rightarrow> take i s | None \<Rightarrow> s)"

lemma cut_last_append [simp]: "b \<notin> set v \<Longrightarrow> cut_last b (u @ b # v) = u"
  by (simp add: cut_last_def LastIndexByte_append)

lemma cut_last_id [simp]: "b \<notin> set s \<Longrightarrow> cut_last b s = s"
  by (simp add: cut_last_def flip: LastIndexByte_None_iff)

text \<open>\<^verbatim>\<open>s[:strings.IndexByte(s, b)]\<close> when the byte occurs.\<close>

definition cut_first :: "char \<Rightarrow> string \<Rightarrow> string" where
  "cut_first b s = (case IndexByte s b of Some i \<Rightarrow> take i s | None \<Rightarrow> s)"

lemma cut_first_append [simp]: "b \<notin> set u \<Longrightarrow> cut_first b (u @ b # v) = u"
  by (simp add: cut_first_def IndexByte_append)

lemma cut_first_id [simp]: "b \<notin> set s \<Longrightarrow> cut_first b s = s"
  by (simp add: cut_first_def flip: IndexByte_None_iff)

lemma cut_first_takeWhile: "cut_first b s = takeWhile (\<lambda>c. c \<noteq> b) s"
proof (cases "b \<in> set s")
  case True
  then obtain u v where "s = u @ b # v" "b \<notin> set u" by (meson split_list_first)
  then show ?thesis
    using takeWhile_append2 [of u "\<lambda>c. c \<noteq> b" "b # v"] by fastforce
next
  case False
  then have "takeWhile (\<lambda>c. c \<noteq> b) s = s" by (induction s) auto
  with cut_first_id [OF False] show ?thesis by metis
qed

text \<open>\<^verbatim>\<open>strings.SplitN(s, sep, 2)\<close> for a one-byte separator.\<close>

definition SplitN2 :: "string \<Rightarrow> char \<Rightarrow> string list" where
  "SplitN2 s b = (case IndexByte s b of None \<Rightarrow> [s] | Some i \<Rightarrow> [take i s, drop (Suc i) s])"

lemma SplitN2_append: "b \<notin> set u \<Longrightarrow> SplitN2 (u @ b # v) b = [u, v]"
  by (simp add: SplitN2_def IndexByte_append)

section \<open>Fields\<close>

text \<open>
  \<^verbatim>\<open>strings.Fields\<close>: the maximal runs of non-space bytes. The accumulator holds the
  current word reversed.
\<close>

fun fields_from :: "string \<Rightarrow> string \<Rightarrow> string list" where
  "fields_from w [] = (if w = [] then [] else [rev w])"
| "fields_from w (c # s) =
     (if IsSpace c then (if w = [] then fields_from [] s else rev w # fields_from [] s)
      else fields_from (c # w) s)"

definition Fields :: "string \<Rightarrow> string list" where
  "Fields s = fields_from [] s"

lemma fields_from_nonempty: "x \<in> set (fields_from w s) \<Longrightarrow> x \<noteq> []"
proof (induction s arbitrary: w)
  case Nil
  then show ?case by (cases "w = []") auto
next
  case (Cons c s)
  then show ?case by (cases "IsSpace c"; cases "w = []") auto
qed

lemma fields_from_no_space:
  "x \<in> set (fields_from w s) \<Longrightarrow> \<forall>c \<in> set w. \<not> IsSpace c \<Longrightarrow> \<forall>c \<in> set x. \<not> IsSpace c"
proof (induction s arbitrary: w)
  case Nil
  then show ?case by (cases "w = []") auto
next
  case (Cons c s)
  show ?case
  proof (cases "IsSpace c")
    case True
    with Cons.prems have "x = rev w \<or> x \<in> set (fields_from [] s)" by (cases "w = []") auto
    then show ?thesis using Cons.prems(2) Cons.IH [of "[]"] by auto
  next
    case False
    then show ?thesis using Cons.prems Cons.IH [of "c # w"] by auto
  qed
qed

section \<open>Decimal numbers\<close>

text \<open>\<^verbatim>\<open>fmt.Sprintf("%d", n)\<close>.\<close>

definition digit :: "nat \<Rightarrow> char" where
  "digit d = char_of (48 + d)"

function nat_dec :: "nat \<Rightarrow> string" where
  "nat_dec n = (if n < 10 then [digit n] else nat_dec (n div 10) @ [digit (n mod 10)])"
  by pat_completeness auto
termination
  by (relation "measure id") auto

declare nat_dec.simps [simp del]

definition int_dec :: "int \<Rightarrow> string" where
  "int_dec i = (if i < 0 then CHR ''-'' # nat_dec (nat (- i)) else nat_dec (nat i))"

lemma byte_of_digit: "d < 10 \<Longrightarrow> byte_of (digit d) = 48 + d"
  by (simp add: digit_def byte_of_def)

lemma digit_inj: "d < 10 \<Longrightarrow> e < 10 \<Longrightarrow> digit d = digit e \<longleftrightarrow> d = e"
  by (metis add_left_imp_eq byte_of_digit)

lemma nat_dec_nonempty [simp]: "nat_dec n \<noteq> []"
  by (subst nat_dec.simps) simp

lemma nat_dec_inj: "nat_dec m = nat_dec n \<Longrightarrow> m = n"
proof (induction m arbitrary: n rule: nat_dec.induct)
  case (1 m)
  show ?case
  proof (cases "m < 10")
    case m: True
    show ?thesis
    proof (cases "n < 10")
      case True
      with m 1(2) show ?thesis by (simp add: nat_dec.simps [of m] nat_dec.simps [of n] digit_inj)
    next
      case False
      with m 1(2) have "[digit m] = nat_dec (n div 10) @ [digit (n mod 10)]"
        by (simp add: nat_dec.simps [of m] nat_dec.simps [of n])
      then show ?thesis by (metis append_is_Nil_conv butlast.simps(2) butlast_snoc nat_dec_nonempty)
    qed
  next
    case m: False
    show ?thesis
    proof (cases "n < 10")
      case True
      with m 1(2) have "[digit n] = nat_dec (m div 10) @ [digit (m mod 10)]"
        by (simp add: nat_dec.simps [of m] nat_dec.simps [of n])
      then show ?thesis by (metis append_is_Nil_conv butlast.simps(2) butlast_snoc nat_dec_nonempty)
    next
      case False
      with m 1(2) have "nat_dec (m div 10) = nat_dec (n div 10)" "digit (m mod 10) = digit (n mod 10)"
        by (simp_all add: nat_dec.simps [of m] nat_dec.simps [of n])
      then have "m div 10 = n div 10" "m mod 10 = n mod 10"
        using 1(1) [OF m] by (auto simp: digit_inj)
      then show ?thesis by (metis div_mult_mod_eq)
    qed
  qed
qed

lemma digit_not_minus: "d < 10 \<Longrightarrow> digit d \<noteq> CHR ''-''"
  using byte_of_digit [of d] by (auto simp: byte_of_def)

lemma nat_dec_no_minus: "CHR ''-'' \<notin> set (nat_dec n)"
proof (induction n rule: nat_dec.induct)
  case (1 n)
  then show ?case
    by (cases "n < 10") (auto simp: nat_dec.simps [of n] digit_not_minus [symmetric])
qed

lemma int_dec_inj: "int_dec i = int_dec j \<longleftrightarrow> i = j"
proof
  assume eq: "int_dec i = int_dec j"
  have minus: "CHR ''-'' # s \<noteq> nat_dec n" for s n
    using nat_dec_no_minus [of n] by (metis list.set_intros(1))
  have "nat_dec (nat \<bar>i\<bar>) = nat_dec (nat \<bar>j\<bar>) \<and> (i < 0 \<longleftrightarrow> j < 0)"
    using eq minus minus [symmetric] by (auto simp: int_dec_def split: if_splits)
  then have "nat \<bar>i\<bar> = nat \<bar>j\<bar>" "i < 0 \<longleftrightarrow> j < 0" by (auto dest: nat_dec_inj)
  then show "i = j" by linarith
qed simp

text \<open>\<^verbatim>\<open>strconv.ParseInt(s, 10, 64)\<close>: an optional sign and digits, in the range of 64 bits.\<close>

definition digits_value :: "string \<Rightarrow> int" where
  "digits_value ds = foldl (\<lambda>n c. 10 * n + (int (byte_of c) - 48)) 0 ds"

definition ParseInt64 :: "string \<Rightarrow> int option" where
  "ParseInt64 s =
     (let (neg, ds) = (case s of
              c # t \<Rightarrow> if c = CHR ''-'' then (True, t) else if c = CHR ''+'' then (False, t) else (False, s)
            | [] \<Rightarrow> (False, s));
          n = (if neg then - digits_value ds else digits_value ds)
      in if ds \<noteq> [] \<and> list_all (\<lambda>c. 48 \<le> byte_of c \<and> byte_of c \<le> 57) ds \<and> - (2 ^ 63) \<le> n \<and> n < 2 ^ 63
         then Some n else None)"

lemma digits_value_snoc: "digits_value (ds @ [c]) = 10 * digits_value ds + (int (byte_of c) - 48)"
  by (simp add: digits_value_def)

lemma digits_value_nat_dec: "digits_value (nat_dec n) = int n"
proof (induction n rule: nat_dec.induct)
  case (1 n)
  show ?case
  proof (cases "n < 10")
    case True
    then show ?thesis by (simp add: nat_dec.simps [of n] digits_value_def byte_of_digit)
  next
    case False
    with 1 have "digits_value (nat_dec n) = 10 * int (n div 10) + int (n mod 10)"
      by (subst nat_dec.simps) (simp add: digits_value_snoc byte_of_digit)
    then show ?thesis by (metis mult_div_mod_eq of_nat_add of_nat_mult of_nat_numeral)
  qed
qed

lemma nat_dec_digits: "c \<in> set (nat_dec n) \<Longrightarrow> 48 \<le> byte_of c \<and> byte_of c \<le> 57"
proof (induction n rule: nat_dec.induct)
  case (1 n)
  then show ?case
    by (cases "n < 10") (auto simp: nat_dec.simps [of n] byte_of_digit)
qed

lemma ParseInt64_nat_dec:
  assumes "n < 2 ^ 63"
  shows "ParseInt64 (nat_dec n) = Some (int n)"
proof -
  obtain c t where ct: "nat_dec n = c # t" by (cases "nat_dec n") simp_all
  then have "48 \<le> byte_of c" using nat_dec_digits [of c n] by simp
  then have "c \<noteq> CHR ''-''" "c \<noteq> CHR ''+''" by (auto simp: byte_of_def)
  moreover have "list_all (\<lambda>c. 48 \<le> byte_of c \<and> byte_of c \<le> 57) (c # t)"
    using nat_dec_digits [of _ n] unfolding ct list_all_iff by blast
  moreover have "digits_value (c # t) = int n" using digits_value_nat_dec [of n] ct by simp
  moreover have "int n < 2 ^ 63" using assms by (metis of_nat_less_iff of_nat_numeral of_nat_power)
  ultimately show ?thesis unfolding ct ParseInt64_def by simp
qed

lemma TrimSpace_nat_dec: "TrimSpace (nat_dec n) = nat_dec n"
proof -
  have "\<not> IsSpace c" if "c \<in> set (nat_dec n)" for c
    using nat_dec_digits [OF that] by (auto simp: IsSpace_def)
  then have "trimmed_by IsSpace (nat_dec n)"
    by (simp add: trimmed_by_def)
  then show ?thesis by (simp add: TrimSpace_def TrimFunc_id)
qed

section \<open>Line ends\<close>

definition newline :: char where "newline = char_of (10 :: nat)"

definition nl :: string where "nl = [newline]"

section \<open>Quoting\<close>

text \<open>
  \<^verbatim>\<open>strconv.Quote\<close>, the verb \<^verbatim>\<open>%q\<close>, byte by byte; what is not ASCII is taken to
  be printable and stays.
\<close>

definition lower_hex :: "nat \<Rightarrow> char" where
  "lower_hex d = (if d < 10 then char_of (48 + d) else char_of (87 + d))"

definition quote_byte :: "char \<Rightarrow> string" where
  "quote_byte c =
     (let n = byte_of c; bs = char_of (92 :: nat) in
      case map_of [(34, CHR 0x22), (92, bs), (7, CHR ''a''), (8, CHR ''b''), (12, CHR ''f''), (10, CHR ''n''),
                   (13, CHR ''r''), (9, CHR ''t''), (11, CHR ''v'')] n of
        Some e \<Rightarrow> [bs, e]
      | None \<Rightarrow> if n < 32 \<or> n = 127 then [bs, CHR ''x'', lower_hex (n div 16), lower_hex (n mod 16)] else [c])"

definition go_quote :: "string \<Rightarrow> string" where
  "go_quote s = CHR 0x22 # concat (map quote_byte s) @ [CHR 0x22]"

lemmas [go_simps] = byte_of_def IsSpace_def lower_byte_def ToLower_def HasPrefix_def
  HasSuffix_def TrimPrefix_def TrimSuffix_def

end
