(* ===== verification/Json.thy ===== *)
theory Json
  imports Go_Strings
begin

text \<open>
  Decoded JSON, the \<^verbatim>\<open>any\<close> and \<^verbatim>\<open>map[string]any\<close> values of
  \<open>encoding/json\<close>, with Go's type assertions on them and the encoding of strings.

  A number is the text \<open>encoding/json\<close> prints for it. An object is an association list with
  one entry per key; Go's map has no order, and everything the program computes from one goes
  through lookups or sorts the keys first.
\<close>

datatype json =
    JNull
  | JBool bool
  | JNum string
  | JStr string
  | JArr "json list"
  | JObj "(string \<times> json) list"

type_synonym gomap = "(string \<times> json) list"

section \<open>Lookups and type assertions\<close>

text \<open>\<^verbatim>\<open>v, ok := m[k].(string)\<close> and \<^verbatim>\<open>v, ok := m[k].(map[string]any)\<close>.\<close>

fun as_string :: "json \<Rightarrow> string option" where
  "as_string (JStr s) = Some s"
| "as_string _ = None"

fun as_object :: "json \<Rightarrow> gomap option" where
  "as_object (JObj m) = Some m"
| "as_object _ = None"

definition get_string :: "gomap \<Rightarrow> string \<Rightarrow> string option" where
  "get_string m k = Option.bind (map_of m k) as_string"

definition get_object :: "gomap \<Rightarrow> string \<Rightarrow> gomap option" where
  "get_object m k = Option.bind (map_of m k) as_object"

lemma as_string_Some_iff [simp]: "as_string v = Some s \<longleftrightarrow> v = JStr s"
  by (cases v) auto

lemma as_object_Some_iff [simp]: "as_object v = Some m \<longleftrightarrow> v = JObj m"
  by (cases v) auto

lemma get_string_Some_iff: "get_string m k = Some s \<longleftrightarrow> map_of m k = Some (JStr s)"
  by (auto simp: get_string_def bind_eq_Some_conv)

lemma get_object_Some_iff: "get_object m k = Some v \<longleftrightarrow> map_of m k = Some (JObj v)"
  by (auto simp: get_object_def bind_eq_Some_conv)

lemma get_string_Nil [simp]: "get_string [] k = None"
  by (simp add: get_string_def)

text \<open>
  The loop that looks for a string among several field names:
  \<^verbatim>\<open>for _, n := range names { if v, ok := m[n]; ok { if s, ok := v.(string); ok { return s } } }\<close>.
\<close>

definition first_string :: "string list \<Rightarrow> gomap \<Rightarrow> string option" where
  "first_string names m = find_first (get_string m) names"

lemma first_string_mono:
  "first_string ns m = None \<Longrightarrow> set ms \<subseteq> set ns \<Longrightarrow> first_string ms m = None"
  by (auto simp: first_string_def find_first_None_iff)

section \<open>Encoding of strings\<close>

text \<open>
  \<^verbatim>\<open>json.Marshal\<close> of a string: quotes and backslashes escaped, control bytes as their short
  escapes or \<^verbatim>\<open>\u00XX\<close>, and the three HTML characters as \<^verbatim>\<open>\u003c\<close>,
  \<^verbatim>\<open>\u003e\<close>, \<^verbatim>\<open>\u0026\<close>. Bytes above 127 are passed on, as those of valid UTF-8
  text are.
\<close>

definition hex_digit :: "nat \<Rightarrow> char" where
  "hex_digit d = (if d < 10 then char_of (48 + d) else char_of (87 + d))"

definition json_escape :: "char \<Rightarrow> string" where
  "json_escape c =
     (let n = byte_of c in
      if n = 34 then [char_of (92::nat), c]
      else if n = 92 then [c, c]
      else if n = 8 then [char_of (92::nat), CHR ''b'']
      else if n = 12 then [char_of (92::nat), CHR ''f'']
      else if n = 10 then [char_of (92::nat), CHR ''n'']
      else if n = 13 then [char_of (92::nat), CHR ''r'']
      else if n = 9 then [char_of (92::nat), CHR ''t'']
      else if n < 32 \<or> n = 60 \<or> n = 62 \<or> n = 38
        then char_of (92::nat) # ''u00'' @ [hex_digit (n div 16), hex_digit (n mod 16)]
      else [c])"

definition json_quote :: "string \<Rightarrow> string" where
  "json_quote s = [char_of (34::nat)] @ concat (map json_escape s) @ [char_of (34::nat)]"

end
