(* ===== verification/Storage.thy ===== *)
theory Storage
  imports Json "HOL-Library.Multiset"
begin

text \<open>
  The persistent store of pending commands and audit events (internal/storage/sqlite.go): the two
  tables as lists of rows in insertion order, and one definition per operation.

  A time is a number of nanoseconds. What the SQLite driver answers is a parameter of every
  operation: \<open>io = Some e\<close> when it fails with \<open>e\<close>, and then the tables are unchanged. Each
  operation holds the store's lock from start to end, so it is one step; \<open>GetStatus\<close> gives its lock
  up before its update, and is two. The arguments of a command are kept as the JSON values they
  are; encoding them and decoding them again gives them back.
\<close>

section \<open>Data\<close>

record StoredCommand =
  sp_ID :: string
  sp_Command :: string
  sp_ToolName :: string
  sp_Args :: gomap
  sp_Reason :: string
  sp_CreatedAt :: int
  sp_ExpiresAt :: int
  sp_Status :: string
  sp_DecidedAt :: "int option"

record AuditEvent =
  se_Timestamp :: int
  se_EventType :: string
  se_CommandID :: string
  se_Command :: string
  se_Action :: string
  se_Reason :: string
  se_ClientIP :: string
  se_CorrelationID :: string
  se_Details :: string

record Store =
  st_rows :: "StoredCommand list"
  st_audit :: "AuditEvent list"

datatype store_error =
    InsertFailed string
  | GetFailed string
  | CheckFailed string
  | StatusFailed string
  | ListFailed string
  | UpdateFailed string
  | LogFailed string

definition empty_store :: Store where
  "empty_store = \<lparr>st_rows = [], st_audit = []\<rparr>"

definition lookup_row :: "Store \<Rightarrow> string \<Rightarrow> StoredCommand option" where
  "lookup_row s cid = find (\<lambda>r. sp_ID r = cid) (st_rows s)"

section \<open>Operations on the pending commands\<close>

text \<open>\<open>Add\<close>: the identifier is the primary key, so an insertion of a second one fails.\<close>

definition Store_Add :: "string option \<Rightarrow> Store \<Rightarrow> StoredCommand \<Rightarrow> store_error option \<times> Store" where
  "Store_Add io s pc =
     (case io of
        Some e \<Rightarrow> (Some (InsertFailed e), s)
      | None \<Rightarrow>
          if lookup_row s (sp_ID pc) \<noteq> None then (Some (InsertFailed ''UNIQUE constraint failed''), s)
          else (None, s\<lparr>st_rows := st_rows s @ [pc\<lparr>sp_Status := ''pending'', sp_DecidedAt := None\<rparr>]\<rparr>))"

definition Store_Get :: "string option \<Rightarrow> Store \<Rightarrow> string \<Rightarrow> store_error + StoredCommand option" where
  "Store_Get io s cid = (case io of Some e \<Rightarrow> Inl (GetFailed e) | None \<Rightarrow> Inr (lookup_row s cid))"

text \<open>\<open>ORDER BY created_at DESC\<close>; rows created at the same time keep the order of insertion.\<close>

definition ListPending ::
  "string option \<Rightarrow> int \<Rightarrow> Store \<Rightarrow> store_error + StoredCommand list" where
  "ListPending io now s =
     (case io of
        Some e \<Rightarrow> Inl (ListFailed e)
      | None \<Rightarrow> Inr (sort_key (\<lambda>r. - sp_CreatedAt r)
                  (filter (\<lambda>r. sp_Status r = ''pending'' \<and> sp_ExpiresAt r > now) (st_rows s))))"

text \<open>The two updates of the program, both guarded by \<open>status = 'pending'\<close>.\<close>

definition update_pending ::
  "(StoredCommand \<Rightarrow> bool) \<Rightarrow> (StoredCommand \<Rightarrow> StoredCommand) \<Rightarrow> Store \<Rightarrow> Store" where
  "update_pending P f s =
     s\<lparr>st_rows := map (\<lambda>r. if P r \<and> sp_Status r = ''pending'' then f r else r) (st_rows s)\<rparr>"

definition UpdateStatus ::
  "string option \<Rightarrow> int \<Rightarrow> Store \<Rightarrow> string \<Rightarrow> string \<Rightarrow> (store_error + bool) \<times> Store" where
  "UpdateStatus io now s cid status =
     (case io of
        Some e \<Rightarrow> (Inl (UpdateFailed e), s)
      | None \<Rightarrow>
          (Inr (list_ex (\<lambda>r. sp_ID r = cid \<and> sp_Status r = ''pending'') (st_rows s)),
           update_pending (\<lambda>r. sp_ID r = cid)
             (\<lambda>r. r\<lparr>sp_Status := status, sp_DecidedAt := Some now\<rparr>) s))"

definition Store_Approve :: "string option \<Rightarrow> int \<Rightarrow> Store \<Rightarrow> string \<Rightarrow> (store_error + bool) \<times> Store" where
  "Store_Approve io now s cid = UpdateStatus io now s cid ''approved''"

definition Store_Deny :: "string option \<Rightarrow> int \<Rightarrow> Store \<Rightarrow> string \<Rightarrow> (store_error + bool) \<times> Store" where
  "Store_Deny io now s cid = UpdateStatus io now s cid ''denied''"

definition Store_IsExpired :: "string option \<Rightarrow> int \<Rightarrow> Store \<Rightarrow> string \<Rightarrow> store_error + bool" where
  "Store_IsExpired io now s cid =
     (case io of
        Some e \<Rightarrow> Inl (CheckFailed e)
      | None \<Rightarrow> (case lookup_row s cid of
                    None \<Rightarrow> Inr True
                  | Some r \<Rightarrow> Inr (sp_Status r \<noteq> ''pending'' \<or> now > sp_ExpiresAt r)))"

text \<open>
  \<open>GetStatus\<close> reads under the read lock; when the row has run out it takes the write lock, marks it
  (still guarded) and answers \<open>expired\<close> whatever that update found. \<open>s'\<close> is the store at the second
  lock, after what other calls did in between.
\<close>

definition GetStatus_read :: "string option \<Rightarrow> int \<Rightarrow> Store \<Rightarrow> string \<Rightarrow> store_error + string" where
  "GetStatus_read io now s cid =
     (case io of
        Some e \<Rightarrow> Inl (StatusFailed e)
      | None \<Rightarrow> (case lookup_row s cid of
                    None \<Rightarrow> Inr ''not_found''
                  | Some r \<Rightarrow>
                      if sp_Status r = ''pending'' \<and> now > sp_ExpiresAt r then Inr ''expired''
                      else Inr (sp_Status r)))"

definition GetStatus_mark :: "Store \<Rightarrow> string \<Rightarrow> Store" where
  "GetStatus_mark s' cid = update_pending (\<lambda>r. sp_ID r = cid) (\<lambda>r. r\<lparr>sp_Status := ''expired''\<rparr>) s'"

definition GetStatus ::
  "string option \<Rightarrow> int \<Rightarrow> Store \<Rightarrow> string \<Rightarrow> (store_error + string) \<times> Store" where
  "GetStatus io now s cid =
     (GetStatus_read io now s cid,
      case (io, lookup_row s cid) of
        (None, Some r) \<Rightarrow>
          if sp_Status r = ''pending'' \<and> now > sp_ExpiresAt r then GetStatus_mark s cid else s
      | _ \<Rightarrow> s)"

text \<open>One tick of \<open>cleanupLoop\<close>.\<close>

definition cleanupLoop_tick :: "int \<Rightarrow> Store \<Rightarrow> Store" where
  "cleanupLoop_tick now s =
     update_pending (\<lambda>r. sp_ExpiresAt r < now) (\<lambda>r. r\<lparr>sp_Status := ''expired''\<rparr>) s"

text \<open>The loop, over the times of its ticks, each with the driver's answer, whose error is ignored.\<close>

fun cleanupLoop :: "(string option \<times> int) list \<Rightarrow> Store \<Rightarrow> Store" where
  "cleanupLoop [] s = s"
| "cleanupLoop ((io, now) # ticks) s = cleanupLoop ticks (if io = None then cleanupLoop_tick now s else s)"

section \<open>Operations on the audit table\<close>

definition LogEvent :: "string option \<Rightarrow> Store \<Rightarrow> AuditEvent \<Rightarrow> store_error option \<times> Store" where
  "LogEvent io s ev =
     (case io of
        Some e \<Rightarrow> (Some (LogFailed e), s)
      | None \<Rightarrow> (None, s\<lparr>st_audit := st_audit s @ [ev]\<rparr>))"

text \<open>\<open>LIMIT ?\<close> with a negative number is no limit, as SQLite has it.\<close>

definition GetAuditLog :: "string option \<Rightarrow> Store \<Rightarrow> int \<Rightarrow> store_error + AuditEvent list" where
  "GetAuditLog io s limit =
     (case io of
        Some e \<Rightarrow> Inl (ListFailed e)
      | None \<Rightarrow>
          (let sorted = sort_key (\<lambda>e. - se_Timestamp e) (st_audit s) in
           Inr (if limit < 0 then sorted else take (nat limit) sorted)))"

section \<open>Opening and closing\<close>

text \<open>
  What the driver answers when the file is opened, when the journal mode is set and when the schema is
  executed. The schema creates each table only if the file does not have it, so the tables of an
  existing file stay; \<open>file\<close> is what the file holds, none when there is no file yet.
\<close>

record open_answers =
  oa_open :: "string option"
  oa_pragma :: "string option"
  oa_schema :: "string option"

definition NewStore :: "open_answers \<Rightarrow> Store option \<Rightarrow> string + Store" where
  "NewStore io file =
     (case oa_open io of
        Some e \<Rightarrow> Inl (''failed to open database: '' @ e)
      | None \<Rightarrow>
          (case oa_pragma io of
             Some e \<Rightarrow> Inl (''failed to enable WAL mode: '' @ e)
           | None \<Rightarrow>
               (case oa_schema io of
                  Some e \<Rightarrow> Inl (''failed to create schema: '' @ e)
                | None \<Rightarrow> Inr (case file of Some s \<Rightarrow> s | None \<Rightarrow> empty_store))))"

definition Store_Close :: "string option \<Rightarrow> Store \<Rightarrow> string option \<times> Store" where
  "Store_Close io s = (io, s)"

section \<open>The store's state machine\<close>

text \<open>A call that changes the tables, with the driver's answer and the time of the call.\<close>

datatype store_op =
    OpAdd "string option" StoredCommand
  | OpUpdate "string option" int string string
  | OpGetStatus "string option" int string
  | OpCleanup int
  | OpLog "string option" AuditEvent

primrec store_step :: "store_op \<Rightarrow> Store \<Rightarrow> Store" where
  "store_step (OpAdd io pc) s = snd (Store_Add io s pc)"
| "store_step (OpUpdate io now cid status) s = snd (UpdateStatus io now s cid status)"
| "store_step (OpGetStatus io now cid) s = snd (GetStatus io now s cid)"
| "store_step (OpCleanup now) s = cleanupLoop_tick now s"
| "store_step (OpLog io ev) s = snd (LogEvent io s ev)"

definition run_store :: "store_op list \<Rightarrow> Store \<Rightarrow> Store" where
  "run_store ops s = fold store_step ops s"

text \<open>Invariant: identifiers are unique.\<close>

definition store_inv :: "Store \<Rightarrow> bool" where
  "store_inv s \<longleftrightarrow> distinct (map sp_ID (st_rows s))"

definition keeps_id :: "(StoredCommand \<Rightarrow> StoredCommand) \<Rightarrow> bool" where
  "keeps_id f \<longleftrightarrow> (\<forall>r. sp_ID (f r) = sp_ID r)"

lemma map_ID_update_pending: "keeps_id f \<Longrightarrow> map sp_ID (st_rows (update_pending P f s)) = map sp_ID (st_rows s)"
  by (simp add: update_pending_def keeps_id_def comp_def cong: map_cong)

lemma store_inv_update_pending [inv_intros]:
  "store_inv s \<Longrightarrow> keeps_id f \<Longrightarrow> store_inv (update_pending P f s)"
  by (simp add: store_inv_def map_ID_update_pending del: map_map)

lemma lookup_row_None_iff: "lookup_row s cid = None \<longleftrightarrow> cid \<notin> sp_ID ` set (st_rows s)"
  by (auto simp: lookup_row_def find_None_iff)

lemma lookup_row_update_pending:
  assumes "keeps_id f"
  shows "lookup_row (update_pending P f s) cid =
    map_option (\<lambda>r. if P r \<and> sp_Status r = ''pending'' then f r else r) (lookup_row s cid)"
proof -
  let ?g = "\<lambda>r. if P r \<and> sp_Status r = ''pending'' then f r else r"
  have "find (\<lambda>r. sp_ID r = cid) (map ?g rs) = map_option ?g (find (\<lambda>r. sp_ID r = cid) rs)" for rs
    using assms by (induction rs) (auto simp: keeps_id_def)
  then show ?thesis by (simp add: lookup_row_def update_pending_def)
qed

lemma keeps_id_status [simp]:
  "keeps_id (\<lambda>r. r\<lparr>sp_Status := st\<rparr>)" "keeps_id (\<lambda>r. r\<lparr>sp_Status := st, sp_DecidedAt := d\<rparr>)"
  by (simp_all add: keeps_id_def)

lemma store_inv_audit [simp]: "store_inv (s\<lparr>st_audit := a\<rparr>) = store_inv s"
  by (simp add: store_inv_def)

lemma store_step_inv: "store_inv s \<Longrightarrow> store_inv (store_step op s)"
proof (cases op)
  case (OpAdd io pc)
  assume "store_inv s"
  then show ?thesis using OpAdd
    by (auto simp: Store_Add_def store_inv_def lookup_row_None_iff split: option.splits)
qed (auto simp: UpdateStatus_def GetStatus_def GetStatus_mark_def cleanupLoop_tick_def LogEvent_def
    split: option.splits intro: inv_intros)

lemma lookup_row_audit [simp]: "lookup_row (s\<lparr>st_audit := a\<rparr>) cid = lookup_row s cid"
  by (simp add: lookup_row_def)

lemma lookup_row_Add:
  "lookup_row s cid = Some r \<Longrightarrow> lookup_row (snd (Store_Add io s pc)) cid = Some r"
  by (auto simp: Store_Add_def lookup_row_def find_append split: option.splits)

text \<open>A decided row is never written again.\<close>

lemma store_step_decided:
  "lookup_row s cid = Some r \<Longrightarrow> sp_Status r \<noteq> ''pending'' \<Longrightarrow> lookup_row (store_step op s) cid = Some r"
  by (cases op)
    (auto simp: lookup_row_Add UpdateStatus_def GetStatus_def GetStatus_mark_def cleanupLoop_tick_def
      LogEvent_def lookup_row_update_pending split: option.splits)

lemma run_store_decided:
  "lookup_row s cid = Some r \<Longrightarrow> sp_Status r \<noteq> ''pending'' \<Longrightarrow> lookup_row (run_store ops s) cid = Some r"
  by (induction ops arbitrary: s) (simp_all add: run_store_def store_step_decided)

lemma run_store_inv: "store_inv s \<Longrightarrow> store_inv (run_store ops s)"
  by (induction ops arbitrary: s) (simp_all add: run_store_def store_step_inv)

text \<open>What the rest of a row keeps.\<close>

lemma store_step_row:
  "lookup_row s cid = Some r \<Longrightarrow> \<exists>r'. lookup_row (store_step op s) cid = Some r' \<and> sp_Command r' = sp_Command r
     \<and> sp_Args r' = sp_Args r \<and> sp_ToolName r' = sp_ToolName r \<and> sp_ExpiresAt r' = sp_ExpiresAt r"
  by (cases op)
    (auto simp: lookup_row_Add UpdateStatus_def GetStatus_def GetStatus_mark_def cleanupLoop_tick_def
      LogEvent_def lookup_row_update_pending split: option.splits)

section \<open>Properties\<close>

text \<open>Whether a step is an update of the command that reports success.\<close>

definition update_succeeds :: "string \<Rightarrow> store_op \<Rightarrow> Store \<Rightarrow> bool" where
  "update_succeeds cid op s \<longleftrightarrow>
     (case op of OpUpdate io now cid' status \<Rightarrow> cid' = cid \<and> fst (UpdateStatus io now s cid' status) = Inr True
      | _ \<Rightarrow> False)"

fun update_successes :: "string \<Rightarrow> store_op list \<Rightarrow> Store \<Rightarrow> nat" where
  "update_successes cid [] s = 0"
| "update_successes cid (op # ops) s =
     (if update_succeeds cid op s then 1 else 0) + update_successes cid ops (store_step op s)"

definition decides :: "store_op \<Rightarrow> bool" where
  "decides op \<longleftrightarrow> (case op of OpUpdate io now cid status \<Rightarrow> status \<noteq> ''pending'' | _ \<Rightarrow> True)"

lemma list_ex_distinct_key:
  "distinct (map k rs) \<Longrightarrow> list_ex (\<lambda>r. k r = c \<and> Q r) rs \<longleftrightarrow> (\<exists>r. find (\<lambda>r. k r = c) rs = Some r \<and> Q r)"
proof (induction rs)
  case (Cons r rs)
  show ?case
  proof (cases "k r = c")
    case True
    with Cons.prems have "k r \<notin> k ` set rs" by simp
    with True have "\<forall>x \<in> set rs. k x \<noteq> c" by blast
    then have "\<not> list_ex (\<lambda>r. k r = c \<and> Q r) rs" by (simp add: list_ex_iff)
    with True show ?thesis by simp
  next
    case False
    with Cons show ?thesis by simp
  qed
qed simp

lemma list_ex_pending_iff:
  "store_inv s \<Longrightarrow> list_ex (\<lambda>r. sp_ID r = cid \<and> sp_Status r = st) (st_rows s) \<longleftrightarrow>
     (\<exists>r. lookup_row s cid = Some r \<and> sp_Status r = st)"
  by (simp add: store_inv_def lookup_row_def list_ex_distinct_key)

lemma lookup_row_ID: "lookup_row s cid = Some r \<Longrightarrow> sp_ID r = cid"
  by (auto simp: lookup_row_def find_Some_iff)

lemma update_successes_decided:
  "store_inv s \<Longrightarrow> lookup_row s cid = Some r \<Longrightarrow> sp_Status r \<noteq> ''pending'' \<Longrightarrow> update_successes cid ops s = 0"
proof (induction ops arbitrary: s)
  case (Cons op ops)
  have "\<not> update_succeeds cid op s"
    using Cons.prems
    by (auto simp: update_succeeds_def UpdateStatus_def list_ex_pending_iff split: store_op.splits option.splits)
  then show ?case using Cons store_step_inv store_step_decided by simp
qed simp

text \<open>
  At most one of the updates that decide a command reports success: over any sequence of calls to
  the store, with any driver failures, of all the approvals, denials and expiries of one identifier
  at most one answers \<open>true\<close>.
\<close>

theorem one_decision_per_command:
  assumes "store_inv s" "\<forall>op \<in> set ops. decides op"
  shows "update_successes cid ops s \<le> 1"
  using assms
proof (induction ops arbitrary: s)
  case (Cons op ops)
  show ?case
  proof (cases "update_succeeds cid op s")
    case False
    with Cons store_step_inv show ?thesis by simp
  next
    case True
    then obtain io now status where op: "op = OpUpdate io now cid status" and io: "io = None"
      and row: "list_ex (\<lambda>r. sp_ID r = cid \<and> sp_Status r = ''pending'') (st_rows s)"
      by (auto simp: update_succeeds_def UpdateStatus_def split: store_op.splits option.splits)
    from row obtain r where r: "lookup_row s cid = Some r" "sp_Status r = ''pending''"
      using Cons.prems(1) by (auto simp: list_ex_pending_iff)
    let ?r = "r\<lparr>sp_Status := status, sp_DecidedAt := Some now\<rparr>"
    have "lookup_row (store_step op s) cid = Some ?r"
      using r lookup_row_ID [OF r(1)] op io by (simp add: UpdateStatus_def lookup_row_update_pending)
    moreover have "sp_Status ?r \<noteq> ''pending''" using Cons.prems(2) op by (simp add: decides_def)
    ultimately have "update_successes cid ops (store_step op s) = 0"
      by (rule update_successes_decided [OF store_step_inv [OF Cons.prems(1)]])
    then show ?thesis by simp
  qed
qed simp

text \<open>
  Several runs of the program on one database file, each with what the driver answers at its start; one
  that does not get it open does nothing.
\<close>

fun store_runs :: "(open_answers \<times> store_op list) list \<Rightarrow> Store option \<Rightarrow> Store option" where
  "store_runs [] file = file"
| "store_runs ((io, ops) # runs) file =
     (case NewStore io file of Inl e \<Rightarrow> store_runs runs file | Inr s \<Rightarrow> store_runs runs (Some (run_store ops s)))"

fun runs_successes :: "string \<Rightarrow> (open_answers \<times> store_op list) list \<Rightarrow> Store option \<Rightarrow> nat" where
  "runs_successes cid [] file = 0"
| "runs_successes cid ((io, ops) # runs) file =
     (case NewStore io file of
        Inl e \<Rightarrow> runs_successes cid runs file
      | Inr s \<Rightarrow> update_successes cid ops s + runs_successes cid runs (Some (run_store ops s)))"

lemma update_successes_append:
  "update_successes cid (ops @ ops') s = update_successes cid ops s + update_successes cid ops' (run_store ops s)"
  by (induction ops arbitrary: s) (simp_all add: run_store_def)

lemma NewStore_Some: "NewStore io (Some s) = Inr s' \<Longrightarrow> s' = s"
  by (auto simp: NewStore_def split: option.splits)

text \<open>The runs are one long run.\<close>

lemma runs_successes_flat:
  "\<exists>ops. set ops \<subseteq> (\<Union>(io, ops) \<in> set runs. set ops) \<and> runs_successes cid runs (Some s) = update_successes cid ops s"
proof (induction runs arbitrary: s)
  case Nil
  show ?case by (rule exI [of _ "[]"]) simp
next
  case (Cons r runs)
  obtain io ops where r: "r = (io, ops)" by (cases r)
  show ?case
  proof (cases "NewStore io (Some s)")
    case (Inl e)
    with Cons.IH [of s] show ?thesis by (auto simp: r)
  next
    case (Inr s')
    obtain ops' where "set ops' \<subseteq> (\<Union>(io, ops) \<in> set runs. set ops)"
      "runs_successes cid runs (Some (run_store ops s)) = update_successes cid ops' (run_store ops s)"
      using Cons.IH by blast
    with Inr NewStore_Some [OF Inr] show ?thesis
      by (intro exI [of _ "ops @ ops'"]) (auto simp: r update_successes_append)
  qed
qed

lemma runs_successes_fresh: "runs_successes cid runs None = runs_successes cid runs (Some empty_store)"
proof (induction runs)
  case (Cons r runs)
  have "NewStore io None = NewStore io (Some empty_store)" for io by (simp add: NewStore_def cong: option.case_cong)
  with Cons show ?case by (cases r) (simp split: sum.split)
qed simp

definition sample_command :: "string \<Rightarrow> int \<Rightarrow> StoredCommand" where
  "sample_command cid expires = \<lparr>sp_ID = cid, sp_Command = ''rm'', sp_ToolName = ''bash'', sp_Args = [],
     sp_Reason = [], sp_CreatedAt = 0, sp_ExpiresAt = expires, sp_Status = ''pending'', sp_DecidedAt = None\<rparr>"

theorem one_decision_per_command_witness:
  "update_successes ''a'' [OpAdd None (sample_command ''a'' 9), OpUpdate None 1 ''a'' ''approved'',
     OpUpdate None 2 ''a'' ''denied''] empty_store \<le> 1"
  by (rule one_decision_per_command) (code_simp)+

text \<open>
  C32. One decision per command over all runs: the program may be stopped and started again on its database
  file as often as one likes, with any driver failures; of all the decisions in all the runs that name
  one identifier at most one answers \<open>true\<close>.
\<close>

theorem one_decision_across_runs:
  assumes "\<forall>s. file = Some s \<longrightarrow> store_inv s" "\<forall>(io, ops) \<in> set runs. \<forall>op \<in> set ops. decides op"
  shows "runs_successes cid runs file \<le> 1"
proof -
  obtain s where s: "store_inv s" "runs_successes cid runs file = runs_successes cid runs (Some s)"
  proof (cases "file")
    case None
    moreover have "store_inv empty_store" by (simp add: store_inv_def empty_store_def)
    ultimately show thesis using that runs_successes_fresh by metis
  next
    case (Some s)
    with assms(1) show thesis using that by blast
  qed
  obtain ops where ops: "set ops \<subseteq> (\<Union>(io, ops) \<in> set runs. set ops)"
    "runs_successes cid runs (Some s) = update_successes cid ops s"
    using runs_successes_flat by blast
  have "\<forall>op \<in> set ops. decides op" using ops(1) assms(2) by blast
  then show ?thesis using one_decision_per_command [OF s(1)] ops(2) s(2) by simp
qed

theorem one_decision_across_runs_witness:
  "runs_successes ''a''
     [(\<lparr>oa_open = None, oa_pragma = None, oa_schema = None\<rparr>,
        [OpAdd None (sample_command ''a'' 9), OpUpdate None 1 ''a'' ''approved'']),
      (\<lparr>oa_open = None, oa_pragma = Some ''locked'', oa_schema = None\<rparr>, []),
      (\<lparr>oa_open = None, oa_pragma = None, oa_schema = None\<rparr>, [OpUpdate None 2 ''a'' ''denied''])] None \<le> 1"
  by (rule one_decision_across_runs) (simp_all add: decides_def)

text \<open>
  A decided command stays as it was decided: no sequence of calls, by whom and when ever, changes
  a row whose status is no longer pending, neither its status nor the time of the decision nor the
  command.
\<close>

theorem decision_is_final:
  assumes "lookup_row s cid = Some r" "sp_Status r \<noteq> ''pending''"
  shows "lookup_row (run_store ops s) cid = Some r"
  by (rule run_store_decided) (fact assms)+

theorem decision_is_final_witness:
  "let s = run_store [OpAdd None (sample_command ''a'' 9), OpUpdate None 1 ''a'' ''denied''] empty_store in
   lookup_row (run_store [OpUpdate None 5 ''a'' ''approved'', OpCleanup 99, OpGetStatus None 99 ''a''] s) ''a''
     = Some ((sample_command ''a'' 9)\<lparr>sp_Status := ''denied'', sp_DecidedAt := Some 1\<rparr>)"
  unfolding Let_def by (rule decision_is_final) code_simp+

text \<open>
  \<open>ListPending\<close> answers exactly the rows that are pending and have not run out, each as often as
  it is stored, the newest first.
\<close>

theorem ListPending_exact:
  "\<exists>rows. ListPending None now s = Inr rows
     \<and> mset rows = {#r \<in># mset (st_rows s). sp_Status r = ''pending'' \<and> now < sp_ExpiresAt r#}
     \<and> sorted_wrt (\<lambda>a b. sp_CreatedAt b \<le> sp_CreatedAt a) rows"
proof -
  have "sorted_wrt (\<lambda>a b. sp_CreatedAt b \<le> sp_CreatedAt a) (sort_key (\<lambda>r. - sp_CreatedAt r) xs)" for xs
    using sorted_sort_key [of "\<lambda>r. - sp_CreatedAt r" xs] by (simp add: sorted_map)
  then show ?thesis by (simp add: ListPending_def)
qed

end
