(* ===== verification/Approval.thy ===== *)
theory Approval
  imports Storage "HOL-Library.AList"
begin

text \<open>
  The approval queue (internal/approval/approval.go): pending commands in memory with one channel
  each, an optional persistent store behind them, and the calls \<open>Add\<close>, \<open>Wait\<close>, \<open>Approve\<close>, \<open>Deny\<close>,
  \<open>Remove\<close>, \<open>List\<close>, \<open>Get\<close> and the clean-up.

  A pending command is an object on a heap, and a handle is its address: a waiter keeps its handle
  when the command leaves the map. Each call is first given as the sequence of its atomic sections
  (what it does under one lock, or one channel operation), then run by itself, and last as a process
  that other calls interleave with between the sections (\<open>queue_step\<close>).

  The identifier \<^verbatim>\<open>uuid.New().String()[:8]\<close>, the clock and the answers of the database
  driver are arguments.
\<close>

section \<open>Channels, once and outcomes\<close>

text \<open>A channel of capacity one.\<close>

record Chan =
  ch_value :: "bool option"
  ch_closed :: bool

datatype crash = SendOnClosed | NilDeref

text \<open>What a Go statement comes to: it goes on, it blocks, or the goroutine panics.\<close>

datatype 'a go = Ret 'a | Blocks | Panics crash

definition make_chan :: Chan where
  "make_chan = \<lparr>ch_value = None, ch_closed = False\<rparr>"

definition chan_send :: "bool \<Rightarrow> Chan \<Rightarrow> Chan go" where
  "chan_send v c =
     (if ch_closed c then Panics SendOnClosed
      else if ch_value c \<noteq> None then Blocks
      else Ret (c\<lparr>ch_value := Some v\<rparr>))"

definition chan_close :: "Chan \<Rightarrow> Chan go" where
  "chan_close c = (if ch_closed c then Panics SendOnClosed else Ret (c\<lparr>ch_closed := True\<rparr>))"

text \<open>Receiving from a closed, empty channel gives the zero value.\<close>

definition chan_recv :: "Chan \<Rightarrow> (bool \<times> Chan) go" where
  "chan_recv c =
     (case ch_value c of
        Some v \<Rightarrow> Ret (v, c\<lparr>ch_value := None\<rparr>)
      | None \<Rightarrow> if ch_closed c then Ret (False, c) else Blocks)"

section \<open>Data\<close>

record PendingCommand =
  pc_ID :: string
  pc_Command :: string
  pc_ToolName :: string
  pc_Args :: gomap
  pc_Reason :: string
  pc_CreatedAt :: int
  pc_ExpiresAt :: int
  pc_approved :: Chan
  pc_once :: bool

datatype Decision = DecisionPending | DecisionApproved | DecisionDenied | DecisionExpired

record Queue =
  q_pending :: "(string \<times> nat) list"
  q_heap :: "PendingCommand list"
  q_timeout :: int
  q_store :: "Store option"

definition NewQueue :: "int \<Rightarrow> Queue" where
  "NewQueue timeout = \<lparr>q_pending = [], q_heap = [], q_timeout = timeout, q_store = None\<rparr>"

definition NewPersistentQueue :: "int \<Rightarrow> Store \<Rightarrow> Queue" where
  "NewPersistentQueue timeout s = \<lparr>q_pending = [], q_heap = [], q_timeout = timeout, q_store = Some s\<rparr>"

section \<open>Atomic sections\<close>

text \<open>\<open>args.(map[string]any)\<close>, or the value under the key \<open>raw\<close> when there is one.\<close>

definition args_map :: "json option \<Rightarrow> gomap" where
  "args_map args =
     (case args of
        None \<Rightarrow> []
      | Some (JObj m) \<Rightarrow> m
      | Some v \<Rightarrow> [(''raw'', v)])"

definition new_command ::
  "string \<Rightarrow> int \<Rightarrow> Queue \<Rightarrow> string \<Rightarrow> string \<Rightarrow> string \<Rightarrow> json option \<Rightarrow> PendingCommand" where
  "new_command cid now q command toolName reason args =
     \<lparr>pc_ID = cid, pc_Command = command, pc_ToolName = toolName, pc_Args = args_map args,
      pc_Reason = reason, pc_CreatedAt = now, pc_ExpiresAt = now + q_timeout q,
      pc_approved = make_chan, pc_once = False\<rparr>"

definition add_memory :: "PendingCommand \<Rightarrow> Queue \<Rightarrow> nat \<times> Queue" where
  "add_memory pc q =
     (length (q_heap q),
      q\<lparr>q_heap := q_heap q @ [pc], q_pending := AList.update (pc_ID pc) (length (q_heap q)) (q_pending q)\<rparr>)"

definition store_command :: "PendingCommand \<Rightarrow> StoredCommand" where
  "store_command pc =
     \<lparr>sp_ID = pc_ID pc, sp_Command = pc_Command pc, sp_ToolName = pc_ToolName pc, sp_Args = pc_Args pc,
      sp_Reason = pc_Reason pc, sp_CreatedAt = pc_CreatedAt pc, sp_ExpiresAt = pc_ExpiresAt pc,
      sp_Status = ''pending'', sp_DecidedAt = None\<rparr>"

text \<open>The error of \<open>q.store.Add\<close> is dropped.\<close>

definition add_store :: "string option \<Rightarrow> PendingCommand \<Rightarrow> Queue \<Rightarrow> Queue" where
  "add_store io pc q =
     (case q_store q of None \<Rightarrow> q
      | Some s \<Rightarrow> q\<lparr>q_store := Some (snd (Store_Add io s (store_command pc)))\<rparr>)"

definition Remove :: "string \<Rightarrow> Queue \<Rightarrow> Queue" where
  "Remove cid q = q\<lparr>q_pending := AList.delete cid (q_pending q)\<rparr>"

definition status_of :: "bool \<Rightarrow> string" where
  "status_of verdict = (if verdict then ''approved'' else ''denied'')"

definition decision_event :: "int \<Rightarrow> string \<Rightarrow> bool \<Rightarrow> string \<Rightarrow> AuditEvent" where
  "decision_event now cid verdict command =
     \<lparr>se_Timestamp = now, se_EventType = ''command_'' @ status_of verdict, se_CommandID = cid,
      se_Command = command, se_Action = status_of verdict, se_Reason = [], se_ClientIP = [],
      se_CorrelationID = [], se_Details = []\<rparr>"

text \<open>
  The update of the store in \<open>Approve\<close> (\<open>verdict\<close> true) and \<open>Deny\<close> (false). \<open>pc.Command\<close> is read when
  the update changed a row; \<open>pc\<close> is nil when the command was not in memory.
\<close>

definition decide_store ::
  "(nat \<Rightarrow> string option) \<Rightarrow> int \<Rightarrow> bool \<Rightarrow> string \<Rightarrow> nat option \<Rightarrow> Queue \<Rightarrow> unit go \<times> Queue" where
  "decide_store io now verdict cid h q =
     (case q_store q of
        None \<Rightarrow> (Ret (), q)
      | Some s \<Rightarrow>
          (case UpdateStatus (io 0) now s cid (status_of verdict) of
             (Inr True, s') \<Rightarrow>
               (case h of
                  None \<Rightarrow> (Panics NilDeref, q\<lparr>q_store := Some s'\<rparr>)
                | Some i \<Rightarrow>
                    (Ret (), q\<lparr>q_store := Some (snd (LogEvent (io 1) s'
                       (decision_event now cid verdict (pc_Command (q_heap q ! i)))))\<rparr>))
           | (_, s') \<Rightarrow> (Ret (), q\<lparr>q_store := Some s'\<rparr>)))"

text \<open>\<^verbatim>\<open>pc.once.Do(func() { pc.approved <- verdict; close(pc.approved) })\<close>\<close>

definition once_signal :: "bool \<Rightarrow> PendingCommand \<Rightarrow> PendingCommand go" where
  "once_signal verdict pc =
     (if pc_once pc then Ret pc
      else (case chan_send verdict (pc_approved pc) of
              Ret c \<Rightarrow> (case chan_close c of
                          Ret c' \<Rightarrow> Ret (pc\<lparr>pc_approved := c', pc_once := True\<rparr>)
                        | Blocks \<Rightarrow> Blocks | Panics k \<Rightarrow> Panics k)
            | Blocks \<Rightarrow> Blocks | Panics k \<Rightarrow> Panics k))"

text \<open>\<^verbatim>\<open>pc.once.Do(func() { close(pc.approved) })\<close>, in the clean-up.\<close>

definition once_close :: "PendingCommand \<Rightarrow> PendingCommand go" where
  "once_close pc =
     (if pc_once pc then Ret pc
      else (case chan_close (pc_approved pc) of
              Ret c \<Rightarrow> Ret (pc\<lparr>pc_approved := c, pc_once := True\<rparr>)
            | Blocks \<Rightarrow> Blocks | Panics k \<Rightarrow> Panics k))"

definition set_entry :: "nat \<Rightarrow> PendingCommand \<Rightarrow> Queue \<Rightarrow> Queue" where
  "set_entry h pc q = q\<lparr>q_heap := (q_heap q)[h := pc]\<rparr>"

definition decide_signal :: "bool \<Rightarrow> nat \<Rightarrow> Queue \<Rightarrow> unit go \<times> Queue" where
  "decide_signal verdict h q =
     (case once_signal verdict (q_heap q ! h) of
        Ret pc \<Rightarrow> (Ret (), set_entry h pc q)
      | Blocks \<Rightarrow> (Blocks, q)
      | Panics k \<Rightarrow> (Panics k, q))"

text \<open>The answer from the store when the command is not in memory.\<close>

definition stored_decision :: "store_error + string \<Rightarrow> Decision" where
  "stored_decision r =
     (case r of
        Inr st \<Rightarrow> if st = ''approved'' then DecisionApproved
                   else if st = ''denied'' then DecisionDenied else DecisionExpired
      | Inl _ \<Rightarrow> DecisionExpired)"

definition wait_store :: "string option \<Rightarrow> int \<Rightarrow> string \<Rightarrow> Queue \<Rightarrow> Decision \<times> Queue" where
  "wait_store io now cid q =
     (case q_store q of
        None \<Rightarrow> (DecisionExpired, q)
      | Some s \<Rightarrow> (stored_decision (fst (GetStatus io now s cid)),
                   q\<lparr>q_store := Some (snd (GetStatus io now s cid))\<rparr>))"

text \<open>The first case of the select in \<open>Wait\<close>.\<close>

definition wait_receive :: "nat \<Rightarrow> Queue \<Rightarrow> Decision go \<times> Queue" where
  "wait_receive h q =
     (let pc = q_heap q ! h in
      case chan_recv (pc_approved pc) of
        Ret (v, c) \<Rightarrow> (Ret (if v then DecisionApproved else DecisionDenied),
                        set_entry h (pc\<lparr>pc_approved := c\<rparr>) q)
      | Blocks \<Rightarrow> (Blocks, q)
      | Panics k \<Rightarrow> (Panics k, q))"

section \<open>Calls run by themselves\<close>

definition Queue_Add ::
  "string option \<Rightarrow> string \<Rightarrow> int \<Rightarrow> string \<Rightarrow> string \<Rightarrow> string \<Rightarrow> json option \<Rightarrow> Queue \<Rightarrow> nat \<times> Queue" where
  "Queue_Add io cid now command toolName reason args q =
     (let pc = new_command cid now q command toolName reason args;
          (h, q') = add_memory pc q
      in (h, add_store io pc q'))"

definition decide_call ::
  "bool \<Rightarrow> (nat \<Rightarrow> string option) \<Rightarrow> int \<Rightarrow> string \<Rightarrow> Queue \<Rightarrow> bool go \<times> Queue" where
  "decide_call verdict io now cid q =
     (let h = map_of (q_pending q) cid in
      case decide_store io now verdict cid h q of
        (Ret _, q1) \<Rightarrow>
          (case h of
             None \<Rightarrow> (Ret (q_store q1 \<noteq> None), q1)
           | Some i \<Rightarrow>
               (case decide_signal verdict i q1 of
                  (Ret _, q2) \<Rightarrow> (Ret True, Remove cid q2)
                | (Blocks, q2) \<Rightarrow> (Blocks, q2)
                | (Panics k, q2) \<Rightarrow> (Panics k, q2)))
      | (Blocks, q1) \<Rightarrow> (Blocks, q1)
      | (Panics k, q1) \<Rightarrow> (Panics k, q1))"

definition Approve :: "(nat \<Rightarrow> string option) \<Rightarrow> int \<Rightarrow> string \<Rightarrow> Queue \<Rightarrow> bool go \<times> Queue" where
  "Approve = decide_call True"

definition Deny :: "(nat \<Rightarrow> string option) \<Rightarrow> int \<Rightarrow> string \<Rightarrow> Queue \<Rightarrow> bool go \<times> Queue" where
  "Deny = decide_call False"

text \<open>
  \<open>Wait\<close> with nothing happening while it waits: \<open>now\<close> is the time of the call, and a command that is
  not decided runs out (or the context is cancelled first).
\<close>

definition Wait :: "string option \<Rightarrow> int \<Rightarrow> bool \<Rightarrow> string \<Rightarrow> Queue \<Rightarrow> Decision \<times> Queue" where
  "Wait io now ctx_done cid q =
     (case map_of (q_pending q) cid of
        None \<Rightarrow> wait_store io now cid q
      | Some h \<Rightarrow>
          (case wait_receive h q of
             (Ret d, q') \<Rightarrow> (d, q')
           | _ \<Rightarrow> (DecisionExpired, if ctx_done then q else Remove cid q)))"

definition Queue_List :: "Queue \<Rightarrow> PendingCommand list" where
  "Queue_List q = map (\<lambda>(cid, h). q_heap q ! h) (q_pending q)"

definition restore_command :: "StoredCommand \<Rightarrow> PendingCommand" where
  "restore_command sp =
     \<lparr>pc_ID = sp_ID sp, pc_Command = sp_Command sp, pc_ToolName = sp_ToolName sp, pc_Args = sp_Args sp,
      pc_Reason = sp_Reason sp, pc_CreatedAt = sp_CreatedAt sp, pc_ExpiresAt = sp_ExpiresAt sp,
      pc_approved = make_chan, pc_once = False\<rparr>"

text \<open>
  \<open>Get\<close>. A command read back from the store has a nil channel; nothing sends on it or receives from
  it, because it is not in the map.
\<close>

definition Queue_Get :: "string option \<Rightarrow> string \<Rightarrow> Queue \<Rightarrow> PendingCommand option" where
  "Queue_Get io cid q =
     (case map_of (q_pending q) cid of
        Some h \<Rightarrow> Some (q_heap q ! h)
      | None \<Rightarrow>
          (case q_store q of
             None \<Rightarrow> None
           | Some s \<Rightarrow>
               (case Store_Get io s cid of
                  Inr (Some sp) \<Rightarrow> if sp_Status sp = ''pending'' then Some (restore_command sp) else None
                | _ \<Rightarrow> None)))"

definition expiry_event :: "int \<Rightarrow> string \<Rightarrow> string \<Rightarrow> AuditEvent" where
  "expiry_event now cid command =
     \<lparr>se_Timestamp = now, se_EventType = ''command_expired'', se_CommandID = cid, se_Command = command,
      se_Action = ''expired'', se_Reason = ''timeout'', se_ClientIP = [], se_CorrelationID = [],
      se_Details = []\<rparr>"

text \<open>
  One tick of \<open>cleanupExpired\<close>, under the queue's lock throughout: the body of its loop for one entry
  of the map, then the loop. Go visits the map in any order.
\<close>

definition cleanup_entry ::
  "string option \<Rightarrow> int \<Rightarrow> string \<times> nat \<Rightarrow> Queue \<Rightarrow> unit go \<times> Queue" where
  "cleanup_entry io now e q =
     (let (cid, h) = e; pc = q_heap q ! h in
      if now > pc_ExpiresAt pc then
        (case once_close pc of
           Ret pc' \<Rightarrow>
             (let q1 = Remove cid (set_entry h pc' q) in
              (Ret (), case q_store q1 of None \<Rightarrow> q1
                 | Some s \<Rightarrow> q1\<lparr>q_store := Some (snd (LogEvent io s (expiry_event now cid (pc_Command pc))))\<rparr>))
         | Blocks \<Rightarrow> (Blocks, q)
         | Panics k \<Rightarrow> (Panics k, q))
      else (Ret (), q))"

fun cleanup_loop :: "string option \<Rightarrow> int \<Rightarrow> (string \<times> nat) list \<Rightarrow> Queue \<Rightarrow> unit go \<times> Queue" where
  "cleanup_loop io now [] q = (Ret (), q)"
| "cleanup_loop io now (e # es) q =
     (case cleanup_entry io now e q of
        (Ret _, q') \<Rightarrow> cleanup_loop io now es q'
      | (Blocks, q') \<Rightarrow> (Blocks, q')
      | (Panics k, q') \<Rightarrow> (Panics k, q'))"

definition cleanupExpired_tick :: "string option \<Rightarrow> int \<Rightarrow> Queue \<Rightarrow> unit go \<times> Queue" where
  "cleanupExpired_tick io now q = cleanup_loop io now (q_pending q) q"

section \<open>Calls as interleaved processes\<close>

datatype call =
    CAdd string string string string "json option"
  | CDecide bool string
  | CWait string

text \<open>Where a call stands between two of its atomic sections.\<close>

datatype pstate =
    Start
  | Added nat
  | Looked "nat option"
  | Stored "nat option"
  | Signalled
  | Missed
  | Marking
  | Waiting nat
  | AddReturned nat
  | DecideReturned bool
  | WaitReturned Decision
  | Crashed crash

text \<open>
  One atomic section of a call. The clock, the driver's answers and which ready case of the select is
  taken are free.
\<close>

inductive proc_step :: "call \<Rightarrow> Queue \<times> pstate \<Rightarrow> Queue \<times> pstate \<Rightarrow> bool" where
  Add_memory: "add_memory (new_command cid now q cmd tool reason args) q = (h, q') \<Longrightarrow>
     proc_step (CAdd cid cmd tool reason args) (q, Start) (q', Added h)"
| Add_store: "proc_step (CAdd cid cmd tool reason args) (q, Added h)
     (add_store io (q_heap q ! h) q, AddReturned h)"
| Decide_lookup: "proc_step (CDecide v cid) (q, Start) (q, Looked (map_of (q_pending q) cid))"
| Decide_store: "decide_store io now v cid h q = (Ret (), q') \<Longrightarrow>
     proc_step (CDecide v cid) (q, Looked h) (q', Stored h)"
| Decide_crash: "decide_store io now v cid h q = (Panics k, q') \<Longrightarrow>
     proc_step (CDecide v cid) (q, Looked h) (q', Crashed k)"
| Decide_absent: "b = (q_store q \<noteq> None) \<Longrightarrow>
     proc_step (CDecide v cid) (q, Stored None) (q, DecideReturned b)"
| Decide_signal: "decide_signal v h q = (Ret (), q') \<Longrightarrow>
     proc_step (CDecide v cid) (q, Stored (Some h)) (q', Signalled)"
| Decide_signal_crash: "decide_signal v h q = (Panics k, q') \<Longrightarrow>
     proc_step (CDecide v cid) (q, Stored (Some h)) (q', Crashed k)"
| Decide_remove: "proc_step (CDecide v cid) (q, Signalled) (Remove cid q, DecideReturned True)"
| Wait_miss: "map_of (q_pending q) cid = None \<Longrightarrow> proc_step (CWait cid) (q, Start) (q, Missed)"
| Wait_hit: "map_of (q_pending q) cid = Some h \<Longrightarrow> proc_step (CWait cid) (q, Start) (q, Waiting h)"
| Wait_nostore: "q_store q = None \<Longrightarrow>
     proc_step (CWait cid) (q, Missed) (q, WaitReturned DecisionExpired)"
| Wait_read: "q_store q = Some s \<Longrightarrow> snd (GetStatus io now s cid) = s \<Longrightarrow>
     proc_step (CWait cid) (q, Missed) (q, WaitReturned (stored_decision (GetStatus_read io now s cid)))"
| Wait_read_late: "q_store q = Some s \<Longrightarrow> snd (GetStatus io now s cid) \<noteq> s \<Longrightarrow>
     proc_step (CWait cid) (q, Missed) (q, Marking)"
| Wait_mark: "q_store q = Some s \<Longrightarrow>
     proc_step (CWait cid) (q, Marking)
       (q\<lparr>q_store := Some (GetStatus_mark s cid)\<rparr>, WaitReturned DecisionExpired)"
| Wait_receive: "wait_receive h q = (Ret d, q') \<Longrightarrow>
     proc_step (CWait cid) (q, Waiting h) (q', WaitReturned d)"
| Wait_cancelled: "proc_step (CWait cid) (q, Waiting h) (q, WaitReturned DecisionExpired)"
| Wait_timeout: "pc_ExpiresAt (q_heap q ! h) \<le> now \<Longrightarrow>
     proc_step (CWait cid) (q, Waiting h) (Remove cid q, WaitReturned DecisionExpired)"

type_synonym system = "Queue \<times> (call \<times> pstate) list"

inductive queue_step :: "system \<Rightarrow> system \<Rightarrow> bool" where
  Spawn: "queue_step (q, ps) (q, ps @ [(c, Start)])"
| Run: "i < length ps \<Longrightarrow> ps ! i = (c, st) \<Longrightarrow> proc_step c (q, st) (q', st') \<Longrightarrow>
     queue_step (q, ps) (q', ps[i := (c, st')])"
| Cleanup: "cleanupExpired_tick io now q = (Ret (), q') \<Longrightarrow> queue_step (q, ps) (q', ps)"
| Store_cleanup: "q_store q = Some s \<Longrightarrow>
     queue_step (q, ps) (q\<lparr>q_store := Some (cleanupLoop_tick now s)\<rparr>, ps)"

inductive reachable :: "system \<Rightarrow> bool" where
  Memory: "reachable (NewQueue t, [])"
| Persistent: "reachable (NewPersistentQueue t empty_store, [])"
| Step: "reachable s \<Longrightarrow> queue_step s s' \<Longrightarrow> reachable s'"

inductive_cases proc_stepE: "proc_step c (q, st) (q', st')"
inductive_cases queue_stepE: "queue_step (q, ps) (q', ps')"

section \<open>The invariant\<close>

definition entry_inv :: "PendingCommand \<Rightarrow> bool" where
  "entry_inv pc \<longleftrightarrow> (pc_once pc \<longleftrightarrow> ch_closed (pc_approved pc)) \<and>
     (ch_value (pc_approved pc) \<noteq> None \<longrightarrow> pc_once pc)"

definition handle_ok :: "Queue \<Rightarrow> string \<Rightarrow> nat \<Rightarrow> bool" where
  "handle_ok q cid h \<longleftrightarrow> h < length (q_heap q) \<and> pc_ID (q_heap q ! h) = cid"

definition queue_inv :: "Queue \<Rightarrow> bool" where
  "queue_inv q \<longleftrightarrow> distinct (map fst (q_pending q)) \<and>
     (\<forall>(cid, h) \<in> set (q_pending q). handle_ok q cid h) \<and> (\<forall>pc \<in> set (q_heap q). entry_inv pc)"

text \<open>The heap only grows, and an entry keeps its identifier.\<close>

definition heap_extends :: "Queue \<Rightarrow> Queue \<Rightarrow> bool" where
  "heap_extends q q' \<longleftrightarrow> length (q_heap q) \<le> length (q_heap q') \<and>
     (\<forall>h < length (q_heap q). pc_ID (q_heap q' ! h) = pc_ID (q_heap q ! h))"

lemma heap_extends_refl [simp]: "heap_extends q q"
  by (simp add: heap_extends_def)

lemma heap_extends_trans: "heap_extends q q' \<Longrightarrow> heap_extends q' q'' \<Longrightarrow> heap_extends q q''"
  by (force simp: heap_extends_def)

lemma handle_ok_extends: "handle_ok q cid h \<Longrightarrow> heap_extends q q' \<Longrightarrow> handle_ok q' cid h"
  by (auto simp: handle_ok_def heap_extends_def)

lemma handle_ok_store [simp]: "handle_ok (q\<lparr>q_store := st\<rparr>) cid h = handle_ok q cid h"
  by (simp add: handle_ok_def)

lemma heap_extends_store [simp]:
  "heap_extends q (q\<lparr>q_store := st\<rparr>)" "heap_extends q (Remove cid q)"
  by (simp_all add: heap_extends_def Remove_def)

lemma Remove_store [simp]: "q_store (Remove cid q) = q_store q" "q_heap (Remove cid q) = q_heap q"
  by (simp_all add: Remove_def)

lemma queue_inv_store [simp]: "queue_inv (q\<lparr>q_store := st\<rparr>) = queue_inv q"
  by (simp add: queue_inv_def)

lemma queue_inv_Remove [inv_intros]: "queue_inv q \<Longrightarrow> queue_inv (Remove cid q)"
proof -
  assume inv: "queue_inv q"
  have "set (AList.delete cid (q_pending q)) \<subseteq> set (q_pending q)"
    by (auto simp: AList.delete_eq)
  with inv show ?thesis
    by (auto simp: queue_inv_def Remove_def handle_ok_def distinct_delete)
qed

lemma queue_inv_lookup: "queue_inv q \<Longrightarrow> map_of (q_pending q) cid = Some h \<Longrightarrow> handle_ok q cid h"
  by (auto simp: queue_inv_def dest!: map_of_SomeD)

lemma queue_inv_entry: "queue_inv q \<Longrightarrow> h < length (q_heap q) \<Longrightarrow> entry_inv (q_heap q ! h)"
  by (simp add: queue_inv_def)

lemma set_entry_facts:
  assumes "queue_inv q" "h < length (q_heap q)" "entry_inv pc" "pc_ID pc = pc_ID (q_heap q ! h)"
  shows "queue_inv (set_entry h pc q)" "heap_extends q (set_entry h pc q)"
proof -
  have pid: "pc_ID ((q_heap q)[h := pc] ! k) = pc_ID (q_heap q ! k)" for k
    using assms(2,4) by (cases "k = h") auto
  have "\<forall>x \<in> set ((q_heap q)[h := pc]). entry_inv x"
    using assms(1,3) set_update_subset_insert [of "q_heap q" h pc] by (auto simp: queue_inv_def)
  with assms(1) show "queue_inv (set_entry h pc q)"
    by (auto simp: queue_inv_def set_entry_def handle_ok_def pid)
  show "heap_extends q (set_entry h pc q)" by (simp add: heap_extends_def set_entry_def pid)
qed

lemma once_signal_ok:
  "entry_inv pc \<Longrightarrow> \<exists>pc'. once_signal v pc = Ret pc' \<and> entry_inv pc' \<and> pc_ID pc' = pc_ID pc \<and> pc_once pc'"
  by (auto simp: once_signal_def entry_inv_def chan_send_def chan_close_def)

lemma once_close_ok:
  "entry_inv pc \<Longrightarrow> \<exists>pc'. once_close pc = Ret pc' \<and> entry_inv pc' \<and> pc_ID pc' = pc_ID pc
     \<and> (ch_value (pc_approved pc') = ch_value (pc_approved pc))"
  by (auto simp: once_close_def entry_inv_def chan_close_def)

text \<open>A decision never panics on the channel and never blocks.\<close>

lemma decide_signal_ok:
  assumes "queue_inv q" "h < length (q_heap q)"
  shows "\<exists>q'. decide_signal v h q = (Ret (), q') \<and> queue_inv q' \<and> heap_extends q q' \<and> q_store q' = q_store q"
proof -
  obtain pc' where "once_signal v (q_heap q ! h) = Ret pc'" "entry_inv pc'" "pc_ID pc' = pc_ID (q_heap q ! h)"
    using once_signal_ok [OF queue_inv_entry [OF assms]] by blast
  with set_entry_facts [OF assms] show ?thesis by (simp add: decide_signal_def) (simp add: set_entry_def)
qed

lemma decide_store_frame:
  assumes "decide_store io now v cid h q = (r, q')"
  shows "q_heap q' = q_heap q \<and> q_pending q' = q_pending q \<and> (q_store q' = None \<longleftrightarrow> q_store q = None)"
    "r = Ret () \<or> (r = Panics NilDeref \<and> q_store q \<noteq> None \<and> h = None)"
  using assms by (auto simp: decide_store_def split: option.splits prod.splits sum.splits bool.splits)

lemma inv_same_memory:
  "q_heap q' = q_heap q \<Longrightarrow> q_pending q' = q_pending q \<Longrightarrow> queue_inv q \<Longrightarrow> queue_inv q' \<and> heap_extends q q'"
  by (auto simp: queue_inv_def handle_ok_def heap_extends_def)

lemma set_AList_update: "set (AList.update k v al) \<subseteq> insert (k, v) (set al)"
  by (induction al) auto

lemma add_memory_ok:
  assumes "queue_inv q" "add_memory (new_command cid now q cmd tool reason args) q = (h, q')"
  shows "queue_inv q' \<and> heap_extends q q' \<and> handle_ok q' cid h \<and> q_store q' = q_store q"
proof -
  let ?pc = "new_command cid now q cmd tool reason args"
  have q': "q' = q\<lparr>q_heap := q_heap q @ [?pc], q_pending := AList.update cid (length (q_heap q)) (q_pending q)\<rparr>"
    and h: "h = length (q_heap q)" using assms(2) by (auto simp: add_memory_def new_command_def)
  have pc: "pc_ID ?pc = cid" "entry_inv ?pc"
    by (simp_all add: new_command_def entry_inv_def make_chan_def)
  have "distinct (map fst (AList.update cid (length (q_heap q)) (q_pending q)))"
    using assms(1) by (simp add: queue_inv_def distinct_update)
  moreover have "handle_ok q' c i" if "(c, i) \<in> set (AList.update cid (length (q_heap q)) (q_pending q))" for c i
    using that set_AList_update [of cid "length (q_heap q)" "q_pending q"] assms(1) pc
    by (auto simp: q' queue_inv_def handle_ok_def nth_append)
  ultimately have "queue_inv q'" using assms(1) pc by (auto simp: q' queue_inv_def)
  then show ?thesis using pc unfolding h
    by (simp add: q' handle_ok_def heap_extends_def nth_append)
qed

lemma cleanup_entry_ok:
  assumes "queue_inv q" "handle_ok q cid h"
  shows "\<exists>q'. cleanup_entry io now (cid, h) q = (Ret (), q') \<and> queue_inv q' \<and> heap_extends q q'"
proof -
  from assms have h: "h < length (q_heap q)" by (simp add: handle_ok_def)
  obtain pc' where pc': "once_close (q_heap q ! h) = Ret pc'" "entry_inv pc'" "pc_ID pc' = pc_ID (q_heap q ! h)"
    using once_close_ok [OF queue_inv_entry [OF assms(1) h]] by blast
  have "queue_inv (Remove cid (set_entry h pc' q))" "heap_extends q (Remove cid (set_entry h pc' q))"
    using set_entry_facts [OF assms(1) h pc'(2,3)] queue_inv_Remove
      heap_extends_trans [OF _ heap_extends_store(2)] by blast+
  then show ?thesis
    using pc'(1) assms(1) heap_extends_trans [OF _ heap_extends_store(1)]
    by (auto simp: cleanup_entry_def Let_def split: option.splits)
qed

lemma cleanup_loop_ok:
  "queue_inv q \<Longrightarrow> \<forall>(cid, h) \<in> set es. handle_ok q cid h \<Longrightarrow>
   \<exists>q'. cleanup_loop io now es q = (Ret (), q') \<and> queue_inv q' \<and> heap_extends q q'"
proof (induction es arbitrary: q)
  case Nil
  then show ?case by simp
next
  case (Cons e es)
  obtain cid h where e: "e = (cid, h)" by (cases e)
  from Cons.prems e obtain q1 where q1: "cleanup_entry io now e q = (Ret (), q1)" "queue_inv q1"
    "heap_extends q q1" using cleanup_entry_ok [of q cid h io now] by auto
  have "\<forall>(cid, h) \<in> set es. handle_ok q1 cid h"
    using Cons.prems(2) handle_ok_extends [OF _ q1(3)] by auto
  from Cons.IH [OF q1(2) this] q1 show ?case using heap_extends_trans by fastforce
qed

lemma cleanupExpired_ok:
  "queue_inv q \<Longrightarrow> \<exists>q'. cleanupExpired_tick io now q = (Ret (), q') \<and> queue_inv q' \<and> heap_extends q q'"
  unfolding cleanupExpired_tick_def by (rule cleanup_loop_ok) (auto simp: queue_inv_def)

lemma wait_receive_ok:
  assumes "queue_inv q" "h < length (q_heap q)" "wait_receive h q = (r, q')"
  shows "queue_inv q' \<and> heap_extends q q' \<and> q_store q' = q_store q"
proof -
  let ?pc = "q_heap q ! h"
  have inv: "entry_inv ?pc" using queue_inv_entry [OF assms(1,2)] .
  show ?thesis
  proof (cases "chan_recv (pc_approved ?pc)")
    case (Ret vc)
    obtain v c where vc: "vc = (v, c)" by (cases vc)
    have "entry_inv (?pc\<lparr>pc_approved := c\<rparr>)"
      using inv Ret vc by (auto simp: entry_inv_def chan_recv_def split: option.splits if_splits)
    with set_entry_facts [OF assms(1,2), of "?pc\<lparr>pc_approved := c\<rparr>"] Ret vc assms(3)
    show ?thesis by (auto simp: wait_receive_def set_entry_def)
  qed (use assms in \<open>auto simp: wait_receive_def\<close>)
qed

lemma cleanup_loop_store_None:
  "cleanup_loop io now es q = (r, q') \<Longrightarrow> q_store q' = None \<longleftrightarrow> q_store q = None"
proof (induction es arbitrary: q)
  case (Cons e es)
  have "q_store q1 = None \<longleftrightarrow> q_store q = None" if "cleanup_entry io now e q = (r1, q1)" for r1 q1
    using that by (auto simp: cleanup_entry_def Let_def set_entry_def split: prod.splits go.splits option.splits if_splits)
  then show ?case using Cons.prems by (auto dest!: Cons.IH split: prod.splits go.splits)
qed simp

lemma cleanup_store_None:
  "cleanupExpired_tick io now q = (r, q') \<Longrightarrow> q_store q' = None \<longleftrightarrow> q_store q = None"
  unfolding cleanupExpired_tick_def by (rule cleanup_loop_store_None)

text \<open>What a process in the middle of a call knows.\<close>

fun proc_ok :: "Queue \<Rightarrow> call \<Rightarrow> pstate \<Rightarrow> bool" where
  "proc_ok q (CAdd cid cmd tool reason args) (Added h) = handle_ok q cid h"
| "proc_ok q (CDecide v cid) (Looked (Some h)) = handle_ok q cid h"
| "proc_ok q (CDecide v cid) (Stored (Some h)) = handle_ok q cid h"
| "proc_ok q (CWait cid) (Waiting h) = handle_ok q cid h"
| "proc_ok q c (Crashed k) = (k = NilDeref \<and> q_store q \<noteq> None)"
| "proc_ok q c st = True"

definition system_inv :: "system \<Rightarrow> bool" where
  "system_inv s \<longleftrightarrow> queue_inv (fst s) \<and> (\<forall>(c, st) \<in> set (snd s). proc_ok (fst s) c st)"

lemma proc_ok_extends:
  "proc_ok q c st \<Longrightarrow> heap_extends q q' \<Longrightarrow> (q_store q' = None \<longleftrightarrow> q_store q = None) \<Longrightarrow> proc_ok q' c st"
  by (induction q c st rule: proc_ok.induct) (auto intro: handle_ok_extends)

lemma proc_step_ok:
  assumes "proc_step c (q, st) (q', st')" "queue_inv q" "proc_ok q c st"
  shows "queue_inv q' \<and> heap_extends q q' \<and> proc_ok q' c st' \<and> (q_store q' = None \<longleftrightarrow> q_store q = None)"
  using assms(1)
proof (cases rule: proc_step.cases)
  case (Add_memory cid now cmd tool reason args h)
  with add_memory_ok [OF assms(2)] show ?thesis by auto
next
  case (Add_store cid cmd tool reason args h io)
  then show ?thesis using assms(2) by (auto simp: add_store_def split: option.splits)
next
  case (Decide_lookup v cid)
  then show ?thesis using assms(2) queue_inv_lookup [of q cid]
    by (cases "map_of (q_pending q) cid") auto
next
  case (Decide_store io now v cid h)
  note frame = decide_store_frame [OF Decide_store(4)]
  with inv_same_memory [of q' q] assms(2) have "queue_inv q' \<and> heap_extends q q'" by blast
  with frame show ?thesis using Decide_store assms(3) handle_ok_extends by (cases h) auto
next
  case (Decide_crash io now v cid h k)
  note frame = decide_store_frame [OF Decide_crash(4)]
  with inv_same_memory [of q' q] assms(2) have "queue_inv q' \<and> heap_extends q q'" by blast
  with frame show ?thesis using Decide_crash by auto
next
  case (Decide_signal v h cid)
  then show ?thesis using decide_signal_ok [OF assms(2), of h v] assms(3) by (auto simp: handle_ok_def)
next
  case (Decide_signal_crash v h k cid)
  then show ?thesis using decide_signal_ok [OF assms(2), of h v] assms(3) by (auto simp: handle_ok_def)
next
  case (Decide_remove v cid)
  then show ?thesis using assms(2) by (auto intro: queue_inv_Remove)
next
  case (Wait_hit cid h)
  then show ?thesis using assms(2) queue_inv_lookup [of q cid] by auto
next
  case (Wait_receive h d cid)
  then show ?thesis using wait_receive_ok [OF assms(2), of h] assms(3) by (auto simp: handle_ok_def)
next
  case (Wait_timeout h now cid)
  then show ?thesis using assms(2) by (auto intro: queue_inv_Remove)
qed (use assms in auto)

lemma system_inv_step:
  assumes "queue_step s s'" "system_inv s"
  shows "system_inv s'"
  using assms(1)
proof (cases rule: queue_step.cases)
  case (Spawn q ps c)
  then show ?thesis using assms(2) by (cases c) (auto simp: system_inv_def)
next
  case (Run i ps c st q q' st')
  then have "(c, st) \<in> set ps" by (metis nth_mem)
  with Run assms(2) have "queue_inv q" "proc_ok q c st" by (auto simp: system_inv_def)
  from proc_step_ok [OF Run(5) this] have step: "queue_inv q'" "heap_extends q q'" "proc_ok q' c st'"
    "q_store q' = None \<longleftrightarrow> q_store q = None" by auto
  have old: "proc_ok q' d t" if "(d, t) \<in> set ps" for d t
  proof (rule proc_ok_extends [OF _ step(2,4)])
    show "proc_ok q d t" using that assms(2) Run(1) by (auto simp: system_inv_def)
  qed
  have "proc_ok q' d t" if "(d, t) \<in> set (ps[i := (c, st')])" for d t
    using that old step(3) set_update_subset_insert [of ps i "(c, st')"] by blast
  with step Run(2) show ?thesis by (auto simp: system_inv_def)
next
  case (Cleanup io now q q' ps)
  from Cleanup assms(2) have "queue_inv q" by (simp add: system_inv_def)
  from cleanupExpired_ok [OF this, of io now] Cleanup have "queue_inv q'" "heap_extends q q'" by auto
  moreover have "q_store q' = None \<longleftrightarrow> q_store q = None"
    using cleanup_store_None Cleanup(3) by blast
  ultimately show ?thesis using assms(2) Cleanup by (auto simp: system_inv_def intro: proc_ok_extends)
next
  case (Store_cleanup q st ps now)
  then show ?thesis using assms(2) by (auto simp: system_inv_def intro: proc_ok_extends)
qed

lemma reachable_inv: "reachable s \<Longrightarrow> system_inv s"
proof (induction rule: reachable.induct)
  case (Step s s')
  then show ?case by (metis system_inv_step)
qed (simp_all add: system_inv_def queue_inv_def NewQueue_def NewPersistentQueue_def)

section \<open>Where an approval comes from\<close>

definition called :: "system \<Rightarrow> call \<Rightarrow> bool" where
  "called s c \<longleftrightarrow> c \<in> fst ` set (snd s)"

definition chan_justified :: "(string \<Rightarrow> bool) \<Rightarrow> Queue \<Rightarrow> bool" where
  "chan_justified A q \<longleftrightarrow>
     (\<forall>pc \<in> set (q_heap q). ch_value (pc_approved pc) = Some True \<longrightarrow> A (pc_ID pc))"

definition store_justified :: "(string \<Rightarrow> bool) \<Rightarrow> Store option \<Rightarrow> bool" where
  "store_justified A st \<longleftrightarrow>
     (\<forall>s. st = Some s \<longrightarrow> (\<forall>r \<in> set (st_rows s). sp_Status r = ''approved'' \<longrightarrow> A (sp_ID r)))"

definition approved_by_call :: "system \<Rightarrow> string \<Rightarrow> bool" where
  "approved_by_call s cid \<longleftrightarrow> called s (CDecide True cid)"

definition justified :: "system \<Rightarrow> bool" where
  "justified s \<longleftrightarrow> chan_justified (approved_by_call s) (fst s) \<and>
     store_justified (approved_by_call s) (q_store (fst s)) \<and>
     (\<forall>cid. (CWait cid, WaitReturned DecisionApproved) \<in> set (snd s) \<longrightarrow> approved_by_call s cid)"

lemma store_justified_update:
  assumes "store_justified A (Some s)" "keeps_id f"
    and "\<And>r. r \<in> set (st_rows s) \<Longrightarrow> P r \<Longrightarrow> sp_Status (f r) = ''approved'' \<Longrightarrow> A (sp_ID r)"
  shows "store_justified A (Some (update_pending P f s))"
  using assms by (auto simp: store_justified_def update_pending_def keeps_id_def)

lemma store_justified_audit [simp]:
  "store_justified A (Some (s\<lparr>st_audit := a\<rparr>)) = store_justified A (Some s)"
  by (simp add: store_justified_def)

lemma store_justified_LogEvent:
  "store_justified A (Some s) \<Longrightarrow> store_justified A (Some (snd (LogEvent io s ev)))"
  by (auto simp: LogEvent_def split: option.splits)

lemma store_justified_mark: "store_justified A (Some s) \<Longrightarrow> store_justified A (Some (GetStatus_mark s cid))"
  unfolding GetStatus_mark_def by (erule store_justified_update) auto

lemma store_justified_Add:
  "store_justified A (Some s) \<Longrightarrow> store_justified A (Some (snd (Store_Add io s pc)))"
  by (auto simp: Store_Add_def store_justified_def split: option.splits)

lemma lookup_row_in: "lookup_row s cid = Some r \<Longrightarrow> r \<in> set (st_rows s) \<and> sp_ID r = cid"
  by (auto simp: lookup_row_def find_Some_iff)

lemma chan_justified_set_entry:
  assumes "chan_justified A q" "ch_value (pc_approved pc) = Some True \<Longrightarrow> A (pc_ID pc)"
  shows "chan_justified A (set_entry h pc q)"
  using assms set_update_subset_insert [of "q_heap q" h pc]
  by (auto simp: chan_justified_def set_entry_def)

lemma chan_justified_mono: "chan_justified A q \<Longrightarrow> (\<And>c. A c \<Longrightarrow> B c) \<Longrightarrow> chan_justified B q"
  by (auto simp: chan_justified_def)

lemma store_justified_mono: "store_justified A st \<Longrightarrow> (\<And>c. A c \<Longrightarrow> B c) \<Longrightarrow> store_justified B st"
  by (auto simp: store_justified_def)

lemma chan_justified_heap: "q_heap q' = q_heap q \<Longrightarrow> chan_justified A q' = chan_justified A q"
  by (simp add: chan_justified_def)

text \<open>One section of one call keeps it; an answer \<open>approved\<close> has its call.\<close>

lemma decide_store_justified:
  assumes "decide_store io now v cid h q = (r, q')" "store_justified A (q_store q)"
    and "v \<Longrightarrow> A cid"
  shows "store_justified A (q_store q')"
proof (cases "q_store q")
  case None
  with assms show ?thesis by (simp add: decide_store_def)
next
  case (Some s)
  have upd: "store_justified A (Some (snd (UpdateStatus io' now s cid (status_of v))))" for io'
  proof (cases io')
    case None
    have "store_justified A (Some (update_pending (\<lambda>r. sp_ID r = cid)
        (\<lambda>r. r\<lparr>sp_Status := status_of v, sp_DecidedAt := Some now\<rparr>) s))"
    proof (rule store_justified_update)
      show "store_justified A (Some s)" using assms(2) Some by simp
    qed (use assms(3) in \<open>auto simp: status_of_def split: if_splits\<close>)
    then show ?thesis using None by (simp add: UpdateStatus_def)
  qed (use assms(2) Some in \<open>simp add: UpdateStatus_def\<close>)
  then have "store_justified A (Some s')" if "UpdateStatus io' now s cid (status_of v) = (x, s')" for io' x s'
    using that by (metis snd_conv)
  then show ?thesis using assms(1) Some store_justified_LogEvent
    by (auto simp: decide_store_def split: option.splits prod.splits sum.splits bool.splits)
qed

lemma once_signal_value:
  "once_signal v pc = Ret pc' \<Longrightarrow> pc_ID pc' = pc_ID pc \<and>
     (ch_value (pc_approved pc') = ch_value (pc_approved pc) \<or> ch_value (pc_approved pc') = Some v)"
  by (auto simp: once_signal_def chan_send_def chan_close_def split: if_splits)

lemma decide_signal_justified:
  assumes "decide_signal v h q = (r, q')" "h < length (q_heap q)" "chan_justified A q"
    and "v \<Longrightarrow> A (pc_ID (q_heap q ! h))"
  shows "chan_justified A q'"
proof (cases "once_signal v (q_heap q ! h)")
  case (Ret pc')
  from once_signal_value [OF this] have "ch_value (pc_approved pc') = Some True \<Longrightarrow> A (pc_ID pc')"
    using assms(2-4) nth_mem by (auto simp: chan_justified_def)
  with chan_justified_set_entry [OF assms(3)] Ret assms(1) show ?thesis by (auto simp: decide_signal_def)
qed (use assms in \<open>auto simp: decide_signal_def\<close>)

lemma wait_receive_justified:
  assumes "wait_receive h q = (r, q')" "h < length (q_heap q)" "chan_justified A q"
  shows "chan_justified A q'" "r = Ret DecisionApproved \<Longrightarrow> A (pc_ID (q_heap q ! h))"
proof -
  have "chan_recv (pc_approved (q_heap q ! h)) = Ret (v, c) \<Longrightarrow> ch_value c = None" for v c
    by (auto simp: chan_recv_def split: option.splits if_splits)
  then show "chan_justified A q'" using assms(1,3)
    by (auto simp: wait_receive_def Let_def split: go.splits prod.splits intro!: chan_justified_set_entry)
  show "r = Ret DecisionApproved \<Longrightarrow> A (pc_ID (q_heap q ! h))"
    using assms nth_mem [OF assms(2)]
    by (auto simp: wait_receive_def Let_def chan_recv_def chan_justified_def
        split: go.splits prod.splits option.splits if_splits)
qed

lemma stored_decision_approved:
  "stored_decision (GetStatus_read io now s cid) = DecisionApproved \<Longrightarrow>
   \<exists>r. lookup_row s cid = Some r \<and> sp_Status r = ''approved''"
  by (auto simp: stored_decision_def GetStatus_read_def split: option.splits if_splits)

lemma once_close_value:
  "once_close pc = Ret pc' \<Longrightarrow> pc_ID pc' = pc_ID pc \<and> ch_value (pc_approved pc') = ch_value (pc_approved pc)"
  by (auto simp: once_close_def chan_close_def split: if_splits)

lemma cleanup_entry_justified:
  assumes "cleanup_entry io now (cid, h) q = (r, q')" "h < length (q_heap q)"
    and "chan_justified A q" "store_justified A (q_store q)"
  shows "chan_justified A q' \<and> store_justified A (q_store q')"
proof (cases "now > pc_ExpiresAt (q_heap q ! h)")
  case late: True
  show ?thesis
  proof (cases "once_close (q_heap q ! h)")
    case (Ret pc')
    from once_close_value [OF this] have "ch_value (pc_approved pc') = Some True \<Longrightarrow> A (pc_ID pc')"
      using assms(2,3) nth_mem by (auto simp: chan_justified_def)
    from chan_justified_set_entry [OF assms(3) this]
    have "chan_justified A (Remove cid (set_entry h pc' q))" by (simp add: chan_justified_def)
    then show ?thesis using assms(1,4) late Ret
      by (auto simp: cleanup_entry_def Let_def chan_justified_def set_entry_def store_justified_LogEvent
          split: option.splits)
  qed (use assms late in \<open>auto simp: cleanup_entry_def\<close>)
qed (use assms in \<open>auto simp: cleanup_entry_def\<close>)

lemma cleanup_loop_justified:
  "cleanup_loop io now es q = (r, q') \<Longrightarrow> queue_inv q \<Longrightarrow> \<forall>(cid, h) \<in> set es. handle_ok q cid h \<Longrightarrow>
   chan_justified A q \<Longrightarrow> store_justified A (q_store q) \<Longrightarrow>
   chan_justified A q' \<and> store_justified A (q_store q')"
proof (induction es arbitrary: q)
  case Nil
  then show ?case by simp
next
  case (Cons e es)
  obtain cid h where e: "e = (cid, h)" by (cases e)
  with Cons.prems obtain q1 where q1: "cleanup_entry io now e q = (Ret (), q1)" "queue_inv q1"
    "heap_extends q q1" using cleanup_entry_ok [of q cid h io now] by auto
  have h: "h < length (q_heap q)" using Cons.prems(3) e by (auto simp: handle_ok_def)
  have "\<forall>(cid, h) \<in> set es. handle_ok q1 cid h"
    using Cons.prems(3) handle_ok_extends [OF _ q1(3)] by auto
  moreover have "chan_justified A q1" "store_justified A (q_store q1)"
    using cleanup_entry_justified [OF q1(1) [unfolded e] h Cons.prems(4,5)] by auto
  ultimately show ?case using Cons.IH [of q1] Cons.prems(1) q1 by simp
qed

lemma add_justified:
  assumes "add_memory (new_command cid now q cmd tool reason args) q = (h, q')" "chan_justified A q"
  shows "chan_justified A q' \<and> q_store q' = q_store q"
  using assms by (auto simp: add_memory_def new_command_def make_chan_def chan_justified_def)

text \<open>
  A section of a call: \<open>A\<close> holds of every identifier an approval was called for, the call's own among
  them.
\<close>

lemma proc_step_justified:
  assumes "proc_step c (q, st) (q', st')" "queue_inv q" "proc_ok q c st"
    and "chan_justified A q" "store_justified A (q_store q)"
    and "\<And>cid. c = CDecide True cid \<Longrightarrow> A cid"
  shows "chan_justified A q' \<and> store_justified A (q_store q') \<and>
    (st' = WaitReturned DecisionApproved \<longrightarrow> (\<exists>cid. c = CWait cid \<and> A cid))"
  using assms(1)
proof (cases rule: proc_step.cases)
  case (Add_memory cid now cmd tool reason args h)
  then show ?thesis using add_justified [OF _ assms(4)] assms(5) by auto
next
  case (Add_store cid cmd tool reason args h io)
  then show ?thesis using assms(4,5) store_justified_Add
    by (auto simp: add_store_def chan_justified_def split: option.splits)
next
  case (Decide_store io now v cid h)
  have "v \<Longrightarrow> A cid" using assms(6) Decide_store(1) by simp
  with decide_store_justified [OF Decide_store(4) assms(5)] decide_store_frame(1) [OF Decide_store(4)]
  show ?thesis using assms(4) Decide_store by (auto simp: chan_justified_def)
next
  case (Decide_crash io now v cid h k)
  have "v \<Longrightarrow> A cid" using assms(6) Decide_crash(1) by simp
  with decide_store_justified [OF Decide_crash(4) assms(5)] decide_store_frame(1) [OF Decide_crash(4)]
  show ?thesis using assms(4) Decide_crash by (auto simp: chan_justified_def)
next
  case (Decide_signal v h cid)
  then have h: "h < length (q_heap q)" "pc_ID (q_heap q ! h) = cid" using assms(3) by (auto simp: handle_ok_def)
  have "v \<Longrightarrow> A (pc_ID (q_heap q ! h))" using assms(6) Decide_signal h by simp
  from decide_signal_justified [OF Decide_signal(4) h(1) assms(4) this]
  show ?thesis using Decide_signal assms(5) decide_signal_ok [OF assms(2) h(1), of v] by auto
next
  case (Decide_signal_crash v h k cid)
  then show ?thesis using decide_signal_ok [OF assms(2), of h v] assms(3) by (auto simp: handle_ok_def)
next
  case (Decide_remove v cid)
  then show ?thesis using assms(4,5) by (simp add: chan_justified_def)
next
  case (Wait_read s io now cid)
  then show ?thesis using assms(4,5) stored_decision_approved [of io now s cid] lookup_row_in
    by (fastforce simp: store_justified_def)
next
  case (Wait_mark s cid)
  then show ?thesis using assms(4,5) store_justified_mark by (simp add: chan_justified_def)
next
  case (Wait_receive h d cid)
  then have h: "h < length (q_heap q)" "pc_ID (q_heap q ! h) = cid" using assms(3) by (auto simp: handle_ok_def)
  show ?thesis using Wait_receive assms(5) wait_receive_justified [OF Wait_receive(4) h(1) assms(4)] h
      wait_receive_ok [OF assms(2) h(1) Wait_receive(4)] by auto
next
  case (Wait_timeout h now cid)
  then show ?thesis using assms(4,5) by (simp add: chan_justified_def)
qed (use assms in auto)

lemma called_mono: "fst ` set ps \<subseteq> fst ` set ps' \<Longrightarrow> approved_by_call (q, ps) cid \<Longrightarrow> approved_by_call (q', ps') cid"
  by (auto simp: approved_by_call_def called_def)

lemma justified_mono:
  assumes "chan_justified (approved_by_call (q, ps)) q'" "store_justified (approved_by_call (q, ps)) (q_store q')"
    and "fst ` set ps \<subseteq> fst ` set ps'"
    and "\<And>cid. (CWait cid, WaitReturned DecisionApproved) \<in> set ps' \<Longrightarrow> approved_by_call (q, ps) cid"
  shows "justified (q', ps')"
  using assms called_mono [OF assms(3), of q _ q']
  unfolding justified_def by (auto intro: chan_justified_mono store_justified_mono)

lemma justified_step:
  assumes "queue_step s s'" "system_inv s" "justified s"
  shows "justified s'"
  using assms(1)
proof (cases rule: queue_step.cases)
  case (Spawn q ps c)
  show ?thesis unfolding Spawn(2)
    by (rule justified_mono [of q ps]) (use assms(3) Spawn(1) in \<open>auto simp: justified_def\<close>)
next
  case (Run i ps c st q q' st')
  then have mem: "(c, st) \<in> set ps" by (metis nth_mem)
  with Run assms(2) have inv: "queue_inv q" "proc_ok q c st" by (auto simp: system_inv_def)
  have own: "c = CDecide True cid \<Longrightarrow> approved_by_call (q, ps) cid" for cid
    using mem by (force simp: approved_by_call_def called_def)
  have j: "chan_justified (approved_by_call (q, ps)) q"
    "store_justified (approved_by_call (q, ps)) (q_store q)"
    "\<And>cid. (CWait cid, WaitReturned DecisionApproved) \<in> set ps \<Longrightarrow> approved_by_call (q, ps) cid"
    using assms(3) Run(1) by (auto simp: justified_def)
  note step = proc_step_justified [OF Run(5) inv j(1,2) own]
  have "map fst (ps[i := (c, st')]) = map fst ps"
    using Run(3,4) by (metis fst_conv list_update_id map_update)
  then have "fst ` set (ps[i := (c, st')]) = fst ` set ps" by (metis set_map)
  moreover have "approved_by_call (q, ps) cid"
    if "(CWait cid, WaitReturned DecisionApproved) \<in> set (ps[i := (c, st')])" for cid
  proof -
    from that consider "(CWait cid, WaitReturned DecisionApproved) \<in> set ps"
      | "c = CWait cid" "st' = WaitReturned DecisionApproved"
      using set_update_subset_insert [of ps i "(c, st')"] by blast
    then show ?thesis using j(3) step by cases auto
  qed
  ultimately show ?thesis using step unfolding Run(2) by (intro justified_mono) auto
next
  case (Cleanup io now q q' ps)
  have inv: "queue_inv q" using assms(2) Cleanup(1) by (simp add: system_inv_def)
  then have "\<forall>(cid, h) \<in> set (q_pending q). handle_ok q cid h" by (simp add: queue_inv_def)
  from cleanup_loop_justified [OF Cleanup(3) [unfolded cleanupExpired_tick_def] inv this]
  show ?thesis unfolding Cleanup(2)
    by (intro justified_mono [of q ps]) (use assms(3) Cleanup(1) in \<open>auto simp: justified_def\<close>)
next
  case (Store_cleanup q st ps now)
  have "store_justified (approved_by_call (q, ps)) (Some (cleanupLoop_tick now st))"
    unfolding cleanupLoop_tick_def using assms(3) Store_cleanup
    by (intro store_justified_update) (auto simp: justified_def)
  then show ?thesis unfolding Store_cleanup(2)
    by (intro justified_mono [of q ps])
      (use assms(3) Store_cleanup(1) in \<open>auto simp: justified_def chan_justified_def\<close>)
qed

lemma reachable_justified: "reachable s \<Longrightarrow> justified s"
proof (induction rule: reachable.induct)
  case (Step s s')
  then show ?case by (metis justified_step reachable_inv)
qed (simp_all add: justified_def chan_justified_def store_justified_def NewQueue_def
    NewPersistentQueue_def empty_store_def)

section \<open>Running a schedule\<close>

text \<open>
  The step relation as a function of a schedule: which process runs next, with the driver's answers
  and the time it sees, and whether a waiting process takes its timeout.
\<close>

datatype action =
    ASpawn call
  | ARun nat "string option" int
  | ATimeout nat int
  | ACleanup "string option" int

definition run_section ::
  "string option \<Rightarrow> int \<Rightarrow> call \<Rightarrow> Queue \<times> pstate \<Rightarrow> (Queue \<times> pstate) option" where
  "run_section io now c s =
     (case (c, s) of
        (CAdd cid cmd tool reason args, (q, Start)) \<Rightarrow>
          (case add_memory (new_command cid now q cmd tool reason args) q of (h, q') \<Rightarrow> Some (q', Added h))
      | (CAdd cid cmd tool reason args, (q, Added h)) \<Rightarrow> Some (add_store io (q_heap q ! h) q, AddReturned h)
      | (CDecide v cid, (q, Start)) \<Rightarrow> Some (q, Looked (map_of (q_pending q) cid))
      | (CDecide v cid, (q, Looked h)) \<Rightarrow>
          (case decide_store (\<lambda>_. io) now v cid h q of
             (Ret _, q') \<Rightarrow> Some (q', Stored h) | (Panics k, q') \<Rightarrow> Some (q', Crashed k) | _ \<Rightarrow> None)
      | (CDecide v cid, (q, Stored None)) \<Rightarrow> Some (q, DecideReturned (q_store q \<noteq> None))
      | (CDecide v cid, (q, Stored (Some h))) \<Rightarrow>
          (case decide_signal v h q of
             (Ret _, q') \<Rightarrow> Some (q', Signalled) | (Panics k, q') \<Rightarrow> Some (q', Crashed k) | _ \<Rightarrow> None)
      | (CDecide v cid, (q, Signalled)) \<Rightarrow> Some (Remove cid q, DecideReturned True)
      | (CWait cid, (q, Start)) \<Rightarrow>
          (case map_of (q_pending q) cid of None \<Rightarrow> Some (q, Missed) | Some h \<Rightarrow> Some (q, Waiting h))
      | (CWait cid, (q, Waiting h)) \<Rightarrow>
          (case wait_receive h q of (Ret d, q') \<Rightarrow> Some (q', WaitReturned d) | _ \<Rightarrow> None)
      | (CWait cid, (q, Missed)) \<Rightarrow>
          (case q_store q of None \<Rightarrow> Some (q, WaitReturned DecisionExpired) | Some _ \<Rightarrow> None)
      | _ \<Rightarrow> None)"

lemma run_section_sound: "run_section io now c (q, st) = Some (q', st') \<Longrightarrow> proc_step c (q, st) (q', st')"
  by (cases c; cases st)
    (auto simp: run_section_def intro: proc_step.intros split: prod.splits go.splits option.splits)

fun run_action :: "action \<Rightarrow> system \<Rightarrow> system option" where
  "run_action (ASpawn c) (q, ps) = Some (q, ps @ [(c, Start)])"
| "run_action (ARun i io now) (q, ps) =
     (if i < length ps then
        (case ps ! i of (c, st) \<Rightarrow>
           (case run_section io now c (q, st) of
              Some (q', st') \<Rightarrow> Some (q', ps[i := (c, st')])
            | None \<Rightarrow> None))
      else None)"
| "run_action (ATimeout i now) (q, ps) =
     (if i < length ps then
        (case ps ! i of
           (CWait cid, Waiting h) \<Rightarrow>
             if pc_ExpiresAt (q_heap q ! h) \<le> now
             then Some (Remove cid q, ps[i := (CWait cid, WaitReturned DecisionExpired)]) else None
         | _ \<Rightarrow> None)
      else None)"
| "run_action (ACleanup io now) (q, ps) =
     (case cleanupExpired_tick io now q of (Ret _, q') \<Rightarrow> Some (q', ps) | _ \<Rightarrow> None)"

fun run_schedule :: "action list \<Rightarrow> system \<Rightarrow> system option" where
  "run_schedule [] s = Some s"
| "run_schedule (a # as) s = (case run_action a s of None \<Rightarrow> None | Some s' \<Rightarrow> run_schedule as s')"

lemma run_action_sound: "run_action a (q, ps) = Some s' \<Longrightarrow> queue_step (q, ps) s'"
proof (cases a)
  case (ARun i io now)
  assume "run_action a (q, ps) = Some s'"
  with ARun show ?thesis
    by (auto split: if_splits prod.splits option.splits intro!: queue_step.Run run_section_sound)
next
  case (ATimeout i now)
  assume "run_action a (q, ps) = Some s'"
  with ATimeout show ?thesis
    by (auto split: if_splits prod.splits call.splits pstate.splits intro!: queue_step.Run proc_step.Wait_timeout)
qed (auto intro: queue_step.intros split: prod.splits go.splits)

lemma run_schedule_reachable: "reachable s \<Longrightarrow> run_schedule as s = Some s' \<Longrightarrow> reachable s'"
proof (induction as arbitrary: s)
  case (Cons a as)
  obtain q ps where s: "s = (q, ps)" by (cases s)
  with Cons.prems(2) obtain s1 where s1: "run_action a (q, ps) = Some s1" "run_schedule as s1 = Some s'"
    by (auto split: option.splits)
  from Cons.IH [OF reachable.Step [OF Cons.prems(1) [unfolded s] run_action_sound [OF s1(1)]] s1(2)]
  show ?case .
qed simp

section \<open>Properties\<close>

text \<open>
  C1. No command is approved by itself: in every interleaving of additions, waits, approvals, denials
  and clean-ups, with or without a store and with any driver failures, a wait that answers approved
  waited for a command whose approval was called.
\<close>

theorem approved_needs_approval:
  assumes "reachable (q, ps)" "(CWait cid, WaitReturned DecisionApproved) \<in> set ps"
  shows "\<exists>st. (CDecide True cid, st) \<in> set ps"
  using reachable_justified [OF assms(1)] assms(2)
  by (force simp: justified_def approved_by_call_def called_def)

definition approve_schedule :: "action list" where
  "approve_schedule =
     [ASpawn (CAdd ''a'' ''rm'' ''bash'' ''r'' None), ARun 0 None 0, ARun 0 None 0,
      ASpawn (CWait ''a''), ARun 1 None 0, ASpawn (CDecide True ''a''),
      ARun 2 None 1, ARun 2 None 1, ARun 2 None 1, ARun 1 None 2]"

definition approve_run :: system where
  "approve_run = the (run_schedule approve_schedule (NewPersistentQueue 60 empty_store, []))"

theorem approved_needs_approval_witness:
  "\<exists>st. (CDecide True ''a'', st) \<in> set (snd approve_run)"
proof (rule approved_needs_approval)
  have "run_schedule approve_schedule (NewPersistentQueue 60 empty_store, []) = Some approve_run"
    by code_simp
  then show "reachable (fst approve_run, snd approve_run)"
    using run_schedule_reachable [OF reachable.Persistent] by simp
  show "(CWait ''a'', WaitReturned DecisionApproved) \<in> set (snd approve_run)" by code_simp
qed




definition one_pending :: Queue where
  "one_pending = snd (Queue_Add None ''a'' 0 ''rm'' ''bash'' ''r'' None (NewQueue 60))"


text \<open>
  An approval that comes before the wait is lost when there is no store: \<open>Approve\<close> answers true
  and takes the command off the map, and the wait that follows answers expired.
\<close>

theorem early_approval_lost:
  assumes "q_store q = None" "queue_inv q"
    and "Queue_Add io cid now command toolName reason args q = (h, q1)"
    and "Approve io' now' cid q1 = (r, q2)"
  shows "r = Ret True \<and> fst (Wait io'' now'' ctx_done cid q2) = DecisionExpired"
proof -
  let ?pc = "new_command cid now q command toolName reason args"
  obtain q0 where q0: "add_memory ?pc q = (h, q0)" and "q1 = add_store io ?pc q0"
    using assms(3) by (auto simp: Queue_Add_def Let_def split: prod.splits)
  then have q1: "q1 = q0" using assms(1) by (auto simp: add_memory_def add_store_def)
  from q0 have heap: "q_heap q1 ! h = ?pc" and lookup: "map_of (q_pending q1) cid = Some h"
    and st: "q_store q1 = None" using assms(1)
    by (auto simp: q1 add_memory_def nth_append new_command_def AList.update_conv')
  have "once_signal True ?pc = Ret (?pc\<lparr>pc_approved := \<lparr>ch_value = Some True, ch_closed = True\<rparr>, pc_once := True\<rparr>)"
    by (simp add: once_signal_def new_command_def make_chan_def chan_send_def chan_close_def)
  with assms(4) heap lookup st
  have "r = Ret True \<and> map_of (q_pending q2) cid = None \<and> q_store q2 = None"
    by (auto simp: Approve_def decide_call_def decide_store_def decide_signal_def set_entry_def Remove_def
        AList.delete_conv')
  then show ?thesis by (simp add: Wait_def wait_store_def)
qed

theorem early_approval_lost_witness:
  "let (h, q1) = Queue_Add None ''a'' 0 ''rm'' ''bash'' ''r'' None (NewQueue 60);
       (r, q2) = Approve (\<lambda>_. None) 1 ''a'' q1
   in r = Ret True \<and> fst (Wait None 2 False ''a'' q2) = DecisionExpired"
  using early_approval_lost [of "NewQueue 60" None "''a''" 0 "''rm''" "''bash''" "''r''" None]
  by (auto simp: NewQueue_def queue_inv_def split: prod.splits)

text \<open>
  Deciding a command that is in the store and no longer in memory panics: when its waiter has gone
  (it timed out, or the process restarted) and the row is still pending, \<open>Approve\<close> and \<open>Deny\<close> write
  the decision to the store and then dereference a nil command.
\<close>

theorem decide_after_timeout_panics:
  assumes "map_of (q_pending q) cid = None" "q_store q = Some s" "store_inv s"
    and "lookup_row s cid = Some row" "sp_Status row = ''pending''" "io 0 = None"
  shows "fst (decide_call v io now cid q) = Panics NilDeref \<and>
    (\<exists>s'. q_store (snd (decide_call v io now cid q)) = Some s' \<and>
       map_option sp_Status (lookup_row s' cid) = Some (status_of v))"
proof -
  have "sp_ID row = cid" using lookup_row_ID [OF assms(4)] .
  with assms show ?thesis
    by (auto simp: decide_call_def decide_store_def UpdateStatus_def list_ex_pending_iff
        lookup_row_update_pending)
qed

definition timed_out :: Queue where
  "timed_out = snd (Wait None 60 False ''a''
     (snd (Queue_Add None ''a'' 0 ''rm'' ''bash'' ''r'' None (NewPersistentQueue 60 empty_store))))"

theorem decide_after_timeout_panics_witness:
  "fst (decide_call True (\<lambda>_. None) 61 ''a'' timed_out) = Panics NilDeref \<and>
    (\<exists>s'. q_store (snd (decide_call True (\<lambda>_. None) 61 ''a'' timed_out)) = Some s' \<and>
       map_option sp_Status (lookup_row s' ''a'') = Some (status_of True))"
  by (rule decide_after_timeout_panics
      [where s = "the (q_store timed_out)" and row = "the (lookup_row (the (q_store timed_out)) ''a'')"])
    code_simp+

definition split_schedule :: "action list" where
  "split_schedule =
     [ASpawn (CAdd ''a'' ''rm'' ''bash'' ''r'' None), ARun 0 None 0, ARun 0 None 0,
      ASpawn (CWait ''a''), ARun 1 None 0, ASpawn (CDecide True ''a''), ASpawn (CDecide False ''a''),
      ARun 2 None 1, ARun 3 None 1, ARun 2 None 1, ARun 3 None 1, ARun 3 None 1, ARun 2 None 1,
      ARun 1 None 2]"

text \<open>
  The store and the waiter can disagree: there is an interleaving of one addition, one wait, one
  approval and one denial after which the store holds the command as approved and the wait answered
  denied.
\<close>

theorem store_and_waiter_disagree:
  "\<exists>q ps s. reachable (q, ps) \<and> q_store q = Some s \<and>
     map_option sp_Status (lookup_row s ''a'') = Some ''approved'' \<and>
     (CWait ''a'', WaitReturned DecisionDenied) \<in> set ps"
proof -
  let ?start = "(NewPersistentQueue 60 empty_store, [])"
  let ?s = "the (run_schedule split_schedule ?start)"
  have run: "run_schedule split_schedule ?start = Some ?s" by code_simp
  have "reachable ?s" by (rule run_schedule_reachable [OF reachable.Persistent run])
  moreover have "(case q_store (fst ?s) of Some s \<Rightarrow> map_option sp_Status (lookup_row s ''a'') | None \<Rightarrow> None)
      = Some ''approved''" by code_simp
  moreover have "(CWait ''a'', WaitReturned DecisionDenied) \<in> set (snd ?s)" by code_simp
  ultimately show ?thesis by (metis (no_types, lifting) option.case_eq_if option.collapse option.distinct(1) prod.collapse)
qed

end
