(* ===== verification/Notifier.thy ===== *)
theory Notifier
  imports Approval
begin

text \<open>
  The webhook notifier (internal/approval/notifier.go): the payloads, the wrapping for Discord and the
  loop over the webhooks. Building a request and sending it are parameters: \<open>send\<close> gives an error or
  the status code of the answer. \<open>fmt_time\<close> is \<^verbatim>\<open>Format(time.RFC3339)\<close>.
\<close>

record WebhookConfig =
  wh_URL :: string
  wh_Method :: string
  wh_Headers :: "(string \<times> string) list"

record webhook_request =
  wq_Method :: string
  wq_URL :: string
  wq_Headers :: "(string \<times> string) list"
  wq_Body :: json

datatype webhook_error =
    CreateFailed string
  | SendFailed string
  | BadStatus nat

text \<open>The payloads hold strings only, so \<^verbatim>\<open>%v\<close> of an entry is its text, or \<open><nil>\<close>.\<close>

type_synonym payload = "(string \<times> string) list"

definition fmt_v :: "string option \<Rightarrow> string" where
  "fmt_v v = (case v of Some s \<Rightarrow> s | None \<Rightarrow> ''<nil>'')"

definition json_opt :: "string option \<Rightarrow> json" where
  "json_opt v = (case v of Some s \<Rightarrow> JStr s | None \<Rightarrow> JNull)"

definition siren :: string where
  "siren = [CHR 0xF0, CHR 0x9F, CHR 0x9A, CHR 0xA8]"

definition cross_mark :: string where
  "cross_mark = [CHR 0xE2, CHR 0x9D, CHR 0x8C]"

definition check_mark :: string where
  "check_mark = [CHR 0xE2, CHR 0x9C, CHR 0x85]"

definition isDiscordWebhook :: "string \<Rightarrow> bool" where
  "isDiscordWebhook url \<longleftrightarrow> length url > 30 \<and> take 30 url = ''https://discord.com/api/webhoo''"

definition wrapForDiscord :: "payload \<Rightarrow> json" where
  "wrapForDiscord p =
     JObj [(''content'', JStr (case map_of p ''message'' of Some m \<Rightarrow> m | None \<Rightarrow> [])),
       (''embeds'', JArr [JObj [
          (''title'', JStr ''Parachute Alert''),
          (''description'', JStr (''**Command:** `'' @ fmt_v (map_of p ''command'') @ [CHR ''`'', CHR 0x0A]
             @ ''**ID:** '' @ fmt_v (map_of p ''id''))),
          (''color'', JNum ''16744256''),
          (''fields'', JArr [JObj [(''name'', JStr ''Reason''), (''value'', json_opt (map_of p ''reason'')),
             (''inline'', JBool True)]])]])]"

definition plain_body :: "payload \<Rightarrow> json" where
  "plain_body p = JObj (map (\<lambda>(k, v). (k, JStr v)) p)"

definition webhook_request :: "WebhookConfig \<Rightarrow> payload \<Rightarrow> webhook_request" where
  "webhook_request wh p =
     \<lparr>wq_Method = (if wh_Method wh = [] then ''POST'' else wh_Method wh),
      wq_URL = wh_URL wh,
      wq_Headers = (''Content-Type'', ''application/json'') # wh_Headers wh,
      wq_Body = (if isDiscordWebhook (wh_URL wh) then wrapForDiscord p else plain_body p)\<rparr>"

definition sendWebhook ::
  "(webhook_request \<Rightarrow> string option) \<Rightarrow> (webhook_request \<Rightarrow> string + nat) \<Rightarrow>
   WebhookConfig \<Rightarrow> payload \<Rightarrow> webhook_error option" where
  "sendWebhook new_request send wh p =
     (let req = webhook_request wh p in
      case new_request req of
        Some e \<Rightarrow> Some (CreateFailed e)
      | None \<Rightarrow>
          (case send req of
             Inl e \<Rightarrow> Some (SendFailed e)
           | Inr code \<Rightarrow> if code \<ge> 400 then Some (BadStatus code) else None))"

text \<open>The loop: every webhook is tried, the last error is kept.\<close>

fun notify_all :: "(WebhookConfig \<Rightarrow> webhook_error option) \<Rightarrow> WebhookConfig list \<Rightarrow> webhook_error option
    \<Rightarrow> webhook_error option" where
  "notify_all f [] lastErr = lastErr"
| "notify_all f (wh # whs) lastErr =
     notify_all f whs (case f wh of Some e \<Rightarrow> Some e | None \<Rightarrow> lastErr)"

definition pending_payload :: "(int \<Rightarrow> string) \<Rightarrow> PendingCommand \<Rightarrow> payload" where
  "pending_payload fmt_time pc =
     [(''type'', ''pending_approval''), (''id'', pc_ID pc), (''command'', pc_Command pc),
      (''tool_name'', pc_ToolName pc), (''reason'', pc_Reason pc),
      (''created_at'', fmt_time (pc_CreatedAt pc)), (''expires_at'', fmt_time (pc_ExpiresAt pc)),
      (''message'', siren @ '' Command requires approval: `'' @ pc_Command pc @ ''`'')]"

definition NotifyPending ::
  "(int \<Rightarrow> string) \<Rightarrow> (webhook_request \<Rightarrow> string option) \<Rightarrow> (webhook_request \<Rightarrow> string + nat) \<Rightarrow>
   WebhookConfig list \<Rightarrow> PendingCommand \<Rightarrow> webhook_error option" where
  "NotifyPending fmt_time new_request send webhooks pc =
     (if webhooks = [] then None
      else notify_all (\<lambda>wh. sendWebhook new_request send wh (pending_payload fmt_time pc)) webhooks None)"

definition decision_payload :: "string \<Rightarrow> bool \<Rightarrow> payload" where
  "decision_payload cid approved =
     (let decision = (if approved then ''approved'' else ''denied'');
          emoji = (if approved then check_mark else cross_mark)
      in [(''type'', ''decision''), (''id'', cid), (''decision'', decision),
          (''message'', emoji @ '' Command '' @ decision @ '': '' @ cid)])"

definition NotifyDecision ::
  "(webhook_request \<Rightarrow> string option) \<Rightarrow> (webhook_request \<Rightarrow> string + nat) \<Rightarrow>
   WebhookConfig list \<Rightarrow> string \<Rightarrow> bool \<Rightarrow> webhook_error option" where
  "NotifyDecision new_request send webhooks cid approved =
     (if webhooks = [] then None
      else notify_all (\<lambda>wh. sendWebhook new_request send wh (decision_payload cid approved)) webhooks None)"

lemma notify_all_last:
  "notify_all f whs e0 = (case List.map_filter f (rev whs) of e # _ \<Rightarrow> Some e | [] \<Rightarrow> e0)"
proof (induction whs arbitrary: e0)
  case Nil
  then show ?case by (simp add: List.map_filter_def)
next
  case (Cons wh whs)
  have "List.map_filter f (xs @ ys) = List.map_filter f xs @ List.map_filter f ys" for xs ys
    by (simp add: List.map_filter_def)
  then show ?case by (cases "f wh") (simp_all add: Cons.IH List.map_filter_simps split: list.split)
qed

text \<open>
  Notifying a pending command reports no error exactly when every configured webhook took the
  request with a status below 400, whatever happened at the webhooks before.
\<close>

theorem NotifyPending_ok_iff:
  "NotifyPending fmt_time new_request send webhooks pc = None \<longleftrightarrow>
     list_all (\<lambda>wh. let req = webhook_request wh (pending_payload fmt_time pc) in
        new_request req = None \<and> (case send req of Inl _ \<Rightarrow> False | Inr code \<Rightarrow> code < 400)) webhooks"
proof -
  have "notify_all f whs None = None \<longleftrightarrow> list_all (\<lambda>wh. f wh = None) whs" for f :: "WebhookConfig \<Rightarrow> webhook_error option" and whs
  proof -
    have "List.map_filter f (rev whs) = [] \<longleftrightarrow> list_all (\<lambda>wh. f wh = None) whs"
      by (auto simp: List.map_filter_def list_all_iff filter_empty_conv)
    then show ?thesis by (auto simp: notify_all_last split: list.splits)
  qed
  moreover have "sendWebhook new_request send wh p = None \<longleftrightarrow>
      new_request (webhook_request wh p) = None \<and>
      (case send (webhook_request wh p) of Inl _ \<Rightarrow> False | Inr code \<Rightarrow> code < 400)" for wh p
    by (auto simp: sendWebhook_def Let_def split: option.splits sum.splits)
  ultimately show ?thesis by (simp add: NotifyPending_def Let_def)
qed

end
