(* ===== verification/Hash_Chain.thy ===== *)
theory Hash_Chain
  imports Prelude
begin

text \<open>
  Hash-linked sequences of records, the shape the audit log and the decision records share: each
  record names the hash of the one before it, the first a fixed genesis value. \<open>linked_from\<close> is the
  specification of the linkage; the locale is what the users of a validator rely on, whatever it
  checks of the single records besides.
\<close>

fun linked_from :: "('e \<Rightarrow> 'h) \<Rightarrow> ('e \<Rightarrow> 'h) \<Rightarrow> 'h \<Rightarrow> 'e list \<Rightarrow> bool" where
  "linked_from prev hash g [] = True"
| "linked_from prev hash g (e # es) = (prev e = g \<and> linked_from prev hash (hash e) es)"

text \<open>The hash the next record must name.\<close>

definition head_of :: "('e \<Rightarrow> 'h) \<Rightarrow> 'h \<Rightarrow> 'e list \<Rightarrow> 'h" where
  "head_of hash g es = (if es = [] then g else hash (last es))"

lemma head_of_simps [simp]:
  "head_of hash g [] = g" "head_of hash g (es @ [e]) = hash e"
  "head_of hash g (e # es) = head_of hash (hash e) es"
  by (simp_all add: head_of_def)

lemma linked_from_append:
  "linked_from prev hash g (es @ fs) \<longleftrightarrow>
     linked_from prev hash g es \<and> linked_from prev hash (head_of hash g es) fs"
  by (induction es arbitrary: g) simp_all

lemma linked_from_nth:
  "linked_from prev hash g es \<longleftrightarrow>
     (es \<noteq> [] \<longrightarrow> prev (es ! 0) = g) \<and> (\<forall>i. 0 < i \<and> i < length es \<longrightarrow> prev (es ! i) = hash (es ! (i - 1)))"
proof (induction es arbitrary: g)
  case Nil
  then show ?case by simp
next
  case (Cons e es)
  have "(\<forall>i. 0 < i \<and> i < length (e # es) \<longrightarrow> prev ((e # es) ! i) = hash ((e # es) ! (i - 1))) \<longleftrightarrow>
      (es \<noteq> [] \<longrightarrow> prev (es ! 0) = hash e) \<and> (\<forall>i. 0 < i \<and> i < length es \<longrightarrow> prev (es ! i) = hash (es ! (i - 1)))"
    (is "?L \<longleftrightarrow> ?R")
  proof
    assume l: ?L
    have "prev (es ! i) = hash (es ! (i - 1))" if "0 < i" "i < length es" for i
      using l [rule_format, of "Suc i"] that by (cases i) simp_all
    moreover have "es \<noteq> [] \<Longrightarrow> prev (es ! 0) = hash e" using l [rule_format, of 1] by simp
    ultimately show ?R by blast
  next
    assume r: ?R
    show ?L
    proof (intro allI impI)
      fix i assume i: "0 < i \<and> i < length (e # es)"
      then obtain j where j: "i = Suc j" by (cases i) auto
      with i r show "prev ((e # es) ! i) = hash ((e # es) ! (i - 1))"
        by (cases j) auto
    qed
  qed
  then show ?case by (simp add: Cons.IH)
qed

locale chain_validator =
  fixes prev :: "'e \<Rightarrow> 'h"
    and hash :: "'e \<Rightarrow> 'h"
    and genesis :: 'h
    and ok :: "nat \<Rightarrow> 'e \<Rightarrow> bool"
    and valid :: "'e list \<Rightarrow> bool"
  assumes valid_iff: "valid es \<longleftrightarrow> linked_from prev hash genesis es \<and> (\<forall>i < length es. ok i (es ! i))"
begin

lemma valid_Nil: "valid []"
  by (simp add: valid_iff)

lemma valid_prefix: "valid (es @ fs) \<Longrightarrow> valid es"
  unfolding valid_iff linked_from_append by (metis length_append nth_append trans_less_add1)

lemma valid_snoc:
  "valid (es @ [e]) \<longleftrightarrow> valid es \<and> prev e = head_of hash genesis es \<and> ok (length es) e"
  by (auto simp: valid_iff linked_from_append nth_append less_Suc_eq)

text \<open>Records cut out of the middle go unnoticed only when a hash value occurs twice.\<close>

lemma cut_repeats_hash:
  assumes "valid (xs @ ys @ zs)" "valid (xs @ zs)" "zs \<noteq> []"
  shows "head_of hash genesis (xs @ ys) = head_of hash genesis xs"
proof -
  from assms(3) obtain z zs' where zs: "zs = z # zs'" by (cases zs) auto
  from assms(1) have "linked_from prev hash genesis ((xs @ ys) @ zs)" by (simp add: valid_iff)
  then have "prev z = head_of hash genesis (xs @ ys)" unfolding linked_from_append zs by simp
  moreover from assms(2) have "linked_from prev hash genesis (xs @ zs)" by (simp add: valid_iff)
  then have "prev z = head_of hash genesis xs" unfolding linked_from_append zs by simp
  ultimately show ?thesis by simp
qed

text \<open>One record replaced by one with another hash is noticed, unless it is the last.\<close>

lemma replace_noticed:
  assumes "valid (xs @ y # z # zs)" "hash y' \<noteq> hash y"
  shows "\<not> valid (xs @ y' # z # zs)"
  using assms by (auto simp: valid_iff linked_from_append)

end

end
