(* ===== verification/Audit_Chain.thy ===== *)
theory Audit_Chain
  imports Hash_Chain Go_Strings "HOL-Library.Word"
begin

text \<open>
  The audit log (internal/audit/logger.go, internal/audit/hashchain.go) and its verifier
  (cmd/parachute-verify/main.go).

  Parameters: \<open>hexsha\<close> is \<^verbatim>\<open>hex.EncodeToString(sha256(...))\<close>, \<open>fmt_time\<close> is
  \<^verbatim>\<open>Format(time.RFC3339Nano)\<close>, the clock, the fresh correlation identifier, and what the
  writer and the JSON decoder answer. A time is a number of nanoseconds, zero the zero time.
\<close>

section \<open>Events\<close>

datatype EventType =
    EventIngressAllow | EventIngressDeny | EventCommandBlock | EventCommandPending
  | EventCommandApprove | EventCommandDeny | EventCommandExpire | EventEgressAllow | EventEgressDeny
  | EventPIIScrub | EventRateLimit | EventAuthFail | EventMCPToolCall | EventMCPToolBlock
  | EventMCPToolPending | EventMCPToolApprove | EventMCPToolDeny | EventMCPResourceRead
  | EventMCPResourceBlock | EventOther string

primrec event_text :: "EventType \<Rightarrow> string" where
  "event_text EventIngressAllow = ''ingress_allow''"
| "event_text EventIngressDeny = ''ingress_deny''"
| "event_text EventCommandBlock = ''command_block''"
| "event_text EventCommandPending = ''command_pending''"
| "event_text EventCommandApprove = ''command_approve''"
| "event_text EventCommandDeny = ''command_deny''"
| "event_text EventCommandExpire = ''command_expire''"
| "event_text EventEgressAllow = ''egress_allow''"
| "event_text EventEgressDeny = ''egress_deny''"
| "event_text EventPIIScrub = ''pii_scrub''"
| "event_text EventRateLimit = ''rate_limit''"
| "event_text EventAuthFail = ''auth_fail''"
| "event_text EventMCPToolCall = ''mcp_tool_call''"
| "event_text EventMCPToolBlock = ''mcp_tool_block''"
| "event_text EventMCPToolPending = ''mcp_tool_pending''"
| "event_text EventMCPToolApprove = ''mcp_tool_approve''"
| "event_text EventMCPToolDeny = ''mcp_tool_deny''"
| "event_text EventMCPResourceRead = ''mcp_resource_read''"
| "event_text EventMCPResourceBlock = ''mcp_resource_block''"
| "event_text (EventOther s) = s"

record Event =
  ev_Timestamp :: int
  ev_EventType :: EventType
  ev_CorrelationID :: string
  ev_ClientIP :: string
  ev_Method :: string
  ev_Path :: string
  ev_Command :: string
  ev_CommandID :: string
  ev_ToolName :: string
  ev_Action :: string
  ev_Reason :: string
  ev_Domain :: string
  ev_Pattern :: string
  ev_Details :: "(string \<times> string) list"
  ev_Duration :: int

definition blank_event :: "EventType \<Rightarrow> Event" where
  "blank_event t =
     \<lparr>ev_Timestamp = 0, ev_EventType = t, ev_CorrelationID = [], ev_ClientIP = [], ev_Method = [],
      ev_Path = [], ev_Command = [], ev_CommandID = [], ev_ToolName = [], ev_Action = [],
      ev_Reason = [], ev_Domain = [], ev_Pattern = [], ev_Details = [], ev_Duration = 0\<rparr>"

text \<open>What both loggers do to the event first: a time and a correlation identifier when it has none.\<close>

definition stamp :: "int \<Rightarrow> string \<Rightarrow> Event \<Rightarrow> Event" where
  "stamp now cid e =
     (let e1 = (if ev_Timestamp e = 0 then e\<lparr>ev_Timestamp := now\<rparr> else e)
      in if ev_CorrelationID e1 = [] then e1\<lparr>ev_CorrelationID := cid\<rparr> else e1)"

section \<open>The plain logger\<close>

text \<open>
  The lines written so far. \<open>io\<close> is the answer of the encoder: an event that cannot be written is
  lost with a message on the program's own log.
\<close>

record Logger =
  lg_output :: "Event list"

definition NewLogger :: Logger where
  "NewLogger = \<lparr>lg_output = []\<rparr>"

definition Logger_Log :: "string option \<Rightarrow> int \<Rightarrow> string \<Rightarrow> Event \<Rightarrow> Logger \<Rightarrow> Logger" where
  "Logger_Log io now cid e l =
     (case io of None \<Rightarrow> l\<lparr>lg_output := lg_output l @ [stamp now cid e]\<rparr> | Some _ \<Rightarrow> l)"

text \<open>A logger on a file begins where the file ends; \<open>open_error\<close> is the error of opening it.\<close>

definition NewFileLogger :: "string option \<Rightarrow> string + Logger" where
  "NewFileLogger open_error = (case open_error of Some e \<Rightarrow> Inl e | None \<Rightarrow> Inr NewLogger)"

text \<open>The first eight characters of a fresh identifier.\<close>

definition GenerateCorrelationID :: "string \<Rightarrow> string" where
  "GenerateCorrelationID uuid = take 8 uuid"

definition DefaultLogger :: Logger where
  "DefaultLogger = NewLogger"

definition LogIngress :: "bool \<Rightarrow> string \<Rightarrow> string \<Rightarrow> string \<Rightarrow> string \<Rightarrow> string \<Rightarrow> Event" where
  "LogIngress allowed correlationID clientIP meth path reason =
     (blank_event (if allowed then EventIngressAllow else EventIngressDeny))
       \<lparr>ev_CorrelationID := correlationID, ev_ClientIP := clientIP, ev_Method := meth,
        ev_Path := path, ev_Reason := reason\<rparr>"

definition LogCommand :: "EventType \<Rightarrow> string \<Rightarrow> string \<Rightarrow> string \<Rightarrow> string \<Rightarrow> string \<Rightarrow> Event" where
  "LogCommand t correlationID commandID command toolName reason =
     (blank_event t)\<lparr>ev_CorrelationID := correlationID, ev_CommandID := commandID,
        ev_Command := command, ev_ToolName := toolName, ev_Reason := reason\<rparr>"

definition LogEgress :: "bool \<Rightarrow> string \<Rightarrow> string \<Rightarrow> string \<Rightarrow> Event" where
  "LogEgress allowed correlationID domain reason =
     (blank_event (if allowed then EventEgressAllow else EventEgressDeny))
       \<lparr>ev_CorrelationID := correlationID, ev_Domain := domain, ev_Reason := reason\<rparr>"

definition LogPII :: "string \<Rightarrow> string \<Rightarrow> Event" where
  "LogPII correlationID pattern =
     (blank_event EventPIIScrub)\<lparr>ev_CorrelationID := correlationID, ev_Pattern := pattern,
        ev_Reason := ''PII detected and blocked''\<rparr>"

definition LogAuth :: "string \<Rightarrow> string \<Rightarrow> string \<Rightarrow> Event" where
  "LogAuth correlationID clientIP reason =
     (blank_event EventAuthFail)\<lparr>ev_CorrelationID := correlationID, ev_ClientIP := clientIP,
        ev_Reason := reason\<rparr>"

definition LogRateLimit :: "string \<Rightarrow> string \<Rightarrow> Event" where
  "LogRateLimit correlationID clientIP =
     (blank_event EventRateLimit)\<lparr>ev_CorrelationID := correlationID, ev_ClientIP := clientIP,
        ev_Reason := ''rate limit exceeded''\<rparr>"

text \<open>The quick access functions, as the events they hand to the default logger.\<close>

definition LogIngressAllow :: "string \<Rightarrow> string \<Rightarrow> string \<Rightarrow> string \<Rightarrow> Event" where
  "LogIngressAllow correlationID clientIP meth path = LogIngress True correlationID clientIP meth path []"

definition LogIngressDeny :: "string \<Rightarrow> string \<Rightarrow> string \<Rightarrow> string \<Rightarrow> string \<Rightarrow> Event" where
  "LogIngressDeny correlationID clientIP meth path reason =
     LogIngress False correlationID clientIP meth path reason"

definition LogCommandBlock :: "string \<Rightarrow> string \<Rightarrow> string \<Rightarrow> string \<Rightarrow> string \<Rightarrow> Event" where
  "LogCommandBlock = LogCommand EventCommandBlock"

definition LogCommandPending :: "string \<Rightarrow> string \<Rightarrow> string \<Rightarrow> string \<Rightarrow> string \<Rightarrow> Event" where
  "LogCommandPending = LogCommand EventCommandPending"

definition LogCommandApprove :: "string \<Rightarrow> string \<Rightarrow> string \<Rightarrow> string \<Rightarrow> Event" where
  "LogCommandApprove correlationID commandID command toolName =
     LogCommand EventCommandApprove correlationID commandID command toolName []"

definition LogCommandDenyAction :: "string \<Rightarrow> string \<Rightarrow> string \<Rightarrow> string \<Rightarrow> Event" where
  "LogCommandDenyAction correlationID commandID command toolName =
     LogCommand EventCommandDeny correlationID commandID command toolName []"

definition LogCommandExpire :: "string \<Rightarrow> string \<Rightarrow> string \<Rightarrow> string \<Rightarrow> Event" where
  "LogCommandExpire correlationID commandID command toolName =
     LogCommand EventCommandExpire correlationID commandID command toolName ''timeout''"

definition LogEgressAllow :: "string \<Rightarrow> string \<Rightarrow> Event" where
  "LogEgressAllow correlationID domain = LogEgress True correlationID domain []"

definition LogEgressDeny :: "string \<Rightarrow> string \<Rightarrow> string \<Rightarrow> Event" where
  "LogEgressDeny correlationID domain reason = LogEgress False correlationID domain reason"

definition LogPIIDetected :: "string \<Rightarrow> string \<Rightarrow> Event" where
  "LogPIIDetected = LogPII"

definition LogAuthFailure :: "string \<Rightarrow> string \<Rightarrow> string \<Rightarrow> Event" where
  "LogAuthFailure = LogAuth"

definition LogRateLimited :: "string \<Rightarrow> string \<Rightarrow> Event" where
  "LogRateLimited = LogRateLimit"

section \<open>The hash chain\<close>

record IntegrityInfo =
  in_PrevHash :: string
  in_Hash :: string
  in_Seq :: "64 word"

record HashChainEvent =
  he_Event :: Event
  he_Integrity :: IntegrityInfo

text \<open>What is written: an entry, or the line that reports a failed entry.\<close>

datatype log_line = Entry HashChainEvent | ErrorLine string

record HashChainLogger =
  hl_output :: "log_line list"
  hl_prevHash :: string
  hl_seq :: "64 word"

definition NewHashChainLogger :: HashChainLogger where
  "NewHashChainLogger = \<lparr>hl_output = [], hl_prevHash = ''genesis'', hl_seq = 0\<rparr>"

text \<open>The bytes that are hashed, in the order of the calls of \<^verbatim>\<open>h.Write\<close>.\<close>

definition hash_input :: "(int \<Rightarrow> string) \<Rightarrow> HashChainEvent \<Rightarrow> string" where
  "hash_input fmt_time h =
     (let e = he_Event h; i = he_Integrity h in
      in_PrevHash i @ int_dec (sint (in_Seq i)) @ fmt_time (ev_Timestamp e) @
      event_text (ev_EventType e) @ ev_CorrelationID e @ ev_Command e @ ev_CommandID e @
      ev_ToolName e @ ev_Reason e @ ev_Domain e @ ev_ClientIP e @ ev_Method e @ ev_Path e)"

definition computeHash :: "(string \<Rightarrow> string) \<Rightarrow> (int \<Rightarrow> string) \<Rightarrow> HashChainEvent \<Rightarrow> string" where
  "computeHash hexsha fmt_time h = hexsha (hash_input fmt_time h)"

text \<open>
  \<open>Log\<close> under the lock. \<open>io\<close> is the encoder's error and whether the line that reports it gets through;
  the chain has moved on by then.
\<close>

definition HashChain_Log ::
  "(string \<Rightarrow> string) \<Rightarrow> (int \<Rightarrow> string) \<Rightarrow> (string \<times> bool) option \<Rightarrow> int \<Rightarrow> string \<Rightarrow> Event \<Rightarrow>
   HashChainLogger \<Rightarrow> HashChainLogger" where
  "HashChain_Log hexsha fmt_time io now cid e l =
     (let seq = hl_seq l + 1;
          h0 = \<lparr>he_Event = stamp now cid e,
                he_Integrity = \<lparr>in_PrevHash = hl_prevHash l, in_Hash = [], in_Seq = seq\<rparr>\<rparr>;
          hash = computeHash hexsha fmt_time h0;
          h1 = h0\<lparr>he_Integrity := (he_Integrity h0)\<lparr>in_Hash := hash\<rparr>\<rparr>;
          l1 = l\<lparr>hl_seq := seq, hl_prevHash := hash\<rparr>
      in case io of
           None \<Rightarrow> l1\<lparr>hl_output := hl_output l1 @ [Entry h1]\<rparr>
         | Some (err, through) \<Rightarrow>
             if through then l1\<lparr>hl_output := hl_output l1 @ [ErrorLine err]\<rparr> else l1)"

datatype chain_error =
    NoGenesis "64 word" string
  | HashMismatch "64 word" string string
  | BrokenLink "64 word"
  | WrongSeq "64 word" "64 word"

text \<open>The loop of \<open>VerifyChain\<close> from index \<open>i\<close>, with the entry before it.\<close>

fun verify_loop ::
  "(HashChainEvent \<Rightarrow> string) \<Rightarrow> nat \<Rightarrow> HashChainEvent option \<Rightarrow> HashChainEvent list \<Rightarrow> chain_error option" where
  "verify_loop compute i before [] = None"
| "verify_loop compute i before (e # es) =
     (let info = he_Integrity e; expected = compute (e\<lparr>he_Integrity := info\<lparr>in_Hash := []\<rparr>\<rparr>) in
      if in_Hash info \<noteq> expected then Some (HashMismatch (in_Seq info) expected (in_Hash info))
      else if (case before of Some b \<Rightarrow> in_PrevHash info \<noteq> in_Hash (he_Integrity b) | None \<Rightarrow> False)
        then Some (BrokenLink (in_Seq info))
      else if in_Seq info \<noteq> of_nat (i + 1) then Some (WrongSeq (in_Seq info) (of_nat (i + 1)))
      else verify_loop compute (i + 1) (Some e) es)"

definition VerifyChain ::
  "(string \<Rightarrow> string) \<Rightarrow> (int \<Rightarrow> string) \<Rightarrow> HashChainEvent list \<Rightarrow> chain_error option" where
  "VerifyChain hexsha fmt_time events =
     (case events of
        [] \<Rightarrow> None
      | e # _ \<Rightarrow>
          if in_PrevHash (he_Integrity e) \<noteq> ''genesis''
          then Some (NoGenesis (in_Seq (he_Integrity e)) (in_PrevHash (he_Integrity e)))
          else verify_loop (computeHash hexsha fmt_time) 0 None events)"

section \<open>The command-line verifier\<close>

datatype verify_report =
    Usage
  | OpenFailed string
  | LineFailed nat string
  | ReadFailed string
  | Violation chain_error
  | Verified nat

primrec exit_code :: "verify_report \<Rightarrow> nat" where
  "exit_code Usage = 1"
| "exit_code (OpenFailed _) = 1"
| "exit_code (LineFailed _ _) = 1"
| "exit_code (ReadFailed _) = 1"
| "exit_code (Violation _) = 2"
| "exit_code (Verified _) = 0"

text \<open>The loop over the lines: empty lines are skipped but counted.\<close>

fun scan_lines ::
  "(string \<Rightarrow> string + HashChainEvent) \<Rightarrow> nat \<Rightarrow> string list \<Rightarrow> verify_report + HashChainEvent list" where
  "scan_lines decode n [] = Inr []"
| "scan_lines decode n (line # rest) =
     (if line = [] then scan_lines decode (n + 1) rest
      else (case decode line of
              Inl e \<Rightarrow> Inl (LineFailed (n + 1) e)
            | Inr ev \<Rightarrow> (case scan_lines decode (n + 1) rest of
                            Inl r \<Rightarrow> Inl r | Inr evs \<Rightarrow> Inr (ev # evs))))"

text \<open>\<open>open_file\<close> gives the lines the scanner yields and its error at the end, if any.\<close>

definition verify_main ::
  "(string \<Rightarrow> string + string list \<times> string option) \<Rightarrow> (string \<Rightarrow> string + HashChainEvent) \<Rightarrow>
   (string \<Rightarrow> string) \<Rightarrow> (int \<Rightarrow> string) \<Rightarrow> string \<Rightarrow> verify_report" where
  "verify_main open_file decode hexsha fmt_time path =
     (if path = [] then Usage
      else (case open_file path of
              Inl e \<Rightarrow> OpenFailed e
            | Inr (lines, scan_err) \<Rightarrow>
                (case scan_lines decode 0 lines of
                   Inl r \<Rightarrow> r
                 | Inr events \<Rightarrow>
                     (case scan_err of
                        Some e \<Rightarrow> ReadFailed e
                      | None \<Rightarrow>
                          (case VerifyChain hexsha fmt_time events of
                             Some e \<Rightarrow> Violation e
                           | None \<Rightarrow> Verified (length events))))))"

section \<open>The verifier against the linkage\<close>

definition entry_prev :: "HashChainEvent \<Rightarrow> string" where
  "entry_prev h = in_PrevHash (he_Integrity h)"

definition entry_hash :: "HashChainEvent \<Rightarrow> string" where
  "entry_hash h = in_Hash (he_Integrity h)"

definition entry_ok :: "(string \<Rightarrow> string) \<Rightarrow> (int \<Rightarrow> string) \<Rightarrow> nat \<Rightarrow> HashChainEvent \<Rightarrow> bool" where
  "entry_ok hexsha fmt_time i h \<longleftrightarrow>
     entry_hash h = computeHash hexsha fmt_time h \<and> in_Seq (he_Integrity h) = of_nat (i + 1)"

lemma computeHash_Hash [simp]:
  "computeHash hexsha fmt_time (h\<lparr>he_Integrity := (he_Integrity h)\<lparr>in_Hash := x\<rparr>\<rparr>) = computeHash hexsha fmt_time h"
  by (simp add: computeHash_def hash_input_def Let_def)

lemma verify_loop_Some:
  "verify_loop (computeHash hexsha fmt_time) i (Some b) es = None \<longleftrightarrow>
     linked_from entry_prev entry_hash (entry_hash b) es \<and> (\<forall>j < length es. entry_ok hexsha fmt_time (i + j) (es ! j))"
proof (induction es arbitrary: i b)
  case Nil
  then show ?case by simp
next
  case (Cons e es)
  have all: "(\<forall>j < length (e # es). P (i + j) ((e # es) ! j)) \<longleftrightarrow> P i e \<and> (\<forall>j < length es. P (Suc i + j) (es ! j))"
    for P :: "nat \<Rightarrow> HashChainEvent \<Rightarrow> bool"
    by (auto simp: nth_Cons split: nat.splits)
  show ?case
    unfolding all linked_from.simps
    by (auto simp: Let_def Cons.IH entry_ok_def simp flip: entry_prev_def entry_hash_def)
qed

lemma VerifyChain_iff:
  "VerifyChain hexsha fmt_time es = None \<longleftrightarrow>
     linked_from entry_prev entry_hash ''genesis'' es \<and> (\<forall>i < length es. entry_ok hexsha fmt_time i (es ! i))"
proof (cases es)
  case Nil
  then show ?thesis by (simp add: VerifyChain_def)
next
  case (Cons e rest)
  have all: "(\<forall>j < length (e # rest). P j ((e # rest) ! j)) \<longleftrightarrow> P 0 e \<and> (\<forall>j < length rest. P (1 + j) (rest ! j))"
    for P :: "nat \<Rightarrow> HashChainEvent \<Rightarrow> bool"
    by (auto simp: nth_Cons split: nat.splits)
  show ?thesis
    unfolding Cons all linked_from.simps
    by (auto simp: VerifyChain_def Let_def verify_loop_Some entry_ok_def simp flip: entry_prev_def entry_hash_def)
qed

interpretation audit_chain: chain_validator entry_prev entry_hash "''genesis''" "entry_ok hexsha fmt_time"
  "\<lambda>es. VerifyChain hexsha fmt_time es = None" for hexsha fmt_time
  by unfold_locales (rule VerifyChain_iff)

section \<open>What the logger writes\<close>

fun entries :: "log_line list \<Rightarrow> HashChainEvent list" where
  "entries [] = []"
| "entries (Entry h # ls) = h # entries ls"
| "entries (ErrorLine _ # ls) = entries ls"

lemma entries_append [simp]: "entries (xs @ ys) = entries xs @ entries ys"
  by (induction xs rule: entries.induct) simp_all

text \<open>A logger all of whose writes succeeded.\<close>

definition logger_inv :: "(string \<Rightarrow> string) \<Rightarrow> (int \<Rightarrow> string) \<Rightarrow> HashChainLogger \<Rightarrow> bool" where
  "logger_inv hexsha fmt_time l \<longleftrightarrow>
     VerifyChain hexsha fmt_time (entries (hl_output l)) = None \<and>
     hl_prevHash l = head_of entry_hash ''genesis'' (entries (hl_output l)) \<and>
     hl_seq l = of_nat (length (entries (hl_output l)))"

lemma logger_inv_Log:
  "logger_inv hexsha fmt_time l \<Longrightarrow> logger_inv hexsha fmt_time (HashChain_Log hexsha fmt_time None now cid e l)"
  by (simp add: logger_inv_def HashChain_Log_def Let_def audit_chain.valid_snoc entry_prev_def entry_hash_def
      entry_ok_def computeHash_def hash_input_def add.commute)

definition log_all ::
  "(string \<Rightarrow> string) \<Rightarrow> (int \<Rightarrow> string) \<Rightarrow> (int \<times> string \<times> Event) list \<Rightarrow> HashChainLogger \<Rightarrow> HashChainLogger" where
  "log_all hexsha fmt_time evs l = fold (\<lambda>(now, cid, e). HashChain_Log hexsha fmt_time None now cid e) evs l"

lemma logger_inv_log_all:
  "logger_inv hexsha fmt_time l \<Longrightarrow> logger_inv hexsha fmt_time (log_all hexsha fmt_time evs l)"
  by (induction evs arbitrary: l) (auto simp: log_all_def logger_inv_Log)

lemma logger_inv_new: "logger_inv hexsha fmt_time NewHashChainLogger"
  by (simp add: logger_inv_def NewHashChainLogger_def VerifyChain_def)

lemma entries_log_all:
  "map he_Event (entries (hl_output (log_all hexsha fmt_time evs l))) =
     map he_Event (entries (hl_output l)) @ map (\<lambda>(now, cid, e). stamp now cid e) evs"
proof (induction evs arbitrary: l)
  case Nil
  then show ?case by (simp add: log_all_def)
next
  case (Cons x evs)
  obtain now cid e where x: "x = (now, cid, e)" by (cases x)
  have "log_all hexsha fmt_time (x # evs) l
      = log_all hexsha fmt_time evs (HashChain_Log hexsha fmt_time None now cid e l)"
    by (simp add: log_all_def x)
  then show ?case using Cons.IH by (simp add: x HashChain_Log_def Let_def)
qed

section \<open>Properties\<close>

text \<open>
  C14. Whatever is logged verifies: for every sequence of events, clocks and identifiers, the entries a
  fresh hash-chain logger writes are the stamped events in order, and the verifier accepts them,
  whatever the hash function is and also when the 64-bit sequence number wraps.
\<close>

theorem logged_chain_verifies:
  "let out = entries (hl_output (log_all hexsha fmt_time evs NewHashChainLogger)) in
   VerifyChain hexsha fmt_time out = None \<and> map he_Event out = map (\<lambda>(now, cid, e). stamp now cid e) evs"
  using logger_inv_log_all [OF logger_inv_new] entries_log_all [of hexsha fmt_time evs NewHashChainLogger]
  by (simp add: Let_def logger_inv_def) (simp add: NewHashChainLogger_def)

text \<open>The bytes before the previous hash in the hashed text.\<close>

definition hash_rest :: "(int \<Rightarrow> string) \<Rightarrow> HashChainEvent \<Rightarrow> string" where
  "hash_rest fmt_time h = drop (length (entry_prev h)) (hash_input fmt_time h)"

lemma hash_input_split: "hash_input fmt_time h = entry_prev h @ hash_rest fmt_time h"
  by (simp add: hash_rest_def hash_input_def entry_prev_def Let_def)

text \<open>
  C22. The last hash binds the whole log: two logs of the same length that verify and end in the same
  hash have the same hashed bytes in every entry, unless two different texts with the same hash are
  among the bytes the two logs hash.
\<close>

theorem last_hash_binds_log:
  assumes "\<forall>x. length (hexsha x) = 64"
    and "VerifyChain hexsha fmt_time es = None" "VerifyChain hexsha fmt_time fs = None"
    and "length es = length fs" "es \<noteq> []" "entry_hash (last es) = entry_hash (last fs)"
  shows "map (hash_input fmt_time) es = map (hash_input fmt_time) fs \<or>
    (\<exists>x \<in> hash_input fmt_time ` (set es \<union> set fs). \<exists>y \<in> hash_input fmt_time ` (set es \<union> set fs).
       x \<noteq> y \<and> hexsha x = hexsha y)"
  using assms(2-6)
proof (induction es arbitrary: fs rule: rev_induct)
  case Nil
  then show ?case by simp
next
  case (snoc e es)
  from snoc.prems obtain f fs' where fs: "fs = fs' @ [f]" by (cases fs rule: rev_cases) auto
  from snoc.prems fs have v: "VerifyChain hexsha fmt_time es = None" "VerifyChain hexsha fmt_time fs' = None"
    "entry_prev e = head_of entry_hash ''genesis'' es" "entry_prev f = head_of entry_hash ''genesis'' fs'"
    "entry_hash e = hexsha (hash_input fmt_time e)" "entry_hash f = hexsha (hash_input fmt_time f)"
    and len: "length es = length fs'"
    by (simp_all add: audit_chain.valid_snoc entry_ok_def computeHash_def)
  show ?case
  proof (cases "hash_input fmt_time e = hash_input fmt_time f")
    case False
    then show ?thesis using snoc.prems(5) v(5,6) fs by auto
  next
    case True
    show ?thesis
    proof (cases "es = []")
      case True
      then show ?thesis using \<open>hash_input fmt_time e = hash_input fmt_time f\<close> fs len by simp
    next
      case ne: False
      with len have ne': "fs' \<noteq> []" by auto
      have h64: "length (entry_hash (last xs)) = 64" if "VerifyChain hexsha fmt_time xs = None" "xs \<noteq> []" for xs
        using that assms(1) by (cases xs rule: rev_cases)
          (auto simp: audit_chain.valid_snoc entry_ok_def computeHash_def)
      have "length (entry_prev e) = length (entry_prev f)"
        using h64 [OF v(1) ne] h64 [OF v(2) ne'] v(3,4) ne ne' by (simp add: head_of_def)
      with True have "entry_prev e = entry_prev f"
        unfolding hash_input_split by (simp add: append_eq_same_length)
      with v(3,4) ne ne' have "entry_hash (last es) = entry_hash (last fs')" by (simp add: head_of_def)
      from snoc.IH [OF v(1,2) len ne this] show ?thesis using True fs by auto
    qed
  qed
qed

text \<open>A stand-in for the hash in the examples: 64 bytes that depend on the text's length only.\<close>

definition length_hash :: "string \<Rightarrow> string" where
  "length_hash s = (let d = nat_dec (length s) in replicate (64 - length d) (CHR ''0'') @ take 64 d)"

definition two_entries :: "HashChainEvent list" where
  "two_entries = entries (hl_output (log_all length_hash int_dec
     [(7, ''c'', LogCommandBlock ''x'' ''a'' ''rm'' ''bash'' ''r''), (8, ''d'', LogEgressAllow [] ''h'')]
     NewHashChainLogger))"

lemma length_length_hash: "\<forall>x. length (length_hash x) = 64"
  by (simp add: length_hash_def Let_def min_def)

lemma two_entries_ok: "VerifyChain length_hash int_dec two_entries = None"
  unfolding two_entries_def
  using logger_inv_log_all [OF logger_inv_new, of length_hash int_dec] by (simp add: logger_inv_def)

lemma two_entries_nonempty: "two_entries \<noteq> []"
proof -
  have "length two_entries = 2"
    unfolding two_entries_def
    using arg_cong [OF entries_log_all, of length] by (simp add: NewHashChainLogger_def)
  then show ?thesis by auto
qed

theorem last_hash_binds_log_witness:
  "map (hash_input int_dec) two_entries = map (hash_input int_dec) two_entries \<or>
    (\<exists>x \<in> hash_input int_dec ` (set two_entries \<union> set two_entries).
     \<exists>y \<in> hash_input int_dec ` (set two_entries \<union> set two_entries). x \<noteq> y \<and> length_hash x = length_hash y)"
  by (rule last_hash_binds_log) (simp_all add: length_length_hash two_entries_ok two_entries_nonempty)

text \<open>
  Some changes to a log are not noticed: the action, the pattern, the details and the duration of
  any entry can be rewritten in a log that verifies, and it still verifies, for every hash function.
\<close>

theorem unhashed_fields_undetected:
  assumes "VerifyChain hexsha fmt_time es = None"
  shows "VerifyChain hexsha fmt_time
    (map (\<lambda>h. h\<lparr>he_Event := (he_Event h)\<lparr>ev_Action := action h, ev_Pattern := pattern h,
        ev_Details := details h, ev_Duration := duration h\<rparr>\<rparr>) es) = None"
proof -
  let ?f = "\<lambda>h. h\<lparr>he_Event := (he_Event h)\<lparr>ev_Action := action h, ev_Pattern := pattern h,
        ev_Details := details h, ev_Duration := duration h\<rparr>\<rparr>"
  have f: "entry_prev (?f h) = entry_prev h" "entry_hash (?f h) = entry_hash h"
    "entry_ok hexsha fmt_time i (?f h) = entry_ok hexsha fmt_time i h" for h i
    by (simp_all add: entry_prev_def entry_hash_def entry_ok_def computeHash_def hash_input_def Let_def)
  have "linked_from entry_prev entry_hash g (map ?f es) = linked_from entry_prev entry_hash g es" for g
    by (induction es arbitrary: g) (simp_all add: f)
  then show ?thesis using assms by (simp add: VerifyChain_iff f)
qed

theorem unhashed_fields_undetected_witness:
  "VerifyChain length_hash int_dec
    (map (\<lambda>h. h\<lparr>he_Event := (he_Event h)\<lparr>ev_Action := ''allowed'', ev_Pattern := [],
        ev_Details := [(''k'', ''v'')], ev_Duration := 5\<rparr>\<rparr>) two_entries) = None"
  by (rule unhashed_fields_undetected) (rule two_entries_ok)

text \<open>
  Entries cut out of the middle of a log are noticed unless a hash occurs twice, and the end of a
  log can be cut off without notice: every prefix of a log that verifies verifies.
\<close>

theorem cut_entries:
  assumes "VerifyChain hexsha fmt_time (xs @ ys @ zs) = None"
  shows "VerifyChain hexsha fmt_time (xs @ ys) = None \<and>
    (zs \<noteq> [] \<and> VerifyChain hexsha fmt_time (xs @ zs) = None \<longrightarrow>
       head_of entry_hash ''genesis'' (xs @ ys) = head_of entry_hash ''genesis'' xs)"
  using assms audit_chain.cut_repeats_hash [OF assms]
  by (auto intro: audit_chain.valid_prefix [of _ _ "xs @ ys" zs])

theorem cut_entries_witness:
  "VerifyChain length_hash int_dec (take 1 two_entries) = None \<and>
   VerifyChain length_hash int_dec (drop 1 two_entries) \<noteq> None"
proof -
  have split: "two_entries = [] @ take 1 two_entries @ drop 1 two_entries" by simp
  have "head_of entry_hash ''genesis'' (take 1 two_entries) \<noteq> ''genesis''" "drop 1 two_entries \<noteq> []" by code_simp+
  then show ?thesis
    using cut_entries [of length_hash int_dec "[]" "take 1 two_entries" "drop 1 two_entries"] two_entries_ok by auto
qed

text \<open>
  A log that two runs of the program appended to does not verify: the second run starts a new
  chain at genesis, and no hash is that text.
\<close>

theorem restarted_log_rejected:
  assumes "\<forall>x. length (hexsha x) = 64" "xs \<noteq> []" "ys \<noteq> []"
    and "VerifyChain hexsha fmt_time xs = None" "VerifyChain hexsha fmt_time ys = None"
  shows "VerifyChain hexsha fmt_time (xs @ ys) \<noteq> None"
proof
  assume "VerifyChain hexsha fmt_time (xs @ ys) = None"
  then have "linked_from entry_prev entry_hash (head_of entry_hash ''genesis'' xs) ys"
    by (simp add: VerifyChain_iff linked_from_append)
  moreover from assms(5) have "linked_from entry_prev entry_hash ''genesis'' ys" by (simp add: VerifyChain_iff)
  ultimately have "head_of entry_hash ''genesis'' xs = ''genesis''" using assms(3) by (cases ys) auto
  moreover have "length (entry_hash (last xs)) = 64"
    using assms(1,2,4) by (cases xs rule: rev_cases)
      (auto simp: audit_chain.valid_snoc entry_ok_def computeHash_def)
  ultimately show False using assms(2) by (simp add: head_of_def)
qed

theorem restarted_log_rejected_witness:
  "VerifyChain length_hash int_dec (two_entries @ two_entries) \<noteq> None"
  by (rule restarted_log_rejected) (simp_all add: length_length_hash two_entries_ok two_entries_nonempty)

end
