(* ===== verification/Base64.thy ===== *)
theory Base64
  imports Go_Strings
begin

text \<open>
  \<open>encoding/base64\<close> as the program uses it: the standard, the URL-safe and the raw URL-safe encoding,
  and the decoder, which skips line breaks and does not check the unused bits of the last group.
\<close>

definition alphabet_common :: string where
  "alphabet_common = ''ABCDEFGHIJKLMNOPQRSTUVWXYZabcdefghijklmnopqrstuvwxyz0123456789''"

definition StdAlphabet :: string where
  "StdAlphabet = alphabet_common @ ''+/''"

definition URLAlphabet :: string where
  "URLAlphabet = alphabet_common @ ''-_''"

fun enc_groups :: "string \<Rightarrow> bool \<Rightarrow> nat list \<Rightarrow> string" where
  "enc_groups al pad [] = []"
| "enc_groups al pad [a] = [al ! (a div 4), al ! (a mod 4 * 16)] @ (if pad then ''=='' else [])"
| "enc_groups al pad [a, b] =
     [al ! (a div 4), al ! (a mod 4 * 16 + b div 16), al ! (b mod 16 * 4)] @ (if pad then ''='' else [])"
| "enc_groups al pad (a # b # c # r) =
     [al ! (a div 4), al ! (a mod 4 * 16 + b div 16), al ! (b mod 16 * 4 + c div 64), al ! (c mod 64)]
     @ enc_groups al pad r"

definition EncodeToString :: "string \<Rightarrow> bool \<Rightarrow> string \<Rightarrow> string" where
  "EncodeToString al pad s = enc_groups al pad (map byte_of s)"

definition dec2 :: "string \<Rightarrow> char \<Rightarrow> char \<Rightarrow> nat list option" where
  "dec2 al w x = (case (IndexByte al w, IndexByte al x) of
     (Some i, Some j) \<Rightarrow> Some [i * 4 + j div 16] | _ \<Rightarrow> None)"

definition dec3 :: "string \<Rightarrow> char \<Rightarrow> char \<Rightarrow> char \<Rightarrow> nat list option" where
  "dec3 al w x y = (case (IndexByte al w, IndexByte al x, IndexByte al y) of
     (Some i, Some j, Some k) \<Rightarrow> Some [i * 4 + j div 16, j mod 16 * 16 + k div 4] | _ \<Rightarrow> None)"

definition dec4 :: "string \<Rightarrow> char \<Rightarrow> char \<Rightarrow> char \<Rightarrow> char \<Rightarrow> nat list option" where
  "dec4 al w x y z = (case (IndexByte al w, IndexByte al x, IndexByte al y, IndexByte al z) of
     (Some i, Some j, Some k, Some l) \<Rightarrow>
       Some [i * 4 + j div 16, j mod 16 * 16 + k div 4, k mod 4 * 64 + l] | _ \<Rightarrow> None)"

fun dec_groups :: "string \<Rightarrow> bool \<Rightarrow> string \<Rightarrow> nat list option" where
  "dec_groups al pad [] = Some []"
| "dec_groups al pad [w] = None"
| "dec_groups al pad [w, x] = (if pad then None else dec2 al w x)"
| "dec_groups al pad [w, x, y] = (if pad then None else dec3 al w x y)"
| "dec_groups al pad (w # x # y # z # r) =
     (if pad \<and> z = CHR ''='' \<and> r = [] then
        (if y = CHR ''='' then dec2 al w x else dec3 al w x y)
      else (case (dec4 al w x y z, dec_groups al pad r) of
              (Some bs, Some cs) \<Rightarrow> Some (bs @ cs) | _ \<Rightarrow> None))"

definition DecodeString :: "string \<Rightarrow> bool \<Rightarrow> string \<Rightarrow> string option" where
  "DecodeString al pad s =
     map_option (map char_of) (dec_groups al pad (filter (\<lambda>c. byte_of c \<noteq> 10 \<and> byte_of c \<noteq> 13) s))"

section \<open>Decoding what was encoded\<close>

definition good_alphabet :: "string \<Rightarrow> bool" where
  "good_alphabet al \<longleftrightarrow> length al = 64 \<and> distinct al \<and> CHR ''='' \<notin> set al \<and>
     list_all (\<lambda>c. byte_of c \<noteq> 10 \<and> byte_of c \<noteq> 13) al"

lemma good_Std: "good_alphabet StdAlphabet"
  by code_simp

lemma good_URL: "good_alphabet URLAlphabet"
  by code_simp

lemma IndexByte_nth: "distinct xs \<Longrightarrow> n < length xs \<Longrightarrow> IndexByte xs (xs ! n) = Some n"
  by (induction xs arbitrary: n) (auto simp: nth_Cons split: nat.splits)

lemma IndexByte_al [simp]: "good_alphabet al \<Longrightarrow> n < 64 \<Longrightarrow> IndexByte al (al ! n) = Some n"
  by (simp add: good_alphabet_def IndexByte_nth)

lemma al_not_pad [simp]: "good_alphabet al \<Longrightarrow> n < 64 \<Longrightarrow> al ! n \<noteq> CHR ''=''"
  by (metis good_alphabet_def nth_mem)

lemma sextets:
  fixes a b c :: nat
  assumes "a < 256" "b < 256" "c < 256"
  shows "a div 4 < 64" "a mod 4 * 16 < 64" "a mod 4 * 16 + b div 16 < 64" "b mod 16 * 4 < 64"
    "b mod 16 * 4 + c div 64 < 64" "c mod 64 < 64"
    "a div 4 * 4 + (a mod 4 * 16) div 16 = a" "a div 4 * 4 + (a mod 4 * 16 + b div 16) div 16 = a"
    "(a mod 4 * 16 + b div 16) mod 16 * 16 + (b mod 16 * 4) div 4 = b"
    "(a mod 4 * 16 + b div 16) mod 16 * 16 + (b mod 16 * 4 + c div 64) div 4 = b"
    "(b mod 16 * 4 + c div 64) mod 4 * 64 + c mod 64 = c"
proof -
  have d: "b div 16 < 16" "c div 64 < 4" "a mod 4 < 4" "b mod 16 < 16"
    using assms by (auto simp: less_mult_imp_div_less)
  then show "a div 4 < 64" "a mod 4 * 16 < 64" "a mod 4 * 16 + b div 16 < 64" "b mod 16 * 4 < 64"
    "b mod 16 * 4 + c div 64 < 64" "c mod 64 < 64"
    using assms by (auto simp: less_mult_imp_div_less)
  have "(a mod 4 * 16 + b div 16) div 16 = a mod 4" "(a mod 4 * 16 + b div 16) mod 16 = b div 16"
    "(b mod 16 * 4 + c div 64) div 4 = b mod 16" "(b mod 16 * 4 + c div 64) mod 4 = c div 64"
    using d by simp_all
  then show "a div 4 * 4 + (a mod 4 * 16) div 16 = a" "a div 4 * 4 + (a mod 4 * 16 + b div 16) div 16 = a"
    "(a mod 4 * 16 + b div 16) mod 16 * 16 + (b mod 16 * 4) div 4 = b"
    "(a mod 4 * 16 + b div 16) mod 16 * 16 + (b mod 16 * 4 + c div 64) div 4 = b"
    "(b mod 16 * 4 + c div 64) mod 4 * 64 + c mod 64 = c"
    by simp_all
qed

lemma dec_enc_groups:
  "good_alphabet al \<Longrightarrow> \<forall>x \<in> set bs. x < 256 \<Longrightarrow> dec_groups al pad (enc_groups al pad bs) = Some bs"
proof (induction al pad bs rule: enc_groups.induct)
  case (2 al pad a)
  then show ?case using sextets [of a 0 0] by (simp add: dec2_def)
next
  case (3 al pad a b)
  then show ?case using sextets [of a b 0] by (simp add: dec3_def)
next
  case (4 al pad a b c r)
  then have "b div 16 < 16" "c div 64 < 4" by (auto simp: less_mult_imp_div_less)
  then have "b div 16 mod 16 = b div 16" "c div 64 mod 4 = c div 64" by simp_all
  then show ?case using sextets [of a b c] 4 by (simp add: dec4_def)
qed simp

lemma enc_groups_set:
  "good_alphabet al \<Longrightarrow> \<forall>x \<in> set bs. x < 256 \<Longrightarrow> set (enc_groups al pad bs) \<subseteq> insert (CHR ''='') (set al)"
proof (induction al pad bs rule: enc_groups.induct)
  case (2 al pad a)
  then show ?case using sextets [of a 0 0] by (auto simp: good_alphabet_def)
next
  case (3 al pad a b)
  then show ?case using sextets [of a b 0] by (auto simp: good_alphabet_def)
next
  case (4 al pad a b c r)
  then show ?case using sextets [of a b c] by (auto simp: good_alphabet_def)
qed simp

lemma byte_of_less [simp]: "byte_of c < 256"
  using nat_of_char_less_256 [of c] by (simp add: byte_of_def)

lemma Decode_Encode: "good_alphabet al \<Longrightarrow> DecodeString al pad (EncodeToString al pad s) = Some s"
proof -
  assume al: "good_alphabet al"
  have bs: "\<forall>x \<in> set (map byte_of s). x < 256" by simp
  have ok: "byte_of c \<noteq> 10 \<and> byte_of c \<noteq> 13" if "c \<in> insert (CHR ''='') (set al)" for c
    using that al by (auto simp: good_alphabet_def list_all_iff byte_of_def)
  have "\<forall>c \<in> set (EncodeToString al pad s). byte_of c \<noteq> 10 \<and> byte_of c \<noteq> 13"
    using enc_groups_set [OF al bs] ok unfolding EncodeToString_def by blast
  then have "filter (\<lambda>c. byte_of c \<noteq> 10 \<and> byte_of c \<noteq> 13) (EncodeToString al pad s) = EncodeToString al pad s"
    by (simp add: filter_id_conv)
  moreover have "map (char_of \<circ> byte_of) s = s" by (simp add: byte_of_def map_idI)
  ultimately show ?thesis
    using dec_enc_groups [OF al bs] by (simp add: DecodeString_def EncodeToString_def)
qed

end
