(* ===== verification/Sdr.thy ===== *)
theory Sdr
  imports Hash_Chain Json Base64 "HOL-Library.List_Lexorder" "HOL-Library.Char_ord" "HOL-Library.Multiset"
begin

text \<open>
  Signed decision records (pkg/sdr): the record, its JSON and canonical JSON (canonical.go), the
  validation of chains (chain.go), signing and verification (signing.go).

  Parameters: \<open>fmt_time\<close> is the JSON text of a time, \<open>None\<close> when \<open>encoding/json\<close> refuses it (a year
  past 9999), which is the only way an encoding fails; \<open>hexsha\<close> is SHA-256 in hexadecimal;
  \<open>ed_sign\<close> and \<open>ed_verify\<close> are Ed25519. A number of the action's parameters is the text that
  \<open>encoding/json\<close> prints for it after decoding it.
\<close>

section \<open>The record\<close>

record ActionInfo =
  ac_Type :: string
  ac_Target :: string
  ac_Params :: gomap

record PolicyInfo =
  po_BundleHash :: string
  po_Version :: string
  po_RulePath :: string
  po_Decision :: string
  po_RequiredApprovals :: int

record ApprovalInfo =
  ap_ID :: string
  ap_ApproverID :: string
  ap_ApproverType :: string
  ap_ApprovalSource :: string
  ap_Justification :: string
  ap_DecisionTime :: int

record ChainInfo =
  cn_PrevHash :: string
  cn_RecordHash :: string
  cn_ChainID :: string

record SigningInfo =
  sg_KeyID :: string
  sg_Algorithm :: string
  sg_Signature :: string
  sg_SigningTime :: int

record RuntimeInfo =
  ru_SidecarVersion :: string
  ru_HostFingerprint :: string
  ru_Framework :: string

record TelemetryContext =
  te_SessionID :: string
  te_SpanID :: string
  te_ParentSpanID :: string
  te_CorrelationID :: string

record EnforcementInfo =
  en_Mode :: string

record SDR =
  sdr_SDRVersion :: string
  sdr_SDRID :: string
  sdr_TenantID :: string
  sdr_AgentID :: string
  sdr_OccurredAt :: int
  sdr_ReceivedAt :: int
  sdr_Action :: ActionInfo
  sdr_InputsDigest :: string
  sdr_Policy :: PolicyInfo
  sdr_Approval :: "ApprovalInfo option"
  sdr_Chain :: ChainInfo
  sdr_Signing :: SigningInfo
  sdr_Runtime :: RuntimeInfo
  sdr_Telemetry :: TelemetryContext
  sdr_Enforcement :: EnforcementInfo

definition SDRVersion :: string where
  "SDRVersion = ''1.0.0''"

definition GenesisHash :: string where
  "GenesisHash = ''genesis''"

section \<open>JSON of a record\<close>

text \<open>\<^verbatim>\<open>json:"name,omitempty"\<close> on a string and on a map.\<close>

definition omit_str :: "string \<Rightarrow> string \<Rightarrow> gomap" where
  "omit_str k s = (if s = [] then [] else [(k, JStr s)])"

definition omit_map :: "string \<Rightarrow> gomap \<Rightarrow> gomap" where
  "omit_map k m = (if m = [] then [] else [(k, JObj m)])"

definition action_json :: "ActionInfo \<Rightarrow> json" where
  "action_json a = JObj ([(''type'', JStr (ac_Type a)), (''target'', JStr (ac_Target a))]
     @ omit_map ''params'' (ac_Params a))"

definition policy_json :: "PolicyInfo \<Rightarrow> json" where
  "policy_json p = JObj [(''bundle_hash'', JStr (po_BundleHash p)), (''version'', JStr (po_Version p)),
     (''rule_path'', JStr (po_RulePath p)), (''decision'', JStr (po_Decision p)),
     (''required_approvals'', JNum (int_dec (po_RequiredApprovals p)))]"

definition approval_json :: "(int \<Rightarrow> string option) \<Rightarrow> ApprovalInfo option \<Rightarrow> json option" where
  "approval_json fmt_time a =
     (case a of
        None \<Rightarrow> Some JNull
      | Some p \<Rightarrow> map_option (\<lambda>t. JObj [(''id'', JStr (ap_ID p)), (''approver_id'', JStr (ap_ApproverID p)),
          (''approver_type'', JStr (ap_ApproverType p)), (''approval_source'', JStr (ap_ApprovalSource p)),
          (''justification'', JStr (ap_Justification p)), (''decision_time'', JStr t)])
          (fmt_time (ap_DecisionTime p)))"

definition chain_fields :: "ChainInfo \<Rightarrow> gomap" where
  "chain_fields c = [(''prev_hash'', JStr (cn_PrevHash c)), (''record_hash'', JStr (cn_RecordHash c)),
     (''chain_id'', JStr (cn_ChainID c))]"

definition signing_json :: "(int \<Rightarrow> string option) \<Rightarrow> SigningInfo \<Rightarrow> json option" where
  "signing_json fmt_time s = map_option (\<lambda>t. JObj [(''key_id'', JStr (sg_KeyID s)),
     (''alg'', JStr (sg_Algorithm s)), (''signature'', JStr (sg_Signature s)), (''signing_time'', JStr t)])
     (fmt_time (sg_SigningTime s))"

definition runtime_json :: "RuntimeInfo \<Rightarrow> json" where
  "runtime_json r = JObj ([(''sidecar_version'', JStr (ru_SidecarVersion r))]
     @ omit_str ''host_fingerprint'' (ru_HostFingerprint r) @ omit_str ''framework'' (ru_Framework r))"

definition telemetry_json :: "TelemetryContext \<Rightarrow> json" where
  "telemetry_json t = JObj ([(''session_id'', JStr (te_SessionID t))] @ omit_str ''span_id'' (te_SpanID t)
     @ omit_str ''parent_span_id'' (te_ParentSpanID t) @ omit_str ''correlation_id'' (te_CorrelationID t))"

text \<open>
  The object of \<^verbatim>\<open>json.Marshal\<close>, decoded again, in the order of the structure's fields.
  \<open>omitempty\<close> has no effect on a time.
\<close>

definition sdr_fields :: "(int \<Rightarrow> string option) \<Rightarrow> SDR \<Rightarrow> gomap option" where
  "sdr_fields fmt_time r =
     (case (fmt_time (sdr_OccurredAt r), fmt_time (sdr_ReceivedAt r), approval_json fmt_time (sdr_Approval r),
            signing_json fmt_time (sdr_Signing r)) of
        (Some occurred, Some received, Some approval, Some signing) \<Rightarrow>
          Some ([(''sdr_version'', JStr (sdr_SDRVersion r)), (''sdr_id'', JStr (sdr_SDRID r)),
            (''tenant_id'', JStr (sdr_TenantID r)), (''agent_id'', JStr (sdr_AgentID r)),
            (''occurred_at'', JStr occurred), (''received_at'', JStr received),
            (''action'', action_json (sdr_Action r))]
            @ omit_str ''inputs_digest'' (sdr_InputsDigest r) @
            [(''policy'', policy_json (sdr_Policy r)), (''approval'', approval),
            (''chain'', JObj (chain_fields (sdr_Chain r))), (''signing'', signing),
            (''runtime'', runtime_json (sdr_Runtime r)), (''telemetry'', telemetry_json (sdr_Telemetry r)),
            (''enforcement'', JObj [(''mode'', JStr (en_Mode (sdr_Enforcement r)))])])
      | _ \<Rightarrow> None)"

section \<open>Canonical JSON\<close>

definition map_delete :: "string \<Rightarrow> gomap \<Rightarrow> gomap" where
  "map_delete k m = filter (\<lambda>(k', v). k' \<noteq> k) m"

definition join_comma :: "string list \<Rightarrow> string" where
  "join_comma xs = (case xs of [] \<Rightarrow> [] | x # rest \<Rightarrow> x @ concat (map (\<lambda>s. CHR '','' # s) rest))"

fun marshalSorted :: "json \<Rightarrow> string" where
  "marshalSorted (JObj m) =
     ''{'' @ join_comma (map (\<lambda>(k, s). json_quote k @ '':'' @ s)
        (sort_key fst (map (\<lambda>(k, v). (k, marshalSorted v)) m))) @ ''}''"
| "marshalSorted (JArr xs) = ''['' @ join_comma (map marshalSorted xs) @ '']''"
| "marshalSorted (JStr s) = json_quote s"
| "marshalSorted (JNum n) = n"
| "marshalSorted (JBool b) = (if b then ''true'' else ''false'')"
| "marshalSorted JNull = ''null''"

datatype sdr_error =
    MarshalFailed
  | RecordHashMismatch string string string
  | SignatureDecoding string
  | SignatureInvalid string

definition delete_record_hash :: "gomap \<Rightarrow> gomap" where
  "delete_record_hash m =
     map (\<lambda>(k, v). if k = ''chain''
        then (k, case v of JObj c \<Rightarrow> JObj (map_delete ''record_hash'' c) | _ \<Rightarrow> v) else (k, v)) m"

definition CanonicalJSON :: "(int \<Rightarrow> string option) \<Rightarrow> SDR \<Rightarrow> sdr_error + string" where
  "CanonicalJSON fmt_time r =
     (case sdr_fields fmt_time r of
        None \<Rightarrow> Inl MarshalFailed
      | Some obj \<Rightarrow> Inr (marshalSorted (JObj (delete_record_hash
          (map_delete ''enforcement'' (map_delete ''telemetry'' (map_delete ''signing'' obj)))))))"

section \<open>Signing and verification\<close>

definition ComputeRecordHash :: "(string \<Rightarrow> string) \<Rightarrow> (int \<Rightarrow> string option) \<Rightarrow> SDR \<Rightarrow> sdr_error + string" where
  "ComputeRecordHash hexsha fmt_time r =
     (case CanonicalJSON fmt_time r of Inl e \<Rightarrow> Inl e | Inr c \<Rightarrow> Inr (hexsha c))"

text \<open>\<open>Sign\<close> gives the record it has filled in, and no record when it fails.\<close>

definition Sign ::
  "(string \<Rightarrow> string) \<Rightarrow> (int \<Rightarrow> string option) \<Rightarrow> ('k \<Rightarrow> string \<Rightarrow> string) \<Rightarrow> int \<Rightarrow> 'k \<Rightarrow> string \<Rightarrow> SDR \<Rightarrow>
   sdr_error + SDR" where
  "Sign hexsha fmt_time ed_sign now key keyID r =
     (case CanonicalJSON fmt_time r of
        Inl e \<Rightarrow> Inl e
      | Inr canonical \<Rightarrow>
          Inr (r\<lparr>sdr_Chain := (sdr_Chain r)\<lparr>cn_RecordHash := hexsha canonical\<rparr>,
                 sdr_Signing := \<lparr>sg_KeyID = keyID, sg_Algorithm = ''Ed25519'',
                   sg_Signature = EncodeToString URLAlphabet False (ed_sign key canonical),
                   sg_SigningTime = now\<rparr>\<rparr>))"

definition Verify ::
  "(string \<Rightarrow> string) \<Rightarrow> (int \<Rightarrow> string option) \<Rightarrow> ('p \<Rightarrow> string \<Rightarrow> string \<Rightarrow> bool) \<Rightarrow> 'p \<Rightarrow> SDR \<Rightarrow>
   sdr_error option" where
  "Verify hexsha fmt_time ed_verify pub r =
     (case CanonicalJSON fmt_time r of
        Inl e \<Rightarrow> Some e
      | Inr canonical \<Rightarrow>
          if cn_RecordHash (sdr_Chain r) \<noteq> hexsha canonical
          then Some (RecordHashMismatch (sdr_SDRID r) (hexsha canonical) (cn_RecordHash (sdr_Chain r)))
          else (case DecodeString URLAlphabet False (sg_Signature (sdr_Signing r)) of
                  None \<Rightarrow> Some (SignatureDecoding (sdr_SDRID r))
                | Some sig \<Rightarrow> if ed_verify pub canonical sig then None
                               else Some (SignatureInvalid (sdr_SDRID r))))"

section \<open>Chains\<close>

record ChainGapError =
  cg_ChainID :: string
  cg_Position :: nat
  cg_SDRID :: string
  cg_Expected :: string
  cg_Got :: string

definition gap_Error :: "ChainGapError \<Rightarrow> string" where
  "gap_Error e =
     ''chain gap in '' @ cg_ChainID e @ '' at position '' @ nat_dec (cg_Position e) @ '' (SDR '' @ cg_SDRID e @
     ''): expected prev_hash '' @ go_quote (cg_Expected e) @ '', got '' @ go_quote (cg_Got e)"

definition gap :: "nat \<Rightarrow> SDR \<Rightarrow> string \<Rightarrow> ChainGapError" where
  "gap i r expected = \<lparr>cg_ChainID = cn_ChainID (sdr_Chain r), cg_Position = i, cg_SDRID = sdr_SDRID r,
     cg_Expected = expected, cg_Got = cn_PrevHash (sdr_Chain r)\<rparr>"

text \<open>The loop from index \<open>i\<close> over the records after \<open>before\<close>.\<close>

fun link_loop :: "nat \<Rightarrow> SDR \<Rightarrow> SDR list \<Rightarrow> ChainGapError option" where
  "link_loop i before [] = None"
| "link_loop i before (r # rs) =
     (if cn_PrevHash (sdr_Chain r) \<noteq> cn_RecordHash (sdr_Chain before)
      then Some (gap i r (cn_RecordHash (sdr_Chain before)))
      else link_loop (i + 1) r rs)"

definition ValidateChain :: "SDR list \<Rightarrow> ChainGapError option" where
  "ValidateChain records =
     (case records of
        [] \<Rightarrow> None
      | r # rs \<Rightarrow> if cn_PrevHash (sdr_Chain r) \<noteq> GenesisHash then Some (gap 0 r GenesisHash)
                  else link_loop 1 r rs)"

definition ValidateChainContinuity :: "SDR list \<Rightarrow> string \<Rightarrow> ChainGapError option" where
  "ValidateChainContinuity records latestHash =
     (case records of
        [] \<Rightarrow> None
      | r # rs \<Rightarrow>
          (let expectedPrev = (if latestHash = [] then GenesisHash else latestHash) in
           if cn_PrevHash (sdr_Chain r) \<noteq> expectedPrev then Some (gap 0 r expectedPrev)
           else link_loop 1 r rs))"

section \<open>Facts on chains\<close>

definition sdr_prev :: "SDR \<Rightarrow> string" where
  "sdr_prev r = cn_PrevHash (sdr_Chain r)"

definition sdr_hash :: "SDR \<Rightarrow> string" where
  "sdr_hash r = cn_RecordHash (sdr_Chain r)"

lemma link_loop_None: "link_loop i before rs = None \<longleftrightarrow> linked_from sdr_prev sdr_hash (sdr_hash before) rs"
  by (induction i before rs rule: link_loop.induct) (simp_all add: sdr_prev_def sdr_hash_def)

lemma ValidateChain_iff: "ValidateChain rs = None \<longleftrightarrow> linked_from sdr_prev sdr_hash GenesisHash rs"
  by (cases rs) (auto simp: ValidateChain_def link_loop_None sdr_prev_def)

interpretation sdr_chain: chain_validator sdr_prev sdr_hash GenesisHash "\<lambda>_ _. True" "\<lambda>rs. ValidateChain rs = None"
  by unfold_locales (simp add: ValidateChain_iff)

lemma ValidateChainContinuity_iff:
  "ValidateChainContinuity rs latest = None \<longleftrightarrow>
     linked_from sdr_prev sdr_hash (if latest = [] then GenesisHash else latest) rs"
  by (cases rs) (auto simp: ValidateChainContinuity_def link_loop_None sdr_prev_def Let_def)

text \<open>Where \<open>link_loop\<close> reports a gap.\<close>

lemma link_loop_Some:
  "link_loop i before rs = Some e \<Longrightarrow>
   \<exists>us r vs. rs = us @ r # vs \<and> linked_from sdr_prev sdr_hash (sdr_hash before) us
     \<and> sdr_prev r \<noteq> head_of sdr_hash (sdr_hash before) us
     \<and> e = gap (i + length us) r (head_of sdr_hash (sdr_hash before) us)"
proof (induction i before rs rule: link_loop.induct)
  case (1 i before)
  then show ?case by simp
next
  case (2 i before r rs)
  show ?case
  proof (cases "sdr_prev r = sdr_hash before")
    case False
    with 2(2) have "e = gap i r (sdr_hash before)" by (simp add: sdr_prev_def sdr_hash_def)
    with False show ?thesis by (intro exI [of _ "[]"]) auto
  next
    case True
    with 2(2) have "link_loop (i + 1) r rs = Some e" by (simp add: sdr_prev_def sdr_hash_def)
    moreover have "\<not> cn_PrevHash (sdr_Chain r) \<noteq> cn_RecordHash (sdr_Chain before)"
      using True by (simp add: sdr_prev_def sdr_hash_def)
    ultimately obtain us r' vs where "rs = us @ r' # vs" "linked_from sdr_prev sdr_hash (sdr_hash r) us"
      "sdr_prev r' \<noteq> head_of sdr_hash (sdr_hash r) us"
      "e = gap (i + 1 + length us) r' (head_of sdr_hash (sdr_hash r) us)"
      using 2(1) by blast
    with True show ?thesis by (intro exI [of _ "r # us"]) auto
  qed
qed

section \<open>Facts on the canonical form\<close>

lemma map_delete_append: "map_delete k (m @ m') = map_delete k m @ map_delete k m'"
  by (simp add: map_delete_def)

lemma map_delete_simps [simp]:
  "map_delete k [] = []"
  "map_delete k ((k', v) # m) = (if k' = k then map_delete k m else (k', v) # map_delete k m)"
  by (simp_all add: map_delete_def)

text \<open>The payload: the fields that are signed.\<close>

lemma CanonicalJSON_payload:
  assumes "fmt_time (sg_SigningTime s) \<noteq> None" "fmt_time (sg_SigningTime (sdr_Signing r)) \<noteq> None"
  shows "CanonicalJSON fmt_time (r\<lparr>sdr_Chain := (sdr_Chain r)\<lparr>cn_RecordHash := h\<rparr>, sdr_Signing := s,
      sdr_Telemetry := t, sdr_Enforcement := e\<rparr>) = CanonicalJSON fmt_time r"
proof -
  have fmt: "\<exists>j. signing_json fmt_time s = Some j" "\<exists>j. signing_json fmt_time (sdr_Signing r) = Some j"
    using assms by (auto simp: signing_json_def)
  then show ?thesis
    by (auto simp: CanonicalJSON_def sdr_fields_def chain_fields_def delete_record_hash_def omit_str_def
        split: option.splits)
qed

lemma CanonicalJSON_Inr_times:
  "CanonicalJSON fmt_time r = Inr c \<Longrightarrow> fmt_time (sg_SigningTime (sdr_Signing r)) \<noteq> None"
  by (auto simp: CanonicalJSON_def sdr_fields_def signing_json_def split: option.splits)

text \<open>
  Two JSON values that differ in the order of object entries only, at any depth. The keys of an object
  are distinct, as those of a Go map are.
\<close>

inductive same_json :: "json \<Rightarrow> json \<Rightarrow> bool" where
  Same: "same_json j j"
| Arr: "list_all2 same_json xs ys \<Longrightarrow> same_json (JArr xs) (JArr ys)"
| Obj: "list_all2 (\<lambda>a b. fst a = fst b \<and> same_json (snd a) (snd b)) m mid \<Longrightarrow> mset mid = mset m2 \<Longrightarrow>
    distinct (map fst mid) \<Longrightarrow> same_json (JObj m) (JObj m2)"

lemma sort_key_mset_eq:
  assumes "mset xs = mset ys" "distinct (map f xs)"
  shows "sort_key f xs = sort_key f ys"
proof (rule map_sorted_distinct_set_unique [where f = f])
  have d: "distinct (map f zs)" if "mset zs = mset xs" for zs
    using that assms(2) by (metis mset_eq_imp_distinct_iff mset_map)
  show "distinct (map f (sort_key f xs))" "distinct (map f (sort_key f ys))"
    using d assms(1) by simp_all
  have "set ys = set xs" using assms(1) by (metis set_mset_mset)
  then show "set (sort_key f xs) = set (sort_key f ys)" by simp
  show "inj_on f (set (sort_key f xs) \<union> set (sort_key f ys))"
    using assms(2) \<open>set ys = set xs\<close> by (simp add: distinct_map)
qed simp_all

lemma marshalSorted_same: "same_json j j' \<Longrightarrow> marshalSorted j = marshalSorted j'"
proof (induction rule: same_json.induct)
  case (Same j)
  then show ?case by simp
next
  case (Arr xs ys)
  then have "map marshalSorted xs = map marshalSorted ys" by (induction rule: list_all2_induct) auto
  then show ?case by (simp only: marshalSorted.simps)
next
  case (Obj m mid m2)
  let ?g = "\<lambda>(k, v). (k, marshalSorted v)"
  from Obj(1) have "map ?g m = map ?g mid" by (induction rule: list_all2_induct) auto
  moreover have "sort_key fst (map ?g mid) = sort_key fst (map ?g m2)"
  proof (rule sort_key_mset_eq)
    show "mset (map ?g mid) = mset (map ?g m2)" using Obj(2) by (simp only: mset_map)
    have "map fst (map ?g mid) = map fst mid" by auto
    then show "distinct (map fst (map ?g mid))" using Obj(3) by metis
  qed
  ultimately show ?case by (simp only: marshalSorted.simps)
qed

text \<open>The signature covers what verification looks at.\<close>

lemma Sign_verifies:
  assumes "\<And>msg. ed_verify pub msg (ed_sign key msg)"
    and "Sign hexsha fmt_time ed_sign now key keyID r = Inr r'" "fmt_time now \<noteq> None"
  shows "Verify hexsha fmt_time ed_verify pub (r'\<lparr>sdr_Telemetry := t, sdr_Enforcement := e\<rparr>) = None"
proof -
  from assms(2) obtain c where c: "CanonicalJSON fmt_time r = Inr c"
    by (auto simp: Sign_def split: sum.splits)
  let ?s = "\<lparr>sg_KeyID = keyID, sg_Algorithm = ''Ed25519'',
      sg_Signature = EncodeToString URLAlphabet False (ed_sign key c), sg_SigningTime = now\<rparr>"
  have r': "r'\<lparr>sdr_Telemetry := t, sdr_Enforcement := e\<rparr> = r\<lparr>sdr_Chain := (sdr_Chain r)\<lparr>cn_RecordHash := hexsha c\<rparr>,
      sdr_Signing := ?s, sdr_Telemetry := t, sdr_Enforcement := e\<rparr>"
    using assms(2) c by (auto simp: Sign_def)
  have "CanonicalJSON fmt_time (r\<lparr>sdr_Chain := (sdr_Chain r)\<lparr>cn_RecordHash := hexsha c\<rparr>, sdr_Signing := ?s,
      sdr_Telemetry := t, sdr_Enforcement := e\<rparr>) = Inr c"
    using CanonicalJSON_payload [of fmt_time ?s r] assms(3) CanonicalJSON_Inr_times [OF c] c by simp
  then show ?thesis
    unfolding r' by (simp add: Verify_def Decode_Encode good_URL assms(1))
qed

section \<open>Properties\<close>

text \<open>
  C9. Signing and verifying fit: a record that \<open>Sign\<close> has filled in verifies under the matching key, and
  still does after its telemetry context and its enforcement block are replaced, which the signature
  does not cover. The signature scheme is any for which verification accepts what signing gives.
\<close>

theorem signed_record_verifies:
  assumes "\<And>msg. ed_verify pub msg (ed_sign key msg)"
    and "Sign hexsha fmt_time ed_sign now key keyID r = Inr r'" "fmt_time now \<noteq> None"
  shows "Verify hexsha fmt_time ed_verify pub (r'\<lparr>sdr_Telemetry := t, sdr_Enforcement := e\<rparr>) = None"
  using assms by (intro Sign_verifies)

definition sample_sdr :: SDR where
  "sample_sdr = \<lparr>sdr_SDRVersion = SDRVersion, sdr_SDRID = ''i'', sdr_TenantID = ''t'', sdr_AgentID = ''a'',
     sdr_OccurredAt = 1, sdr_ReceivedAt = 0,
     sdr_Action = \<lparr>ac_Type = ''egress'', ac_Target = ''h'', ac_Params = [(''b'', JNull), (''a'', JBool True)]\<rparr>,
     sdr_InputsDigest = [],
     sdr_Policy = \<lparr>po_BundleHash = [], po_Version = [], po_RulePath = ''r'', po_Decision = ''allow'',
        po_RequiredApprovals = 0\<rparr>,
     sdr_Approval = None, sdr_Chain = \<lparr>cn_PrevHash = GenesisHash, cn_RecordHash = [], cn_ChainID = ''a''\<rparr>,
     sdr_Signing = \<lparr>sg_KeyID = [], sg_Algorithm = [], sg_Signature = [], sg_SigningTime = 1\<rparr>,
     sdr_Runtime = \<lparr>ru_SidecarVersion = ''1'', ru_HostFingerprint = [], ru_Framework = []\<rparr>,
     sdr_Telemetry = \<lparr>te_SessionID = ''s'', te_SpanID = [], te_ParentSpanID = [], te_CorrelationID = []\<rparr>,
     sdr_Enforcement = \<lparr>en_Mode = ''enforce''\<rparr>\<rparr>"

text \<open>A toy signature for the examples: the key in front of the message.\<close>

definition toy_sign :: "string \<Rightarrow> string \<Rightarrow> string" where
  "toy_sign key msg = key @ msg"

definition toy_verify :: "string \<Rightarrow> string \<Rightarrow> string \<Rightarrow> bool" where
  "toy_verify pub msg sig \<longleftrightarrow> sig = pub @ msg"

definition some_dec :: "int \<Rightarrow> string option" where
  "some_dec n = Some (int_dec n)"

theorem signed_record_verifies_witness:
  "Verify rev some_dec toy_verify ''k''
     ((case Sign rev some_dec toy_sign 9 ''k'' ''id'' sample_sdr of Inr r \<Rightarrow> r | Inl _ \<Rightarrow> sample_sdr)
        \<lparr>sdr_Telemetry := \<lparr>te_SessionID = ''z'', te_SpanID = ''y'', te_ParentSpanID = [], te_CorrelationID = []\<rparr>,
         sdr_Enforcement := \<lparr>en_Mode = ''record''\<rparr>\<rparr>) = None"
proof (rule signed_record_verifies)
  show "toy_verify ''k'' msg (toy_sign ''k'' msg)" for msg by (simp add: toy_verify_def toy_sign_def)
  have "\<exists>c. CanonicalJSON some_dec sample_sdr = Inr c"
    by (simp add: CanonicalJSON_def sdr_fields_def some_dec_def approval_json_def signing_json_def sample_sdr_def)
  then show "Sign rev some_dec toy_sign 9 ''k'' ''id'' sample_sdr =
      Inr (case Sign rev some_dec toy_sign 9 ''k'' ''id'' sample_sdr of Inr r \<Rightarrow> r | Inl _ \<Rightarrow> sample_sdr)"
    by (auto simp: Sign_def)
  show "some_dec 9 \<noteq> None" by (simp add: some_dec_def)
qed

text \<open>
  The canonical encoding does not depend on the order in which object entries come: two values
  that differ in that order only, at any depth, are encoded to the same bytes.
\<close>

theorem canonical_order_independent:
  assumes "same_json j j'"
  shows "marshalSorted j = marshalSorted j'"
  using assms by (rule marshalSorted_same)

theorem canonical_order_independent_witness:
  "marshalSorted (JObj [(''a'', JNull), (''b'', JObj [(''c'', JBool True), (''d'', JStr ''x'')])]) =
   marshalSorted (JObj [(''b'', JObj [(''d'', JStr ''x''), (''c'', JBool True)]), (''a'', JNull)])"
proof (rule canonical_order_independent)
  have inner: "same_json (JObj [(''c'', JBool True), (''d'', JStr ''x'')]) (JObj [(''d'', JStr ''x''), (''c'', JBool True)])"
    by (rule same_json.Obj [where mid = "[(''c'', JBool True), (''d'', JStr ''x'')]"]) (auto intro: Same)
  show "same_json (JObj [(''a'', JNull), (''b'', JObj [(''c'', JBool True), (''d'', JStr ''x'')])])
      (JObj [(''b'', JObj [(''d'', JStr ''x''), (''c'', JBool True)]), (''a'', JNull)])"
    by (rule same_json.Obj [where mid = "[(''a'', JNull), (''b'', JObj [(''d'', JStr ''x''), (''c'', JBool True)])]"])
      (auto intro: Same inner)
qed

text \<open>
  Validating a batch against the head of what came before is validating the whole: a chain
  followed by a batch is valid exactly when the chain is and the batch continues from its last hash.
\<close>

theorem continuity_is_validity:
  assumes "rs = [] \<or> sdr_hash (last rs) \<noteq> []"
  shows "ValidateChain (rs @ batch) = None \<longleftrightarrow>
    ValidateChain rs = None \<and>
    ValidateChainContinuity batch (if rs = [] then [] else sdr_hash (last rs)) = None"
  using assms
  by (auto simp: ValidateChain_iff ValidateChainContinuity_iff linked_from_append head_of_def)

theorem continuity_is_validity_witness:
  "ValidateChain ([] @ [sample_sdr]) = None \<longleftrightarrow>
    ValidateChain [] = None \<and>
    ValidateChainContinuity [sample_sdr] (if ([] :: SDR list) = [] then [] else sdr_hash (last [])) = None"
  by (rule continuity_is_validity) simp

text \<open>
  A reported gap is the first one: when \<open>ValidateChain\<close> reports a gap, the records before its
  position form a valid chain, the record there does not name their head, and the error carries that
  head as expected and the record's own value as got.
\<close>

theorem reported_gap_is_first:
  assumes "ValidateChain rs = Some e"
  shows "cg_Position e < length rs \<and> ValidateChain (take (cg_Position e) rs) = None \<and>
    cg_Expected e = head_of sdr_hash GenesisHash (take (cg_Position e) rs) \<and>
    cg_Got e = sdr_prev (rs ! cg_Position e) \<and> cg_Expected e \<noteq> cg_Got e \<and>
    cg_SDRID e = sdr_SDRID (rs ! cg_Position e)"
proof -
  obtain us r vs where rs: "rs = us @ r # vs" and us: "linked_from sdr_prev sdr_hash GenesisHash us"
    "sdr_prev r \<noteq> head_of sdr_hash GenesisHash us" and e: "e = gap (length us) r (head_of sdr_hash GenesisHash us)"
  proof (cases rs)
    case Nil
    with assms show ?thesis by (simp add: ValidateChain_def)
  next
    case (Cons r0 rest)
    show ?thesis
    proof (cases "sdr_prev r0 = GenesisHash")
      case False
      with assms Cons have "e = gap 0 r0 GenesisHash" by (simp add: ValidateChain_def sdr_prev_def)
      with False Cons show ?thesis by (intro that [of "[]" r0 rest]) auto
    next
      case True
      with assms Cons have "link_loop 1 r0 rest = Some e" by (simp add: ValidateChain_def sdr_prev_def)
      from link_loop_Some [OF this] True Cons show ?thesis
        by (auto intro!: that [of "r0 # _"])
    qed
  qed
  then show ?thesis by (simp add: gap_def ValidateChain_iff nth_append sdr_prev_def)
qed

theorem reported_gap_is_first_witness:
  "let e = the (ValidateChain [sample_sdr, sample_sdr]) in
   cg_Position e < length [sample_sdr, sample_sdr] \<and>
    ValidateChain (take (cg_Position e) [sample_sdr, sample_sdr]) = None \<and>
    cg_Expected e = head_of sdr_hash GenesisHash (take (cg_Position e) [sample_sdr, sample_sdr]) \<and>
    cg_Got e = sdr_prev ([sample_sdr, sample_sdr] ! cg_Position e) \<and> cg_Expected e \<noteq> cg_Got e \<and>
    cg_SDRID e = sdr_SDRID ([sample_sdr, sample_sdr] ! cg_Position e)"
  unfolding Let_def
  by (rule reported_gap_is_first) (simp add: ValidateChain_def sample_sdr_def GenesisHash_def)

end
