(* ===== verification/Telemetry.thy ===== *)
theory Telemetry
  imports Sdr "HOL-Library.Word"
begin

text \<open>
  Telemetry: the persisted chain state (internal/telemetry/chain_state.go) and the collector that
  turns events into decision records, links, signs and queues them, and its export loop
  (internal/telemetry/collector.go, event.go).

  Parameters: fresh identifiers, clocks, the signing functions of \<open>Sdr\<close>, reading and decoding the
  state file, and whether a write of it succeeds. The file is written atomically (a temporary file
  and a rename), so it holds a whole snapshot or the previous one.
\<close>

section \<open>Chain state\<close>

record ChainState =
  cs_ChainID :: string
  cs_PrevHash :: string
  cs_Sequence :: "64 word"
  cs_LastTS :: int
  cs_path :: string
  cs_dirtyCount :: nat

record snapshot =
  sn_ChainID :: string
  sn_PrevHash :: string
  sn_Sequence :: "64 word"
  sn_LastTS :: int

definition fsyncInterval :: nat where
  "fsyncInterval = 10"

definition genesis_state :: "string \<Rightarrow> ChainState" where
  "genesis_state path = \<lparr>cs_ChainID = [], cs_PrevHash = GenesisHash, cs_Sequence = 0, cs_LastTS = 0,
     cs_path = path, cs_dirtyCount = 0\<rparr>"

text \<open>\<open>content\<close> is what reading and decoding the file gives: nothing, no state, or a snapshot.\<close>

datatype file_content = Missing | Corrupt | Snapshot snapshot

definition LoadChainState :: "file_content \<Rightarrow> string \<Rightarrow> ChainState" where
  "LoadChainState content path =
     (case content of
        Snapshot s \<Rightarrow> (genesis_state path)\<lparr>cs_ChainID := sn_ChainID s, cs_PrevHash := sn_PrevHash s,
                         cs_Sequence := sn_Sequence s, cs_LastTS := sn_LastTS s\<rparr>
      | _ \<Rightarrow> genesis_state path)"

definition snapshot_of :: "ChainState \<Rightarrow> snapshot" where
  "snapshot_of cs = \<lparr>sn_ChainID = cs_ChainID cs, sn_PrevHash = cs_PrevHash cs, sn_Sequence = cs_Sequence cs,
     sn_LastTS = cs_LastTS cs\<rparr>"

definition GetChainInfo :: "ChainState \<Rightarrow> string \<times> string" where
  "GetChainInfo cs = (cs_PrevHash cs, cs_ChainID cs)"

text \<open>The file after the write; \<open>ok\<close> says whether every call on the way succeeded.\<close>

definition syncLocked :: "bool \<Rightarrow> ChainState \<Rightarrow> file_content \<Rightarrow> bool \<times> ChainState \<times> file_content" where
  "syncLocked ok cs file =
     (if cs_path cs = [] then (True, cs, file)
      else if ok then (True, cs\<lparr>cs_dirtyCount := 0\<rparr>, Snapshot (snapshot_of cs))
      else (False, cs, file))"

definition Advance ::
  "bool \<Rightarrow> int \<Rightarrow> string \<Rightarrow> ChainState \<Rightarrow> file_content \<Rightarrow> ChainState \<times> file_content" where
  "Advance ok now recordHash cs file =
     (let cs1 = cs\<lparr>cs_PrevHash := recordHash, cs_Sequence := cs_Sequence cs + 1, cs_LastTS := now,
                   cs_dirtyCount := cs_dirtyCount cs + 1\<rparr>
      in if cs_dirtyCount cs1 \<ge> fsyncInterval then snd (syncLocked ok cs1 file) else (cs1, file))"

definition ChainState_Save ::
  "bool \<Rightarrow> string \<Rightarrow> ChainState \<Rightarrow> file_content \<Rightarrow> bool \<times> ChainState \<times> file_content" where
  "ChainState_Save ok path cs file =
     syncLocked ok (if path \<noteq> [] then cs\<lparr>cs_path := path\<rparr> else cs) file"

definition ChainState_Sync :: "bool \<Rightarrow> ChainState \<Rightarrow> file_content \<Rightarrow> bool \<times> ChainState \<times> file_content" where
  "ChainState_Sync = syncLocked"

section \<open>Events and the collector\<close>

definition SchemaVersion :: string where
  "SchemaVersion = ''telemetry_v0''"

record ApprovalDetail =
  ad_ID :: string
  ad_ApproverID :: string
  ad_ApproverType :: string
  ad_ApprovalSource :: string
  ad_Justification :: string
  ad_DecisionTime :: int

record TelemetryEvent =
  tv_Timestamp :: int
  tv_ActionType :: string
  tv_ActionTarget :: string
  tv_ActionParams :: gomap
  tv_Decision :: string
  tv_RulePath :: string
  tv_EnforcementMode :: string
  tv_SpanID :: string
  tv_ParentSpanID :: string
  tv_Approval :: "ApprovalDetail option"

record 'k CollectorConfig =
  cc_AgentID :: string
  cc_TenantID :: string
  cc_CorrelationID :: string
  cc_SidecarVersion :: string
  cc_QueueSize :: int
  cc_SigningKey :: "'k option"
  cc_KeyID :: string

record 'k Collector =
  co_cfg :: "'k CollectorConfig"
  co_sessionID :: string
  co_chainState :: ChainState
  co_file :: file_content
  co_queue :: "SDR list"
  co_eventsRecorded :: nat
  co_eventsDropped :: nat

text \<open>\<open>agent\<close> and \<open>session\<close> are fresh identifiers.\<close>

definition NewCollector :: "string \<Rightarrow> string \<Rightarrow> 'k CollectorConfig \<Rightarrow> ChainState \<Rightarrow> file_content \<Rightarrow> 'k Collector" where
  "NewCollector agent session cfg cs file =
     (let cfg1 = (if cc_QueueSize cfg \<le> 0 then cfg\<lparr>cc_QueueSize := 10000\<rparr> else cfg);
          cfg2 = (if cc_AgentID cfg1 = [] then cfg1\<lparr>cc_AgentID := agent\<rparr> else cfg1);
          cs1 = (if cs_ChainID cs = [] then cs\<lparr>cs_ChainID := cc_AgentID cfg2\<rparr> else cs)
      in \<lparr>co_cfg = cfg2, co_sessionID = session, co_chainState = cs1, co_file = file, co_queue = [],
          co_eventsRecorded = 0, co_eventsDropped = 0\<rparr>)"

text \<open>What one call draws from outside: the clock, the identifiers, the success of a file write.\<close>

record fresh =
  fr_now :: int
  fr_span :: string
  fr_sdr :: string
  fr_sync :: bool

definition unsigned_info :: "int \<Rightarrow> SigningInfo" where
  "unsigned_info t = \<lparr>sg_KeyID = ''unsigned'', sg_Algorithm = ''none'', sg_Signature = [], sg_SigningTime = t\<rparr>"

definition approval_info :: "ApprovalDetail \<Rightarrow> ApprovalInfo" where
  "approval_info a = \<lparr>ap_ID = ad_ID a, ap_ApproverID = ad_ApproverID a, ap_ApproverType = ad_ApproverType a,
     ap_ApprovalSource = ad_ApprovalSource a, ap_Justification = ad_Justification a,
     ap_DecisionTime = ad_DecisionTime a\<rparr>"

definition build_record ::
  "'k CollectorConfig \<Rightarrow> string \<Rightarrow> fresh \<Rightarrow> string \<times> string \<Rightarrow> string \<Rightarrow> TelemetryEvent \<Rightarrow> SDR" where
  "build_record cfg session fr info parentSpanID ev =
     (let ts = (if tv_Timestamp ev = 0 then fr_now fr else tv_Timestamp ev) in
      \<lparr>sdr_SDRVersion = SDRVersion, sdr_SDRID = fr_sdr fr, sdr_TenantID = cc_TenantID cfg,
       sdr_AgentID = cc_AgentID cfg, sdr_OccurredAt = ts, sdr_ReceivedAt = 0,
       sdr_Action = \<lparr>ac_Type = tv_ActionType ev, ac_Target = tv_ActionTarget ev, ac_Params = tv_ActionParams ev\<rparr>,
       sdr_InputsDigest = [],
       sdr_Policy = \<lparr>po_BundleHash = [], po_Version = [], po_RulePath = tv_RulePath ev,
          po_Decision = tv_Decision ev, po_RequiredApprovals = 0\<rparr>,
       sdr_Approval = map_option approval_info (tv_Approval ev),
       sdr_Chain = \<lparr>cn_PrevHash = fst info, cn_RecordHash = [], cn_ChainID = snd info\<rparr>,
       sdr_Signing = unsigned_info ts,
       sdr_Runtime = \<lparr>ru_SidecarVersion = cc_SidecarVersion cfg, ru_HostFingerprint = [], ru_Framework = []\<rparr>,
       sdr_Telemetry = \<lparr>te_SessionID = session,
          te_SpanID = (if tv_SpanID ev = [] then fr_span fr else tv_SpanID ev),
          te_ParentSpanID = (if parentSpanID = [] then tv_ParentSpanID ev else parentSpanID),
          te_CorrelationID = cc_CorrelationID cfg\<rparr>,
       sdr_Enforcement = \<lparr>en_Mode = tv_EnforcementMode ev\<rparr>\<rparr>)"

text \<open>The hash of an unsigned record, left empty when the encoding fails.\<close>

definition hash_record :: "(string \<Rightarrow> string) \<Rightarrow> (int \<Rightarrow> string option) \<Rightarrow> SDR \<Rightarrow> SDR" where
  "hash_record hexsha fmt_time r =
     (case CanonicalJSON fmt_time r of
        Inl _ \<Rightarrow> r
      | Inr c \<Rightarrow> r\<lparr>sdr_Chain := (sdr_Chain r)\<lparr>cn_RecordHash := hexsha c\<rparr>\<rparr>)"

definition seal_record ::
  "(string \<Rightarrow> string) \<Rightarrow> (int \<Rightarrow> string option) \<Rightarrow> ('k \<Rightarrow> string \<Rightarrow> string) \<Rightarrow> int \<Rightarrow> 'k CollectorConfig \<Rightarrow>
   SDR \<Rightarrow> SDR" where
  "seal_record hexsha fmt_time ed_sign now cfg r =
     (case cc_SigningKey cfg of
        Some key \<Rightarrow>
          (case Sign hexsha fmt_time ed_sign now key (cc_KeyID cfg) r of
             Inr r' \<Rightarrow> r'
           | Inl _ \<Rightarrow> hash_record hexsha fmt_time (r\<lparr>sdr_Signing := unsigned_info (sg_SigningTime (sdr_Signing r))\<rparr>))
      | None \<Rightarrow> hash_record hexsha fmt_time r)"

text \<open>
  \<open>RecordWithParent\<close> takes the chain state's lock twice: to read the head of the chain, and to advance
  it. The three parts: reading, advancing with the finished record, and the send that drops the
  record when the queue is full.
\<close>

definition advance_with :: "fresh \<Rightarrow> SDR \<Rightarrow> 'k Collector \<Rightarrow> 'k Collector" where
  "advance_with fr r c =
     (if cn_RecordHash (sdr_Chain r) \<noteq> [] then
        (case Advance (fr_sync fr) (fr_now fr) (cn_RecordHash (sdr_Chain r)) (co_chainState c) (co_file c) of
           (cs, file) \<Rightarrow> c\<lparr>co_chainState := cs, co_file := file\<rparr>)
      else c)"

definition enqueue :: "SDR \<Rightarrow> 'k Collector \<Rightarrow> 'k Collector" where
  "enqueue r c =
     (if int (length (co_queue c)) < cc_QueueSize (co_cfg c)
      then c\<lparr>co_queue := co_queue c @ [r], co_eventsRecorded := co_eventsRecorded c + 1\<rparr>
      else c\<lparr>co_eventsDropped := co_eventsDropped c + 1\<rparr>)"

definition make_record ::
  "(string \<Rightarrow> string) \<Rightarrow> (int \<Rightarrow> string option) \<Rightarrow> ('k \<Rightarrow> string \<Rightarrow> string) \<Rightarrow> fresh \<Rightarrow> string \<Rightarrow>
   TelemetryEvent \<Rightarrow> string \<times> string \<Rightarrow> 'k Collector \<Rightarrow> SDR" where
  "make_record hexsha fmt_time ed_sign fr parent ev info c =
     seal_record hexsha fmt_time ed_sign (fr_now fr) (co_cfg c)
       (build_record (co_cfg c) (co_sessionID c) fr info parent ev)"

definition RecordWithParent ::
  "(string \<Rightarrow> string) \<Rightarrow> (int \<Rightarrow> string option) \<Rightarrow> ('k \<Rightarrow> string \<Rightarrow> string) \<Rightarrow> fresh \<Rightarrow> string \<Rightarrow>
   TelemetryEvent \<Rightarrow> 'k Collector \<Rightarrow> 'k Collector" where
  "RecordWithParent hexsha fmt_time ed_sign fr parent ev c =
     (let r = make_record hexsha fmt_time ed_sign fr parent ev (GetChainInfo (co_chainState c)) c
      in enqueue r (advance_with fr r c))"

definition Collector_Record ::
  "(string \<Rightarrow> string) \<Rightarrow> (int \<Rightarrow> string option) \<Rightarrow> ('k \<Rightarrow> string \<Rightarrow> string) \<Rightarrow> fresh \<Rightarrow>
   TelemetryEvent \<Rightarrow> 'k Collector \<Rightarrow> 'k Collector" where
  "Collector_Record hexsha fmt_time ed_sign fr ev c = RecordWithParent hexsha fmt_time ed_sign fr [] ev c"

definition Collector_Metrics :: "'k Collector \<Rightarrow> nat \<times> nat" where
  "Collector_Metrics c = (co_eventsRecorded c, co_eventsDropped c)"

section \<open>The export loop\<close>

text \<open>What the select gives in each round; \<open>ExDone\<close> carries what the queue still held.\<close>

datatype export_event = ExRecord SDR | ExTick | ExDone "SDR list"

record export_state =
  ex_batch :: "SDR list"
  ex_flushed :: "SDR list list"
  ex_running :: bool

definition flush_batch :: "export_state \<Rightarrow> export_state" where
  "flush_batch s = s\<lparr>ex_flushed := ex_flushed s @ [ex_batch s], ex_batch := []\<rparr>"

primrec exportLoop_step :: "export_event \<Rightarrow> export_state \<Rightarrow> export_state" where
  "exportLoop_step (ExRecord r) s =
     (let s1 = s\<lparr>ex_batch := ex_batch s @ [r]\<rparr>
      in if length (ex_batch s1) \<ge> 50 then flush_batch s1 else s1)"
| "exportLoop_step ExTick s = (if ex_batch s \<noteq> [] then flush_batch s else s)"
| "exportLoop_step (ExDone rest) s =
     (let s1 = s\<lparr>ex_batch := ex_batch s @ rest\<rparr>
      in (if ex_batch s1 \<noteq> [] then flush_batch s1 else s1)\<lparr>ex_running := False\<rparr>)"

fun exportLoop :: "export_event list \<Rightarrow> export_state \<Rightarrow> export_state" where
  "exportLoop [] s = s"
| "exportLoop (e # es) s = (if ex_running s then exportLoop es (exportLoop_step e s) else s)"

definition export_start :: export_state where
  "export_start = \<lparr>ex_batch = [], ex_flushed = [], ex_running = True\<rparr>"

section \<open>Facts on the records\<close>

lemma build_record_chain [simp]:
  "sdr_prev (build_record cfg session fr info parent ev) = fst info"
  by (simp add: build_record_def sdr_prev_def Let_def)

lemma sdr_prev_hash_record [simp]: "sdr_prev (hash_record hexsha fmt_time r) = sdr_prev r"
  by (simp add: hash_record_def sdr_prev_def split: sum.splits)

lemma sdr_prev_signing [simp]: "sdr_prev (r\<lparr>sdr_Signing := s\<rparr>) = sdr_prev r"
  by (simp add: sdr_prev_def)

lemma sdr_prev_hash_update [simp]:
  "sdr_prev (r\<lparr>sdr_Chain := (sdr_Chain r)\<lparr>cn_RecordHash := h\<rparr>\<rparr>) = sdr_prev r"
  by (simp add: sdr_prev_def)

lemma sdr_prev_Sign: "Sign hexsha fmt_time ed_sign now key keyID r = Inr r' \<Longrightarrow> sdr_prev r' = sdr_prev r"
  by (auto simp: Sign_def split: sum.splits)

lemma sdr_prev_seal_record [simp]: "sdr_prev (seal_record hexsha fmt_time ed_sign now cfg r) = sdr_prev r"
  by (simp add: seal_record_def sdr_prev_Sign split: option.splits sum.splits)

lemma sdr_prev_make_record [simp]: "sdr_prev (make_record hexsha fmt_time ed_sign fr parent ev info c) = fst info"
  by (simp add: make_record_def)

lemma CanonicalJSON_total:
  assumes "\<forall>t. fmt_time t \<noteq> None"
  obtains C where "\<And>r. CanonicalJSON fmt_time r = Inr (C r)"
proof -
  have ap: "approval_json fmt_time p \<noteq> None" for p
    using assms by (cases p) (auto simp: approval_json_def)
  have sg: "signing_json fmt_time p \<noteq> None" for p using assms by (auto simp: signing_json_def)
  have "CanonicalJSON fmt_time r = Inr (projr (CanonicalJSON fmt_time r))" for r
  proof -
    have "sdr_fields fmt_time r \<noteq> None"
      using ap [of "sdr_Approval r"] sg [of "sdr_Signing r"] assms [rule_format, of "sdr_OccurredAt r"]
        assms [rule_format, of "sdr_ReceivedAt r"]
      unfolding sdr_fields_def
      by (cases "fmt_time (sdr_OccurredAt r)"; cases "fmt_time (sdr_ReceivedAt r)";
          cases "approval_json fmt_time (sdr_Approval r)"; cases "signing_json fmt_time (sdr_Signing r)") simp_all
    then show ?thesis by (cases "sdr_fields fmt_time r") (simp_all add: CanonicalJSON_def)
  qed
  then show thesis by (rule that)
qed

lemma sdr_hash_make_record_is:
  assumes "\<forall>t. fmt_time t \<noteq> None"
  shows "\<exists>x. sdr_hash (make_record hexsha fmt_time ed_sign fr parent ev info c) = hexsha x"
proof -
  obtain C where C: "\<And>r. CanonicalJSON fmt_time r = Inr (C r)" using CanonicalJSON_total [OF assms] by blast
  show ?thesis
    by (cases "cc_SigningKey (co_cfg c)")
      (auto simp: make_record_def seal_record_def hash_record_def Sign_def sdr_hash_def C)
qed

lemma sdr_hash_make_record:
  assumes "\<forall>t. fmt_time t \<noteq> None" "\<forall>x. hexsha x \<noteq> []"
  shows "sdr_hash (make_record hexsha fmt_time ed_sign fr parent ev info c) \<noteq> []"
  using sdr_hash_make_record_is [OF assms(1), of hexsha ed_sign fr parent ev info c] assms(2) by metis

lemma PrevHash_Advance [simp]: "cs_PrevHash (fst (Advance ok now h cs file)) = h"
  by (simp add: Advance_def syncLocked_def Let_def)

lemma PrevHash_advance_with:
  "sdr_hash r \<noteq> [] \<Longrightarrow> cs_PrevHash (co_chainState (advance_with fr r c)) = sdr_hash r"
  by (auto simp: advance_with_def sdr_hash_def split: prod.splits) (metis PrevHash_Advance fst_conv)

lemma advance_with_frame [simp]:
  "co_queue (advance_with fr r c) = co_queue c" "co_cfg (advance_with fr r c) = co_cfg c"
  by (auto simp: advance_with_def split: prod.splits)

lemma enqueue_frame [simp]: "co_cfg (enqueue r c) = co_cfg c" "co_chainState (enqueue r c) = co_chainState c"
  by (simp_all add: enqueue_def)

definition record_all ::
  "(string \<Rightarrow> string) \<Rightarrow> (int \<Rightarrow> string option) \<Rightarrow> ('k \<Rightarrow> string \<Rightarrow> string) \<Rightarrow>
   (fresh \<times> string \<times> TelemetryEvent) list \<Rightarrow> 'k Collector \<Rightarrow> 'k Collector" where
  "record_all hexsha fmt_time ed_sign calls c =
     fold (\<lambda>(fr, parent, ev). RecordWithParent hexsha fmt_time ed_sign fr parent ev) calls c"

lemma record_one:
  assumes "\<forall>t. fmt_time t \<noteq> None" "\<forall>x. hexsha x \<noteq> []" "int (length (co_queue c)) < cc_QueueSize (co_cfg c)"
  shows "\<exists>r. co_queue (RecordWithParent hexsha fmt_time ed_sign fr parent ev c) = co_queue c @ [r] \<and>
    sdr_prev r = cs_PrevHash (co_chainState c) \<and>
    cs_PrevHash (co_chainState (RecordWithParent hexsha fmt_time ed_sign fr parent ev c)) = sdr_hash r \<and>
    co_cfg (RecordWithParent hexsha fmt_time ed_sign fr parent ev c) = co_cfg c"
proof -
  let ?r = "make_record hexsha fmt_time ed_sign fr parent ev (GetChainInfo (co_chainState c)) c"
  have "co_queue (RecordWithParent hexsha fmt_time ed_sign fr parent ev c) = co_queue c @ [?r]"
    using assms(3) by (simp add: RecordWithParent_def enqueue_def Let_def)
  moreover have "sdr_prev ?r = cs_PrevHash (co_chainState c)" by (simp add: GetChainInfo_def)
  moreover have "cs_PrevHash (co_chainState (RecordWithParent hexsha fmt_time ed_sign fr parent ev c)) = sdr_hash ?r"
    by (simp add: RecordWithParent_def Let_def PrevHash_advance_with sdr_hash_make_record [OF assms(1,2)])
  moreover have "co_cfg (RecordWithParent hexsha fmt_time ed_sign fr parent ev c) = co_cfg c"
    by (simp add: RecordWithParent_def Let_def)
  ultimately show ?thesis by blast
qed

lemma record_all_linked:
  assumes "\<forall>t. fmt_time t \<noteq> None" "\<forall>x. hexsha x \<noteq> []"
  shows "int (length (co_queue c) + length calls) \<le> cc_QueueSize (co_cfg c) \<Longrightarrow>
    \<exists>rs. co_queue (record_all hexsha fmt_time ed_sign calls c) = co_queue c @ rs \<and> length rs = length calls \<and>
      linked_from sdr_prev sdr_hash (cs_PrevHash (co_chainState c)) rs"
proof (induction calls arbitrary: c)
  case Nil
  then show ?case by (simp add: record_all_def)
next
  case (Cons x calls)
  obtain fr parent ev where x: "x = (fr, parent, ev)" by (cases x)
  let ?c = "RecordWithParent hexsha fmt_time ed_sign fr parent ev c"
  have "int (length (co_queue c)) < cc_QueueSize (co_cfg c)" using Cons.prems by simp
  from record_one [OF assms this, of ed_sign fr parent ev] obtain r where
    r: "co_queue ?c = co_queue c @ [r]" "sdr_prev r = cs_PrevHash (co_chainState c)"
      "cs_PrevHash (co_chainState ?c) = sdr_hash r" "co_cfg ?c = co_cfg c" by blast
  have "int (length (co_queue ?c) + length calls) \<le> cc_QueueSize (co_cfg ?c)"
    using Cons.prems r by simp
  from Cons.IH [OF this] obtain rs where rs: "co_queue (record_all hexsha fmt_time ed_sign calls ?c) = co_queue ?c @ rs"
    "length rs = length calls" "linked_from sdr_prev sdr_hash (sdr_hash r) rs" using r(3) by auto
  have "record_all hexsha fmt_time ed_sign (x # calls) c = record_all hexsha fmt_time ed_sign calls ?c"
    by (simp add: record_all_def x)
  with rs r show ?case by (intro exI [of _ "r # rs"]) simp
qed

section \<open>Properties\<close>

text \<open>
  Calls of the collector that run one after the other keep the chain: as long as the queue has
  room, the records they append continue from the head the chain state held before, each naming the
  hash of the one before it, for every event, signed or not.
\<close>

theorem sequential_records_chain:
  assumes "\<forall>t. fmt_time t \<noteq> None" "\<forall>x. hexsha x \<noteq> []"
    and "int (length (co_queue c) + length calls) \<le> cc_QueueSize (co_cfg c)"
    and "cs_PrevHash (co_chainState c) \<noteq> []"
  shows "ValidateChainContinuity
      (drop (length (co_queue c)) (co_queue (record_all hexsha fmt_time ed_sign calls c)))
      (cs_PrevHash (co_chainState c)) = None \<and>
    length (co_queue (record_all hexsha fmt_time ed_sign calls c)) = length (co_queue c) + length calls"
  using record_all_linked [OF assms(1-3), of ed_sign] assms(4)
  by (auto simp: ValidateChainContinuity_iff)

definition sample_event :: TelemetryEvent where
  "sample_event = \<lparr>tv_Timestamp = 0, tv_ActionType = ''egress'', tv_ActionTarget = ''h'', tv_ActionParams = [],
     tv_Decision = ''allow'', tv_RulePath = ''r'', tv_EnforcementMode = ''enforce'', tv_SpanID = [],
     tv_ParentSpanID = [], tv_Approval = None\<rparr>"

definition sample_fresh :: fresh where
  "sample_fresh = \<lparr>fr_now = 5, fr_span = ''s'', fr_sdr = ''i'', fr_sync = True\<rparr>"

definition sample_collector :: "string Collector" where
  "sample_collector = NewCollector ''a'' ''s''
     \<lparr>cc_AgentID = [], cc_TenantID = ''t'', cc_CorrelationID = [], cc_SidecarVersion = ''1'', cc_QueueSize = 0,
      cc_SigningKey = Some ''k'', cc_KeyID = ''kid''\<rparr>
     (LoadChainState Missing ''/p'') Missing"

definition hash_tag :: "string \<Rightarrow> string" where
  "hash_tag s = CHR ''#'' # nat_dec (length s)"

lemma hash_tag_not_genesis: "hash_tag x \<noteq> GenesisHash"
  by (simp add: hash_tag_def GenesisHash_def)

theorem sequential_records_chain_witness:
  "ValidateChainContinuity
      (drop (length (co_queue sample_collector)) (co_queue (record_all hash_tag some_dec toy_sign
         [(sample_fresh, [], sample_event), (sample_fresh, ''p'', sample_event)] sample_collector)))
      (cs_PrevHash (co_chainState sample_collector)) = None \<and>
    length (co_queue (record_all hash_tag some_dec toy_sign
      [(sample_fresh, [], sample_event), (sample_fresh, ''p'', sample_event)] sample_collector))
     = length (co_queue sample_collector) + length [(sample_fresh, [], sample_event), (sample_fresh, ''p'', sample_event)]"
  by (rule sequential_records_chain)
    (simp_all add: some_dec_def hash_tag_def sample_collector_def NewCollector_def LoadChainState_def
      genesis_state_def GenesisHash_def Let_def)

text \<open>
  Calls that overlap fork the chain: when two calls both read the head of the chain before either
  advances it, the two records they queue name the same previous hash, and the queue is not a chain,
  whatever the events are, unless a record's hash is its previous hash.
\<close>

theorem concurrent_records_fork:
  assumes "co_queue c = []" "2 \<le> cc_QueueSize (co_cfg c)"
    and "info = GetChainInfo (co_chainState c)"
    and "r = make_record hexsha fmt_time ed_sign fr parent ev info c"
    and "r' = make_record hexsha fmt_time ed_sign fr' parent' ev' info c"
    and "sdr_hash r \<noteq> cs_PrevHash (co_chainState c)"
    and "c' = enqueue r' (advance_with fr' r' (enqueue r (advance_with fr r c)))"
  shows "map sdr_prev (co_queue c') = [fst info, fst info] \<and>
    (\<forall>g. ValidateChainContinuity (co_queue c') g \<noteq> None)"
proof -
  have q: "co_queue c' = [r, r']" using assms(1,2,7) by (simp add: enqueue_def)
  have "sdr_prev r = fst info" "sdr_prev r' = fst info" using assms(4,5) by simp_all
  moreover have "sdr_hash r \<noteq> fst info" using assms(3,6) by (simp add: GetChainInfo_def)
  ultimately show ?thesis by (auto simp: q ValidateChainContinuity_iff)
qed

theorem concurrent_records_fork_witness:
  "let c = sample_collector; info = GetChainInfo (co_chainState c);
       r = make_record hash_tag some_dec toy_sign sample_fresh [] sample_event info c;
       r' = make_record hash_tag some_dec toy_sign sample_fresh ''p'' sample_event info c;
       c' = enqueue r' (advance_with sample_fresh r' (enqueue r (advance_with sample_fresh r c)))
   in map sdr_prev (co_queue c') = [fst info, fst info] \<and> (\<forall>g. ValidateChainContinuity (co_queue c') g \<noteq> None)"
  unfolding Let_def
proof (rule concurrent_records_fork)
  show "co_queue sample_collector = []" "2 \<le> cc_QueueSize (co_cfg sample_collector)"
    by (simp_all add: sample_collector_def NewCollector_def Let_def)
  have prev: "cs_PrevHash (co_chainState sample_collector) = GenesisHash"
    by (simp add: sample_collector_def NewCollector_def LoadChainState_def genesis_state_def Let_def)
  have "\<forall>t. some_dec t \<noteq> None" by (simp add: some_dec_def)
  from sdr_hash_make_record_is [OF this]
  have "\<exists>x. sdr_hash (make_record hash_tag some_dec toy_sign sample_fresh [] sample_event i sample_collector) = hash_tag x" for i
    by blast
  then show "sdr_hash (make_record hash_tag some_dec toy_sign sample_fresh [] sample_event
      (GetChainInfo (co_chainState sample_collector)) sample_collector) \<noteq> cs_PrevHash (co_chainState sample_collector)"
    unfolding prev using hash_tag_not_genesis by metis
qed simp_all

definition received :: "export_event list \<Rightarrow> SDR list" where
  "received es = concat (map (\<lambda>e. case e of ExRecord r \<Rightarrow> [r] | ExTick \<Rightarrow> [] | ExDone rest \<Rightarrow> rest) es)"

definition export_inv :: "export_state \<Rightarrow> bool" where
  "export_inv s \<longleftrightarrow> (ex_running s \<longrightarrow> length (ex_batch s) < 50 \<and> (\<forall>b \<in> set (ex_flushed s). length b \<le> 50)) \<and>
     (\<not> ex_running s \<longrightarrow> ex_batch s = [] \<and> (\<forall>b \<in> set (butlast (ex_flushed s)). length b \<le> 50)) \<and>
     (\<forall>b \<in> set (ex_flushed s). b \<noteq> [])"

lemma exportLoop_step_inv:
  assumes "export_inv s" "ex_running s"
  shows "export_inv (exportLoop_step e s) \<and>
    concat (ex_flushed (exportLoop_step e s)) @ ex_batch (exportLoop_step e s)
      = concat (ex_flushed s) @ ex_batch s @ received [e]"
proof (cases e)
  case (ExDone rest)
  have "\<forall>b \<in> set (butlast (ex_flushed s)). length b \<le> 50"
    using assms by (auto simp: export_inv_def dest: in_set_butlastD)
  with ExDone assms show ?thesis by (auto simp: export_inv_def flush_batch_def received_def Let_def)
qed (use assms in \<open>auto simp: export_inv_def flush_batch_def received_def Let_def\<close>)

text \<open>
  The export loop hands every record to the exporters exactly once, in the order of the queue and
  in batches that are not empty, and a batch holds at most 50 records unless it is the last one,
  flushed at shutdown; a batch is waiting only while it holds fewer than 50.
\<close>

theorem export_exactly_once:
  assumes "\<forall>e \<in> set (butlast es). \<forall>rest. e \<noteq> ExDone rest"
  shows "let s = exportLoop es export_start in
    concat (ex_flushed s) @ ex_batch s = received es \<and> export_inv s"
proof -
  have "export_inv s \<Longrightarrow> ex_running s \<Longrightarrow> \<forall>e \<in> set (butlast es). \<forall>rest. e \<noteq> ExDone rest \<Longrightarrow>
    concat (ex_flushed (exportLoop es s)) @ ex_batch (exportLoop es s)
      = concat (ex_flushed s) @ ex_batch s @ received es \<and> export_inv (exportLoop es s)" for s
  proof (induction es arbitrary: s)
    case Nil
    then show ?case by (simp add: received_def)
  next
    case (Cons e es)
    from exportLoop_step_inv [OF Cons.prems(1,2), of e]
    have step: "export_inv (exportLoop_step e s)" "concat (ex_flushed (exportLoop_step e s)) @ ex_batch (exportLoop_step e s)
      = concat (ex_flushed s) @ ex_batch s @ received [e]" by auto
    have rec: "received (e # es) = received [e] @ received es" by (simp add: received_def)
    show ?case
    proof (cases es)
      case Nil
      with step Cons.prems(2) show ?thesis by (simp add: received_def)
    next
      case (Cons e' es')
      with Cons.prems(3) have e: "\<forall>rest. e \<noteq> ExDone rest" "\<forall>e \<in> set (butlast es). \<forall>rest. e \<noteq> ExDone rest" by auto
      then have "ex_running (exportLoop_step e s)"
        using Cons.prems(2) by (cases e) (auto simp: flush_batch_def Let_def)
      from Cons.IH [OF step(1) this e(2)] step(2) rec Cons.prems(2) show ?thesis by simp
    qed
  qed
  from this [of export_start] assms show ?thesis by (simp add: export_start_def export_inv_def Let_def)
qed

theorem export_exactly_once_witness:
  "let s = exportLoop [ExRecord sample_sdr, ExTick, ExDone [sample_sdr]] export_start in
    concat (ex_flushed s) @ ex_batch s = received [ExRecord sample_sdr, ExTick, ExDone [sample_sdr]] \<and> export_inv s"
  by (rule export_exactly_once) simp

end
