(* ===== verification/Http.thy ===== *)
theory Http
  imports Go_Strings
begin

text \<open>
  Requests and headers, as far as the handlers of the program look at them: header names compare
  without regard to case, a name may have several values, reading gives the first.
\<close>

type_synonym headers = "(string \<times> string) list"

definition same_name :: "string \<Rightarrow> string \<Rightarrow> bool" where
  "same_name a b \<longleftrightarrow> ToLower a = ToLower b"

definition header_get :: "headers \<Rightarrow> string \<Rightarrow> string" where
  "header_get hs k = (case find (\<lambda>(k', v). same_name k' k) hs of Some (k', v) \<Rightarrow> v | None \<Rightarrow> [])"

definition header_del :: "string \<Rightarrow> headers \<Rightarrow> headers" where
  "header_del k hs = filter (\<lambda>(k', v). \<not> same_name k' k) hs"

definition header_set :: "string \<Rightarrow> string \<Rightarrow> headers \<Rightarrow> headers" where
  "header_set k v hs = header_del k hs @ [(k, v)]"

definition header_add :: "string \<Rightarrow> string \<Rightarrow> headers \<Rightarrow> headers" where
  "header_add k v hs = hs @ [(k, v)]"

definition has_header :: "headers \<Rightarrow> string \<Rightarrow> bool" where
  "has_header hs k \<longleftrightarrow> list_ex (\<lambda>(k', v). same_name k' k) hs"

record Request =
  rq_Method :: string
  rq_Host :: string
  rq_Path :: string
  rq_Query :: string
  rq_IP :: string
  rq_Headers :: headers
  rq_Body :: string

text \<open>What a middleware does: hand the request on, or answer with a status and an error text.\<close>

datatype verdict = CallNext | Reply nat string

lemma same_name_refl [simp]: "same_name k k"
  by (simp add: same_name_def)

lemma same_name_sym: "same_name a b = same_name b a"
  by (auto simp: same_name_def)

lemma same_name_trans: "same_name a b \<Longrightarrow> same_name b c \<Longrightarrow> same_name a c"
  by (simp add: same_name_def)

lemma has_header_del [simp]: "has_header (header_del k hs) k' \<longleftrightarrow> has_header hs k' \<and> \<not> same_name k k'"
  by (auto simp: has_header_def header_del_def list_ex_iff same_name_def)

lemma has_header_append [simp]: "has_header (hs @ hs') k \<longleftrightarrow> has_header hs k \<or> has_header hs' k"
  by (simp add: has_header_def)

lemma has_header_single [simp]: "has_header [(k, v)] k' \<longleftrightarrow> same_name k k'"
  by (simp add: has_header_def)

lemma has_header_set [simp]: "has_header (header_set k v hs) k' \<longleftrightarrow> same_name k k' \<or> has_header hs k'"
  by (auto simp: header_set_def)

lemma header_get_none: "\<not> has_header hs k \<Longrightarrow> header_get hs k = []"
  by (auto simp: has_header_def header_get_def list_ex_iff find_Some_iff split: option.splits)
    (metis case_prodI nth_mem)

lemma header_get_append:
  "header_get (hs @ hs') k = (if has_header hs k then header_get hs k else header_get hs' k)"
  by (induction hs) (auto simp: header_get_def has_header_def)

lemma header_get_set [simp]: "header_get (header_set k v hs) k = v"
  by (simp add: header_set_def header_get_append) (simp add: header_get_def)

lemma header_del_same [simp]: "header_del k (header_del k hs) = header_del k hs"
  by (simp add: header_del_def)

lemma has_header_fold_del:
  "has_header (fold header_del ks hs) k \<longleftrightarrow> has_header hs k \<and> \<not> list_ex (\<lambda>k'. same_name k' k) ks"
  by (induction ks arbitrary: hs) auto

end
