(* ===== verification/Go_Regexp.thy ===== *)
theory Go_Regexp
  imports Go_Strings
begin

text \<open>
  The matching half of Go's \<open>regexp\<close> package, as far as the program uses it: syntax trees of
  the patterns, the leftmost-first search (\<^verbatim>\<open>MatchString\<close>,
  \<^verbatim>\<open>FindStringSubmatch\<close>, \<^verbatim>\<open>FindAllStringSubmatch\<close>) and its captures.

  A pattern is run by enumerating its matches in the order a backtracking matcher tries them;
  RE2 returns the first of them, the same match without the backtracking. A position in the
  subject is a zipper: the text before it reversed, and the text after it.

  Parsing a pattern's text is not modelled: the patterns of the source are written as trees, and
  the patterns of a configuration file reach the model already compiled.
\<close>

section \<open>Syntax trees\<close>

datatype rx =
    REmpty
  | RCls bool "(nat \<times> nat) list"   \<comment> \<open>a class: negated?, ranges of bytes\<close>
  | RAny                               \<comment> \<open>\<^verbatim>\<open>.\<close>: any byte but a newline\<close>
  | RSeq rx rx
  | RAlt rx rx
  | RStar bool rx                      \<comment> \<open>greedy?\<close>
  | RBol                               \<comment> \<open>\<^verbatim>\<open>^\<close>\<close>
  | REol                               \<comment> \<open>\<^verbatim>\<open>$\<close>, the end of the text\<close>
  | RWordB                             \<comment> \<open>\<^verbatim>\<open>\b\<close>\<close>
  | RGrp nat rx

definition rx_byte :: "char \<Rightarrow> rx" where
  "rx_byte c = RCls False [(byte_of c, byte_of c)]"

definition rx_lit :: "string \<Rightarrow> rx" where
  "rx_lit s = foldr (\<lambda>c r. RSeq (rx_byte c) r) s REmpty"

definition rx_seq :: "rx list \<Rightarrow> rx" where
  "rx_seq rs = foldr RSeq rs REmpty"

definition rx_opt :: "rx \<Rightarrow> rx" where
  "rx_opt r = RAlt r REmpty"

definition rx_star :: "rx \<Rightarrow> rx" where
  "rx_star r = RStar True r"

definition rx_plus :: "rx \<Rightarrow> rx" where
  "rx_plus r = RSeq r (RStar True r)"

definition rx_plus_lazy :: "rx \<Rightarrow> rx" where
  "rx_plus_lazy r = RSeq r (RStar False r)"

definition rx_alts :: "rx list \<Rightarrow> rx" where
  "rx_alts rs = foldr RAlt (butlast rs) (last rs)"

text \<open>\<^verbatim>\<open>\s\<close> is \<^verbatim>\<open>[\t\n\f\r ]\<close> (no vertical tab), \<^verbatim>\<open>\d\<close> is \<^verbatim>\<open>[0-9]\<close>.\<close>

definition rx_space :: rx where
  "rx_space = RCls False [(9, 10), (12, 13), (32, 32)]"

definition rx_digit :: rx where
  "rx_digit = RCls False [(48, 57)]"

section \<open>Running a pattern\<close>

record rx_state =
  rx_left :: string                    \<comment> \<open>the text before the position, reversed\<close>
  rx_right :: string
  rx_caps :: "nat \<Rightarrow> string option"

definition in_ranges :: "(nat \<times> nat) list \<Rightarrow> nat \<Rightarrow> bool" where
  "in_ranges rs n \<longleftrightarrow> list_ex (\<lambda>(lo, hi). lo \<le> n \<and> n \<le> hi) rs"

definition is_word_byte :: "char \<Rightarrow> bool" where
  "is_word_byte c \<longleftrightarrow> in_ranges [(48, 57), (65, 90), (95, 95), (97, 122)] (byte_of c)"

definition word_here :: "string \<Rightarrow> bool" where
  "word_here s = (case s of [] \<Rightarrow> False | c # _ \<Rightarrow> is_word_byte c)"

definition step_byte :: "(char \<Rightarrow> bool) \<Rightarrow> rx_state \<Rightarrow> rx_state list" where
  "step_byte P st = (case rx_right st of [] \<Rightarrow> []
     | c # cs \<Rightarrow> if P c then [st\<lparr>rx_left := c # rx_left st, rx_right := cs\<rparr>] else [])"

text \<open>
  The iterations of a star: an iteration must consume something, so the length of the remaining
  text is enough fuel (\<open>star_run_fuel\<close> below).
\<close>

primrec star_run :: "nat \<Rightarrow> bool \<Rightarrow> (rx_state \<Rightarrow> rx_state list) \<Rightarrow> rx_state \<Rightarrow> rx_state list" where
  "star_run 0 g m st = [st]"
| "star_run (Suc n) g m st =
     (let more = concat (map (star_run n g m)
                   (filter (\<lambda>t. length (rx_right t) < length (rx_right st)) (m st)))
      in if g then more @ [st] else st # more)"

primrec rx_run :: "rx \<Rightarrow> rx_state \<Rightarrow> rx_state list" where
  "rx_run REmpty st = [st]"
| "rx_run (RCls neg rs) st = step_byte (\<lambda>c. in_ranges rs (byte_of c) \<noteq> neg) st"
| "rx_run RAny st = step_byte (\<lambda>c. byte_of c \<noteq> 10) st"
| "rx_run (RSeq a b) st = concat (map (rx_run b) (rx_run a st))"
| "rx_run (RAlt a b) st = rx_run a st @ rx_run b st"
| "rx_run (RStar g a) st = star_run (length (rx_right st)) g (rx_run a) st"
| "rx_run RBol st = (if rx_left st = [] then [st] else [])"
| "rx_run REol st = (if rx_right st = [] then [st] else [])"
| "rx_run RWordB st = (if word_here (rx_left st) \<noteq> word_here (rx_right st) then [st] else [])"
| "rx_run (RGrp i a) st =
     map (\<lambda>t. t\<lparr>rx_caps := (rx_caps t)
            (i := Some (take (length (rx_right st) - length (rx_right t)) (rx_right st)))\<rparr>)
       (rx_run a st)"

section \<open>Searching\<close>

definition rx_start :: "string \<Rightarrow> string \<Rightarrow> rx_state" where
  "rx_start l r = \<lparr>rx_left = l, rx_right = r, rx_caps = (\<lambda>_. None)\<rparr>"

fun rx_find :: "rx \<Rightarrow> string \<Rightarrow> string \<Rightarrow> rx_state option" where
  "rx_find p l [] = (case rx_run p (rx_start l []) of st # _ \<Rightarrow> Some st | [] \<Rightarrow> None)"
| "rx_find p l (c # cs) = (case rx_run p (rx_start l (c # cs)) of
       st # _ \<Rightarrow> Some st
     | [] \<Rightarrow> rx_find p (c # l) cs)"

definition MatchString :: "rx \<Rightarrow> string \<Rightarrow> bool" where
  "MatchString p s \<longleftrightarrow> rx_find p [] s \<noteq> None"

text \<open>\<^verbatim>\<open>matches := p.FindStringSubmatch(s); matches[1]\<close>, \<open>None\<close> when there is no match.\<close>

definition FindSubmatch1 :: "rx \<Rightarrow> string \<Rightarrow> string option" where
  "FindSubmatch1 p s = Option.bind (rx_find p [] s) (\<lambda>st. rx_caps st 1)"

text \<open>
  \<^verbatim>\<open>FindAllStringSubmatch(s, -1)\<close>: successive matches, each search starting where the last
  match ended. The program's two patterns never match the empty string; after an empty match the
  search would move on by one byte.
\<close>

function rx_find_all :: "rx \<Rightarrow> string \<Rightarrow> string \<Rightarrow> rx_state list" where
  "rx_find_all p l r = (case rx_find p l r of
       None \<Rightarrow> []
     | Some st \<Rightarrow>
         if length (rx_right st) < length r then st # rx_find_all p (rx_left st) (rx_right st)
         else (case r of [] \<Rightarrow> [st] | c # cs \<Rightarrow> st # rx_find_all p (c # l) cs))"
  by pat_completeness auto
termination
  by (relation "measure (\<lambda>(p, l, r). length r)") auto

declare rx_find_all.simps [simp del]

definition FindAllSubmatch1 :: "rx \<Rightarrow> string \<Rightarrow> string list" where
  "FindAllSubmatch1 p s = List.map_filter (\<lambda>st. rx_caps st 1) (rx_find_all p [] s)"

text \<open>More fuel than the length of the remaining text changes nothing.\<close>

lemma star_run_fuel:
  "length (rx_right st) \<le> n \<Longrightarrow> length (rx_right st) \<le> k \<Longrightarrow> star_run n g m st = star_run k g m st"
proof (induction n arbitrary: k st)
  case 0
  then show ?case by (cases k) auto
next
  case (Suc n)
  show ?case
  proof (cases k)
    case 0
    with Suc.prems show ?thesis by simp
  next
    case (Suc k')
    have "star_run n g m t = star_run k' g m t"
      if "t \<in> set (filter (\<lambda>t. length (rx_right t) < length (rx_right st)) (m st))" for t
      using that Suc.prems Suc by (intro Suc.IH) auto
    then have "map (star_run n g m) (filter (\<lambda>t. length (rx_right t) < length (rx_right st)) (m st))
        = map (star_run k' g m) (filter (\<lambda>t. length (rx_right t) < length (rx_right st)) (m st))"
      by (rule map_cong [OF refl])
    then show ?thesis using Suc by (simp only: star_run.simps)
  qed
qed

section \<open>What a run consumes\<close>

text \<open>The least number of bytes a match of the pattern consumes.\<close>

primrec rx_min :: "rx \<Rightarrow> nat" where
  "rx_min REmpty = 0"
| "rx_min (RCls neg rs) = 1"
| "rx_min RAny = 1"
| "rx_min (RSeq a b) = rx_min a + rx_min b"
| "rx_min (RAlt a b) = min (rx_min a) (rx_min b)"
| "rx_min (RStar g a) = 0"
| "rx_min RBol = 0"
| "rx_min REol = 0"
| "rx_min RWordB = 0"
| "rx_min (RGrp i a) = rx_min a"

primrec rx_groups :: "rx \<Rightarrow> nat list" where
  "rx_groups REmpty = []"
| "rx_groups (RCls neg rs) = []"
| "rx_groups RAny = []"
| "rx_groups (RSeq a b) = rx_groups a @ rx_groups b"
| "rx_groups (RAlt a b) = rx_groups a @ rx_groups b"
| "rx_groups (RStar g a) = rx_groups a"
| "rx_groups RBol = []"
| "rx_groups REol = []"
| "rx_groups RWordB = []"
| "rx_groups (RGrp i a) = i # rx_groups a"

text \<open>\<open>t\<close> is reached from \<open>s\<close> by moving over at least \<open>n\<close> bytes.\<close>

definition moved :: "nat \<Rightarrow> rx_state \<Rightarrow> rx_state \<Rightarrow> bool" where
  "moved n s t \<longleftrightarrow> (\<exists>w. rx_right s = w @ rx_right t \<and> rx_left t = rev w @ rx_left s \<and> n \<le> length w)"

lemma moved_refl [simp]: "moved 0 s s"
  by (auto simp: moved_def)

lemma moved_trans: "moved m s t \<Longrightarrow> moved n t u \<Longrightarrow> moved (m + n) s u"
  by (fastforce simp: moved_def)

lemma moved_mono: "moved m s t \<Longrightarrow> n \<le> m \<Longrightarrow> moved n s t"
  by (fastforce simp: moved_def)

lemma moved_length: "moved n s t \<Longrightarrow> length (rx_right t) + n \<le> length (rx_right s)"
  by (auto simp: moved_def)

lemma moved_take:
  "moved n s t \<Longrightarrow> rx_right s = take (length (rx_right s) - length (rx_right t)) (rx_right s) @ rx_right t"
  by (auto simp: moved_def)

lemma moved_step_byte: "t \<in> set (step_byte P s) \<Longrightarrow> moved (Suc 0) s t"
  by (auto simp: moved_def step_byte_def split: list.splits if_splits)

lemma moved_star_run:
  assumes "\<And>s t. t \<in> set (m s) \<Longrightarrow> moved 0 s t"
  shows "t \<in> set (star_run n g m s) \<Longrightarrow> moved 0 s t"
proof (induction n arbitrary: s)
  case 0
  then show ?case by simp
next
  case (Suc n)
  then consider "t = s" | u where "u \<in> set (m s)" "t \<in> set (star_run n g m u)"
    by (auto simp: Let_def split: if_splits)
  then show ?case
  proof cases
    case 1
    then show ?thesis by simp
  next
    case 2
    then show ?thesis using moved_trans [OF assms Suc.IH] by fastforce
  qed
qed

lemma moved_rx_run: "t \<in> set (rx_run p s) \<Longrightarrow> moved (rx_min p) s t"
proof (induction p arbitrary: s t)
  case (RSeq a b)
  from RSeq.prems obtain m where "m \<in> set (rx_run a s)" "t \<in> set (rx_run b m)" by auto
  then have "moved (rx_min a) s m" "moved (rx_min b) m t" by (auto intro: RSeq.IH)
  then show ?case unfolding rx_min.simps by (rule moved_trans)
next
  case (RAlt a b)
  then show ?case
    by (auto intro: moved_mono [OF _ min.cobounded1] moved_mono [OF _ min.cobounded2]
        simp del: min.cobounded1 min.cobounded2)
next
  case (RStar g a)
  have "\<And>s t. t \<in> set (rx_run a s) \<Longrightarrow> moved 0 s t"
    using RStar.IH moved_mono by blast
  from moved_star_run [OF this] RStar.prems show ?case by simp
next
  case (RGrp i a)
  then show ?case by (fastforce simp: moved_def)
qed (auto simp: moved_step_byte split: if_splits)

section \<open>What a run captures\<close>

text \<open>Every capture is a part of the text in front of the run, or was there before.\<close>

definition caps_within :: "rx_state \<Rightarrow> rx_state \<Rightarrow> bool" where
  "caps_within s t \<longleftrightarrow> (\<forall>i w. rx_caps t i = Some w \<longrightarrow>
     rx_caps s i = Some w \<or> sublist w (rx_right s))"

lemma caps_within_refl [simp]: "caps_within s s"
  by (simp add: caps_within_def)

lemma moved_suffix: "moved n s t \<Longrightarrow> suffix (rx_right t) (rx_right s)"
  by (auto simp: moved_def suffix_def)

lemma caps_within_trans:
  assumes "moved n s t" "caps_within s t" "caps_within t u"
  shows "caps_within s u"
proof -
  have "sublist w (rx_right s)" if "sublist w (rx_right t)" for w
    using that moved_suffix [OF assms(1)] by (meson suffix_imp_sublist sublist_order.order.trans)
  then show ?thesis using assms(2,3) unfolding caps_within_def by blast
qed

lemma caps_within_same: "rx_caps t = rx_caps s \<Longrightarrow> caps_within s t"
  by (simp add: caps_within_def)

lemma caps_step_byte: "t \<in> set (step_byte P s) \<Longrightarrow> rx_caps t = rx_caps s"
  by (auto simp: step_byte_def split: list.splits if_splits)

lemma caps_star_run:
  assumes "\<And>s t. t \<in> set (m s) \<Longrightarrow> moved 0 s t \<and> caps_within s t"
  shows "t \<in> set (star_run n g m s) \<Longrightarrow> caps_within s t"
proof (induction n arbitrary: s)
  case 0
  then show ?case by simp
next
  case (Suc n)
  then consider "t = s" | u where "u \<in> set (m s)" "t \<in> set (star_run n g m u)"
    by (auto simp: Let_def split: if_splits)
  then show ?case
  proof cases
    case 1
    then show ?thesis by simp
  next
    case 2
    then show ?thesis using assms Suc.IH caps_within_trans by blast
  qed
qed

lemma caps_rx_run: "t \<in> set (rx_run p s) \<Longrightarrow> caps_within s t"
proof (induction p arbitrary: s t)
  case (RSeq a b)
  from RSeq.prems obtain m where m: "m \<in> set (rx_run a s)" "t \<in> set (rx_run b m)" by auto
  from caps_within_trans [OF moved_rx_run [OF m(1)] RSeq.IH(1) [OF m(1)] RSeq.IH(2) [OF m(2)]]
  show ?case .
next
  case (RStar g a)
  have "\<And>s t. t \<in> set (rx_run a s) \<Longrightarrow> moved 0 s t \<and> caps_within s t"
    using RStar.IH moved_rx_run moved_mono by blast
  from caps_star_run [OF this] RStar.prems show ?case by simp
next
  case (RGrp i a)
  then obtain u where u: "u \<in> set (rx_run a s)"
    and t: "t = u\<lparr>rx_caps := (rx_caps u)
      (i := Some (take (length (rx_right s) - length (rx_right u)) (rx_right s)))\<rparr>"
    by auto
  have "sublist (take (length (rx_right s) - length (rx_right u)) (rx_right s)) (rx_right s)"
    by (simp add: sublist_take)
  with RGrp.IH [OF u] t show ?case unfolding caps_within_def by (auto split: if_splits)
qed (auto intro: caps_within_same caps_step_byte split: if_splits)

lemma caps_star_run_same:
  assumes "\<And>s t. t \<in> set (m s) \<Longrightarrow> rx_caps t = rx_caps s"
  shows "t \<in> set (star_run n g m s) \<Longrightarrow> rx_caps t = rx_caps s"
proof (induction n arbitrary: s)
  case 0
  then show ?case by simp
next
  case (Suc n)
  then consider "t = s" | u where "u \<in> set (m s)" "t \<in> set (star_run n g m u)"
    by (auto simp: Let_def split: if_splits)
  then show ?case using Suc.IH assms by cases auto
qed

lemma caps_unchanged: "rx_groups p = [] \<Longrightarrow> t \<in> set (rx_run p s) \<Longrightarrow> rx_caps t = rx_caps s"
proof (induction p arbitrary: s t)
  case (RSeq a b)
  from RSeq.prems(2) obtain m where "m \<in> set (rx_run a s)" "t \<in> set (rx_run b m)" by auto
  then have "rx_caps m = rx_caps s" "rx_caps t = rx_caps m" using RSeq.IH RSeq.prems(1) by simp_all
  then show ?case by simp
next
  case (RStar g a)
  then have "\<And>s t. t \<in> set (rx_run a s) \<Longrightarrow> rx_caps t = rx_caps s" by simp
  from caps_star_run_same [OF this] RStar.prems(2) show ?case by simp
qed (auto simp: caps_step_byte split: if_splits)

section \<open>Captures of a search\<close>

lemma rx_find_run:
  "rx_find p l r = Some st \<Longrightarrow> \<exists>u v. r = u @ v \<and> st \<in> set (rx_run p (rx_start (rev u @ l) v))"
proof (induction r arbitrary: l)
  case Nil
  then show ?case by (auto split: list.splits)
next
  case (Cons c cs)
  show ?case
  proof (cases "rx_run p (rx_start l (c # cs))")
    case (Cons a as)
    with Cons.prems have "st \<in> set (rx_run p (rx_start (rev [] @ l) (c # cs)))" by simp
    then show ?thesis by (metis append_Nil)
  next
    case Nil
    with Cons.prems have "rx_find p (c # l) cs = Some st" by simp
    from Cons.IH [OF this] obtain u v where "cs = u @ v"
      "st \<in> set (rx_run p (rx_start (rev u @ c # l) v))" by blast
    then have "c # cs = (c # u) @ v \<and> st \<in> set (rx_run p (rx_start (rev (c # u) @ l) v))" by simp
    then show ?thesis by blast
  qed
qed

lemma rx_find_iff:
  "rx_find p l s \<noteq> None \<longleftrightarrow> (\<exists>u v. s = u @ v \<and> rx_run p (rx_start (rev u @ l) v) \<noteq> [])"
proof (induction s arbitrary: l)
  case Nil
  then show ?case by (auto split: list.splits)
next
  case (Cons c s)
  let ?Q = "\<lambda>u v. rx_run p (rx_start (rev u @ l) v) \<noteq> []"
  have "rx_find p l (c # s) \<noteq> None \<longleftrightarrow> ?Q [] (c # s) \<or> rx_find p (c # l) s \<noteq> None"
    by (auto split: list.splits)
  also have "\<dots> \<longleftrightarrow> ?Q [] (c # s) \<or> (\<exists>u v. s = u @ v \<and> ?Q (c # u) v)"
    unfolding Cons.IH by simp
  also have "\<dots> \<longleftrightarrow> (\<exists>u v. c # s = u @ v \<and> ?Q u v)"
    unfolding Cons_eq_append_conv by blast
  finally show ?case .
qed

lemma MatchString_iff:
  "MatchString p s \<longleftrightarrow> (\<exists>u v. s = u @ v \<and> rx_run p (rx_start (rev u) v) \<noteq> [])"
  using rx_find_iff [of p "[]" s] by (simp add: MatchString_def)

text \<open>
  The pattern begins with a part that consumes something and captures nothing: then every capture
  is strictly shorter than the subject. The recursive unwrapping of shell commands ends because
  of this.
\<close>

lemma capture_shorter:
  assumes "t \<in> set (rx_run (RSeq p q) (rx_start l r))" "rx_caps t i = Some w"
    and "rx_groups p = []" "0 < rx_min p"
  shows "length w < length r"
proof -
  from assms(1) obtain m where m: "m \<in> set (rx_run p (rx_start l r))" and t: "t \<in> set (rx_run q m)"
    by auto
  from caps_unchanged [OF assms(3) m] have "rx_caps m i = None" by (simp add: rx_start_def)
  with caps_rx_run [OF t] assms(2) have "sublist w (rx_right m)"
    unfolding caps_within_def by fastforce
  then have "length w \<le> length (rx_right m)" by (rule sublist_length_le)
  moreover have "length (rx_right m) + rx_min p \<le> length r"
    using moved_length [OF moved_rx_run [OF m]] by (simp add: rx_start_def)
  ultimately show ?thesis using assms(4) by simp
qed

lemma FindSubmatch1_shorter:
  assumes "FindSubmatch1 (RSeq p q) s = Some w" "rx_groups p = []" "0 < rx_min p"
  shows "length w < length s"
proof -
  from assms(1) obtain st where st: "rx_find (RSeq p q) [] s = Some st" "rx_caps st 1 = Some w"
    by (auto simp: FindSubmatch1_def bind_eq_Some_conv)
  from rx_find_run [OF st(1)] obtain u v where s: "s = u @ v"
    and run: "st \<in> set (rx_run (RSeq p q) (rx_start (rev u @ []) v))" by blast
  from capture_shorter [OF run st(2) assms(2,3)] s show ?thesis by simp
qed

lemma rx_find_all_None: "rx_find p l r = None \<Longrightarrow> rx_find_all p l r = []"
  by (subst rx_find_all.simps) simp

lemma rx_find_all_step:
  "rx_find p l r = Some m \<Longrightarrow> length (rx_right m) < length r \<Longrightarrow>
   rx_find_all p l r = m # rx_find_all p (rx_left m) (rx_right m)"
  by (subst rx_find_all.simps) simp

lemma rx_find_all_empty:
  "rx_find p l r = Some m \<Longrightarrow> \<not> length (rx_right m) < length r \<Longrightarrow>
   rx_find_all p l r = m # (case r of [] \<Rightarrow> [] | c # cs \<Rightarrow> rx_find_all p (c # l) cs)"
  by (subst rx_find_all.simps) (simp split: list.splits)

lemma rx_find_all_cases:
  assumes "st \<in> set (rx_find_all p l r)"
  obtains (first) m where "rx_find p l r = Some m" "st = m"
  | (later) l' r' where "length r' < length r" "st \<in> set (rx_find_all p l' r')"
proof (cases "rx_find p l r")
  case None
  with assms show thesis by (simp add: rx_find_all_None)
next
  case (Some m)
  show thesis
  proof (cases "length (rx_right m) < length r")
    case True
    with Some assms show thesis by (auto simp: rx_find_all_step intro: first later)
  next
    case False
    with Some assms show thesis
      by (cases r) (auto simp: rx_find_all_empty intro: first later)
  qed
qed

lemma rx_find_all_from_run:
  "st \<in> set (rx_find_all p l r) \<Longrightarrow> \<exists>l' r'. st \<in> set (rx_run p (rx_start l' r'))"
proof (induction "length r" arbitrary: l r rule: less_induct)
  case less
  from less.prems show ?case
  proof (cases rule: rx_find_all_cases)
    case (first m)
    from rx_find_run [OF first(1)] first(2) show ?thesis by blast
  next
    case (later l' r')
    with less.hyps show ?thesis by blast
  qed
qed

lemma rx_find_all_captures:
  assumes "rx_caps st 1 = Some w" "rx_groups p = []" "0 < rx_min p"
  shows "st \<in> set (rx_find_all (RSeq p q) l r) \<Longrightarrow> length w < length r"
proof (induction "length r" arbitrary: l r rule: less_induct)
  case less
  from less.prems show ?case
  proof (cases rule: rx_find_all_cases)
    case (first m)
    from rx_find_run [OF first(1)] obtain u v where "r = u @ v"
      "m \<in> set (rx_run (RSeq p q) (rx_start (rev u @ l) v))" by blast
    with capture_shorter [of m p q "rev u @ l" v 1 w] first(2) assms show ?thesis by simp
  next
    case (later l' r')
    with less.hyps [of r' l'] show ?thesis by simp
  qed
qed

lemma FindAllSubmatch1_shorter:
  assumes "w \<in> set (FindAllSubmatch1 (RSeq p q) s)" "rx_groups p = []" "0 < rx_min p"
  shows "length w < length s"
proof -
  from assms(1) obtain st where "st \<in> set (rx_find_all (RSeq p q) [] s)" "rx_caps st 1 = Some w"
    by (auto simp: FindAllSubmatch1_def List.map_filter_def)
  then show ?thesis using rx_find_all_captures assms(2,3) by blast
qed

lemmas [go_simps] = rx_byte_def rx_lit_def rx_seq_def rx_opt_def rx_star_def rx_plus_def
  rx_plus_lazy_def rx_alts_def rx_space_def rx_digit_def

end
