(* ===== verification/Config.thy ===== *)
theory Config
  imports Go_Regexp
begin

text \<open>
  The configuration (internal/config/config.go): its structures,
  the compilation of the risk policy's and the egress filter's patterns, the decisions they answer
  (\<open>ShouldBlock\<close>, \<open>RequiresApproval\<close>, \<open>IsDomainAllowed\<close>, \<open>ContainsPII\<close>), and \<open>Load\<close> with its
  defaults.

  Reading the file and decoding the YAML are parameters, and so is \<^verbatim>\<open>regexp.Compile\<close>
  (\<open>compile\<close>: the pattern's text to an error or a syntax tree).
\<close>

section \<open>Structures\<close>

record AuthConfig =
  au_Username :: string
  au_PasswordEnv :: string
  au_Token :: string
  au_AllowedIPs :: "string list"
  au_AllowInsecure :: bool

record RiskPolicyConfig =
  rp_BlockCommands :: "string list"
  rp_RequireApproval :: "string list"
  rp_blockRegexes :: "rx list"
  rp_approvalRegexes :: "rx list"

record EgressRule =
  er_Domains :: "string list"
  er_Label :: string
  er_Action :: string

record EgressConfig =
  eg_Mode :: string
  eg_AllowDomains :: "string list"
  eg_Rules :: "EgressRule list"
  eg_PIIPatterns :: "string list"
  eg_piiRegexes :: "rx list"

record BrokerIntegrationConfig =
  bi_Name :: string
  bi_Provider :: string
  bi_Hosts :: "string list"
  bi_Enabled :: bool
  bi_CredentialSource :: string
  bi_StaticTokenEnv :: string
  bi_HeaderName :: string
  bi_TokenPrefix :: string

record BrokerConfig =
  bc_Enabled :: bool
  bc_Listen :: string
  bc_Mode :: string
  bc_FailBehavior :: string
  bc_Integrations :: "BrokerIntegrationConfig list"
  bc_ProURL :: string
  bc_APIKeyEnv :: string

record StorageConfig =
  sc_Type :: string
  sc_Path :: string

record TelemetryConfig =
  tc_Enabled :: bool
  tc_AgentID :: string
  tc_TenantID :: string
  tc_CorrelationID :: string
  tc_ChainStatePath :: string
  tc_KeyPath :: string
  tc_KeyID :: string
  tc_JSONLPath :: string
  tc_URL :: string
  tc_APIKeyEnv :: string
  tc_BatchSize :: int
  tc_FlushInterval :: string
  tc_OffsetPath :: string
  tc_HeartbeatInterval :: string

record MCPServerPolicy =
  ms_BlockTools :: "string list"
  ms_RequireApproval :: "string list"
  ms_AllowTools :: "string list"
  ms_BlockResources :: "string list"

record MCPUpstreamConfig =
  mu_Name :: string
  mu_URL :: string
  mu_Transport :: string
  mu_Command :: string

record MCPConfig =
  mc_Enabled :: bool
  mc_Listen :: string
  mc_PolicyTemplate :: string
  mc_DefaultPolicy :: MCPServerPolicy
  mc_Servers :: "(string \<times> MCPServerPolicy) list option"
  mc_Upstreams :: "MCPUpstreamConfig list"

record RelayConfig =
  rlc_Enabled :: bool
  rlc_ServerURL :: string
  rlc_APIKey :: string

record WebhookSetting =
  wc_URL :: string
  wc_Method :: string
  wc_Headers :: "(string \<times> string) list"

record LicenseConfig =
  lc_Key :: string
  lc_KeyEnv :: string

text \<open>The root structure.\<close>

record Config =
  cf_Auth :: AuthConfig
  cf_RiskPolicy :: RiskPolicyConfig
  cf_Egress :: EgressConfig
  cf_Broker :: BrokerConfig
  cf_Relay :: RelayConfig
  cf_Storage :: StorageConfig
  cf_MCP :: MCPConfig
  cf_ToolInterception :: bool
  cf_Telemetry :: TelemetryConfig
  cf_Webhooks :: "WebhookSetting list"
  cf_License :: LicenseConfig
  cf_Upstream :: string
  cf_Listen :: string
  cf_ProxyListen :: string

datatype config_error =
    ReadError string
  | ParseError string
  | InvalidBlockPattern string string
  | InvalidApprovalPattern string string
  | InvalidPIIPattern string string

section \<open>Secrets from the environment\<close>

text \<open>\<open>getenv\<close> is \<^verbatim>\<open>os.Getenv\<close>, which gives the empty string for an unset variable.\<close>

definition Password :: "(string \<Rightarrow> string) \<Rightarrow> AuthConfig \<Rightarrow> string" where
  "Password getenv a = (if au_PasswordEnv a \<noteq> [] then getenv (au_PasswordEnv a) else [])"

definition LicenseKey :: "(string \<Rightarrow> string) \<Rightarrow> LicenseConfig \<Rightarrow> string" where
  "LicenseKey getenv l =
     (if lc_KeyEnv l \<noteq> [] \<and> getenv (lc_KeyEnv l) \<noteq> [] then getenv (lc_KeyEnv l) else lc_Key l)"

section \<open>Compilation of patterns\<close>

text \<open>
  The three compilation loops have one shape: compile in order, stop at the first pattern that does
  not compile with an error that names it.
\<close>

fun compile_all ::
  "(string \<Rightarrow> string + rx) \<Rightarrow> (string \<Rightarrow> string \<Rightarrow> config_error) \<Rightarrow> string list \<Rightarrow>
   config_error + rx list" where
  "compile_all compile err [] = Inr []"
| "compile_all compile err (p # ps) =
     (case compile p of
        Inl e \<Rightarrow> Inl (err p e)
      | Inr re \<Rightarrow> (case compile_all compile err ps of Inl e \<Rightarrow> Inl e | Inr res \<Rightarrow> Inr (re # res)))"

definition RiskPolicy_Compile ::
  "(string \<Rightarrow> string + rx) \<Rightarrow> RiskPolicyConfig \<Rightarrow> config_error + RiskPolicyConfig" where
  "RiskPolicy_Compile compile r =
     (case compile_all compile InvalidBlockPattern (rp_BlockCommands r) of
        Inl e \<Rightarrow> Inl e
      | Inr bs \<Rightarrow>
          (case compile_all compile InvalidApprovalPattern (rp_RequireApproval r) of
             Inl e \<Rightarrow> Inl e
           | Inr rs \<Rightarrow> Inr (r\<lparr>rp_blockRegexes := bs, rp_approvalRegexes := rs\<rparr>)))"

definition Egress_Compile ::
  "(string \<Rightarrow> string + rx) \<Rightarrow> EgressConfig \<Rightarrow> config_error + EgressConfig" where
  "Egress_Compile compile e =
     (case compile_all compile InvalidPIIPattern (eg_PIIPatterns e) of
        Inl x \<Rightarrow> Inl x
      | Inr rs \<Rightarrow> Inr (e\<lparr>eg_piiRegexes := rs\<rparr>))"

lemma compile_all_Inr:
  "compile_all compile err ps = Inr res \<longleftrightarrow>
     list_all2 (\<lambda>p re. compile p = Inr re) ps res"
proof (induction ps arbitrary: res)
  case Nil
  then show ?case by auto
next
  case (Cons p ps)
  show ?case by (cases res) (auto split: sum.splits simp flip: Cons.IH)
qed

lemma compile_all_length: "compile_all compile err ps = Inr res \<Longrightarrow> length res = length ps"
  by (auto simp: compile_all_Inr dest: list_all2_lengthD)

section \<open>Decisions on commands\<close>

definition ShouldBlock :: "RiskPolicyConfig \<Rightarrow> string \<Rightarrow> bool" where
  "ShouldBlock r cmd \<longleftrightarrow> list_ex (\<lambda>re. MatchString re cmd) (rp_blockRegexes r)"

definition RequiresApproval :: "RiskPolicyConfig \<Rightarrow> string \<Rightarrow> bool" where
  "RequiresApproval r cmd \<longleftrightarrow> list_ex (\<lambda>re. MatchString re cmd) (rp_approvalRegexes r)"

lemma ShouldBlock_iff: "ShouldBlock r cmd \<longleftrightarrow> (\<exists>re \<in> set (rp_blockRegexes r). MatchString re cmd)"
  by (simp add: ShouldBlock_def list_ex_iff)

lemma RequiresApproval_iff:
  "RequiresApproval r cmd \<longleftrightarrow> (\<exists>re \<in> set (rp_approvalRegexes r). MatchString re cmd)"
  by (simp add: RequiresApproval_def list_ex_iff)

section \<open>Decisions on destinations and content\<close>

text \<open>The body of the loop of \<open>IsDomainAllowed\<close>; the domain is already in lower case.\<close>

definition domain_entry_allows :: "string \<Rightarrow> string \<Rightarrow> bool" where
  "domain_entry_allows domain allowed \<longleftrightarrow>
     ToLower allowed = domain \<or>
     (HasPrefix allowed ''*.'' \<and> HasSuffix domain (TrimPrefix allowed ''*''))"

definition IsDomainAllowed :: "EgressConfig \<Rightarrow> string \<Rightarrow> bool" where
  "IsDomainAllowed e domain \<longleftrightarrow>
     list_ex (domain_entry_allows (ToLower domain)) (eg_AllowDomains e)"

text \<open>
  The loop of \<open>ContainsPII\<close> from index \<open>i\<close>. It reports the pattern's text at the index of the
  regular expression that matched; \<open>Compile\<close> keeps the two lists of equal length, so the read is in
  range (\<open>Egress_Compile_length\<close>).
\<close>

fun pii_scan :: "string list \<Rightarrow> nat \<Rightarrow> rx list \<Rightarrow> string \<Rightarrow> bool \<times> string" where
  "pii_scan pats i [] content = (False, [])"
| "pii_scan pats i (re # res) content =
     (if MatchString re content then (True, pats ! i) else pii_scan pats (Suc i) res content)"

definition ContainsPII :: "EgressConfig \<Rightarrow> string \<Rightarrow> bool \<times> string" where
  "ContainsPII e content = pii_scan (eg_PIIPatterns e) 0 (eg_piiRegexes e) content"

lemma fst_pii_scan: "fst (pii_scan pats i res content) \<longleftrightarrow> (\<exists>re \<in> set res. MatchString re content)"
  by (induction res arbitrary: i) auto

lemma ContainsPII_iff:
  "fst (ContainsPII e content) \<longleftrightarrow> (\<exists>re \<in> set (eg_piiRegexes e). MatchString re content)"
  by (simp add: ContainsPII_def fst_pii_scan)

lemma pii_scan_pattern:
  "fst (pii_scan pats i res content) \<Longrightarrow>
   \<exists>j < length res. MatchString (res ! j) content \<and> snd (pii_scan pats i res content) = pats ! (i + j)
     \<and> (\<forall>k < j. \<not> MatchString (res ! k) content)"
proof (induction res arbitrary: i)
  case Nil
  then show ?case by simp
next
  case (Cons re res)
  show ?case
  proof (cases "MatchString re content")
    case True
    then show ?thesis by (intro exI [of _ 0]) simp
  next
    case False
    with Cons.prems have "fst (pii_scan pats (Suc i) res content)" by simp
    then obtain j where "j < length res" "MatchString (res ! j) content"
      "snd (pii_scan pats (Suc i) res content) = pats ! (Suc i + j)"
      "\<forall>k < j. \<not> MatchString (res ! k) content"
      using Cons.IH by blast
    with False show ?thesis
      by (intro exI [of _ "Suc j"]) (auto simp: nth_Cons split: nat.splits)
  qed
qed

lemma Egress_Compile_length:
  "Egress_Compile compile e = Inr e' \<Longrightarrow> length (eg_piiRegexes e') = length (eg_PIIPatterns e')"
  by (auto simp: Egress_Compile_def compile_all_length split: sum.splits)

section \<open>An empty configuration\<close>

text \<open>What decoding an empty file gives.\<close>

definition blank_config :: Config where
  "blank_config =
     \<lparr>cf_Auth = \<lparr>au_Username = [], au_PasswordEnv = [], au_Token = [], au_AllowedIPs = [], au_AllowInsecure = False\<rparr>,
      cf_RiskPolicy = \<lparr>rp_BlockCommands = [], rp_RequireApproval = [], rp_blockRegexes = [], rp_approvalRegexes = []\<rparr>,
      cf_Egress = \<lparr>eg_Mode = [], eg_AllowDomains = [], eg_Rules = [], eg_PIIPatterns = [], eg_piiRegexes = []\<rparr>,
      cf_Broker = \<lparr>bc_Enabled = False, bc_Listen = [], bc_Mode = [], bc_FailBehavior = [], bc_Integrations = [],
        bc_ProURL = [], bc_APIKeyEnv = []\<rparr>,
      cf_Relay = \<lparr>rlc_Enabled = False, rlc_ServerURL = [], rlc_APIKey = []\<rparr>,
      cf_Storage = \<lparr>sc_Type = [], sc_Path = []\<rparr>,
      cf_MCP = \<lparr>mc_Enabled = False, mc_Listen = [], mc_PolicyTemplate = [],
        mc_DefaultPolicy = \<lparr>ms_BlockTools = [], ms_RequireApproval = [], ms_AllowTools = [], ms_BlockResources = []\<rparr>,
        mc_Servers = None, mc_Upstreams = []\<rparr>,
      cf_ToolInterception = False,
      cf_Telemetry = \<lparr>tc_Enabled = False, tc_AgentID = [], tc_TenantID = [], tc_CorrelationID = [],
        tc_ChainStatePath = [], tc_KeyPath = [], tc_KeyID = [], tc_JSONLPath = [], tc_URL = [], tc_APIKeyEnv = [],
        tc_BatchSize = 0, tc_FlushInterval = [], tc_OffsetPath = [], tc_HeartbeatInterval = []\<rparr>,
      cf_Webhooks = [], cf_License = \<lparr>lc_Key = [], lc_KeyEnv = []\<rparr>,
      cf_Upstream = [], cf_Listen = [], cf_ProxyListen = []\<rparr>"

section \<open>Loading\<close>

definition default_to :: "string \<Rightarrow> string \<Rightarrow> string" where
  "default_to d s = (if s = [] then d else s)"

lemma default_to_nonempty: "d \<noteq> [] \<Longrightarrow> default_to d s \<noteq> []"
  by (simp add: default_to_def)

text \<open>The defaults of \<open>Load\<close>, in its order, up to the conversion of the legacy domain list.\<close>

definition set_defaults :: "Config \<Rightarrow> Config" where
  "set_defaults cfg =
     (let eg = (cf_Egress cfg)\<lparr>eg_Mode := default_to ''enforce'' (eg_Mode (cf_Egress cfg))\<rparr>
      in cfg\<lparr>
        cf_Listen := default_to '':8080'' (cf_Listen cfg),
        cf_Upstream := default_to ''http://openclaw:3000'' (cf_Upstream cfg),
        cf_ProxyListen := default_to '':8888'' (cf_ProxyListen cfg),
        cf_Storage := (cf_Storage cfg)\<lparr>
          sc_Type := default_to ''memory'' (sc_Type (cf_Storage cfg)),
          sc_Path := default_to ''/var/lib/parachute/parachute.db'' (sc_Path (cf_Storage cfg))\<rparr>,
        cf_Telemetry := (cf_Telemetry cfg)\<lparr>
          tc_ChainStatePath := default_to ''/var/lib/parachute/chain_state.json''
            (tc_ChainStatePath (cf_Telemetry cfg)),
          tc_JSONLPath := default_to ''/var/lib/parachute/events.jsonl''
            (tc_JSONLPath (cf_Telemetry cfg))\<rparr>,
        cf_Broker := (cf_Broker cfg)\<lparr>
          bc_Listen := default_to '':8081'' (bc_Listen (cf_Broker cfg)),
          bc_Mode := default_to ''off'' (bc_Mode (cf_Broker cfg)),
          bc_FailBehavior := default_to ''closed'' (bc_FailBehavior (cf_Broker cfg))\<rparr>,
        cf_Egress := (if eg_AllowDomains eg \<noteq> [] \<and> eg_Rules eg = []
          then eg\<lparr>eg_Rules := [\<lparr>er_Domains = eg_AllowDomains eg, er_Label = ''legacy'',
                                er_Action = ''allow''\<rparr>]\<rparr>
          else eg)\<rparr>)"

definition Load ::
  "(string \<Rightarrow> string + string) \<Rightarrow> (string \<Rightarrow> string + Config) \<Rightarrow> (string \<Rightarrow> string + rx) \<Rightarrow>
   string \<Rightarrow> config_error + Config" where
  "Load read_file yaml_unmarshal compile path =
     (case read_file path of
        Inl e \<Rightarrow> Inl (ReadError e)
      | Inr data \<Rightarrow>
          (case yaml_unmarshal data of
             Inl e \<Rightarrow> Inl (ParseError e)
           | Inr raw \<Rightarrow>
               (let cfg = set_defaults raw in
                case RiskPolicy_Compile compile (cf_RiskPolicy cfg) of
                  Inl e \<Rightarrow> Inl e
                | Inr rp \<Rightarrow>
                    (case Egress_Compile compile (cf_Egress cfg) of
                       Inl e \<Rightarrow> Inl e
                     | Inr eg \<Rightarrow> Inr (cfg\<lparr>cf_RiskPolicy := rp, cf_Egress := eg\<rparr>)))))"

text \<open>What a loaded configuration is known to satisfy.\<close>

definition config_wf :: "Config \<Rightarrow> bool" where
  "config_wf cfg \<longleftrightarrow>
     length (rp_blockRegexes (cf_RiskPolicy cfg)) = length (rp_BlockCommands (cf_RiskPolicy cfg)) \<and>
     length (rp_approvalRegexes (cf_RiskPolicy cfg)) = length (rp_RequireApproval (cf_RiskPolicy cfg)) \<and>
     length (eg_piiRegexes (cf_Egress cfg)) = length (eg_PIIPatterns (cf_Egress cfg)) \<and>
     eg_Mode (cf_Egress cfg) \<noteq> [] \<and> bc_Mode (cf_Broker cfg) \<noteq> [] \<and>
     bc_FailBehavior (cf_Broker cfg) \<noteq> [] \<and> bc_Listen (cf_Broker cfg) \<noteq> [] \<and>
     sc_Type (cf_Storage cfg) \<noteq> [] \<and> sc_Path (cf_Storage cfg) \<noteq> [] \<and>
     cf_Listen cfg \<noteq> [] \<and> cf_Upstream cfg \<noteq> [] \<and> cf_ProxyListen cfg \<noteq> [] \<and>
     (eg_AllowDomains (cf_Egress cfg) \<noteq> [] \<longrightarrow> eg_Rules (cf_Egress cfg) \<noteq> [])"

lemma RiskPolicy_Compile_lengths:
  "RiskPolicy_Compile compile r = Inr r' \<Longrightarrow>
     length (rp_blockRegexes r') = length (rp_BlockCommands r') \<and>
     length (rp_approvalRegexes r') = length (rp_RequireApproval r')"
  by (auto simp: RiskPolicy_Compile_def compile_all_length split: sum.splits)

lemma Egress_Compile_frame:
  "Egress_Compile compile e = Inr e' \<Longrightarrow> eg_Mode e' = eg_Mode e \<and> eg_Rules e' = eg_Rules e \<and>
     eg_AllowDomains e' = eg_AllowDomains e \<and> eg_PIIPatterns e' = eg_PIIPatterns e"
  by (auto simp: Egress_Compile_def split: sum.splits)

lemma Load_InrE:
  assumes "Load read_file yaml_unmarshal compile path = Inr cfg"
  obtains data raw rp eg where "read_file path = Inr data" "yaml_unmarshal data = Inr raw"
    "RiskPolicy_Compile compile (cf_RiskPolicy (set_defaults raw)) = Inr rp"
    "Egress_Compile compile (cf_Egress (set_defaults raw)) = Inr eg"
    "cfg = (set_defaults raw)\<lparr>cf_RiskPolicy := rp, cf_Egress := eg\<rparr>"
  using assms by (auto simp: Load_def Let_def split: sum.splits)

lemma compile_all_matches:
  assumes "compile_all compile err ps = Inr res"
  shows "(\<exists>re \<in> set res. MatchString re s) \<longleftrightarrow> (\<exists>p \<in> set ps. \<exists>re. compile p = Inr re \<and> MatchString re s)"
proof -
  have "list_all2 (\<lambda>p re. compile p = Inr re) ps res" using assms by (simp add: compile_all_Inr)
  then show ?thesis by (induction rule: list_all2_induct) auto
qed

lemma RiskPolicy_Compile_InrE:
  assumes "RiskPolicy_Compile compile r = Inr r'"
  obtains bs rs where "compile_all compile InvalidBlockPattern (rp_BlockCommands r) = Inr bs"
    "compile_all compile InvalidApprovalPattern (rp_RequireApproval r) = Inr rs"
    "r' = r\<lparr>rp_blockRegexes := bs, rp_approvalRegexes := rs\<rparr>"
  using assms by (auto simp: RiskPolicy_Compile_def split: sum.splits)

lemma Egress_Compile_InrE:
  assumes "Egress_Compile compile e = Inr e'"
  obtains rs where "compile_all compile InvalidPIIPattern (eg_PIIPatterns e) = Inr rs"
    "e' = e\<lparr>eg_piiRegexes := rs\<rparr>"
  using assms by (auto simp: Egress_Compile_def split: sum.splits)

text \<open>The text of some pattern matches.\<close>

definition text_matches :: "(string \<Rightarrow> string + rx) \<Rightarrow> string list \<Rightarrow> string \<Rightarrow> bool" where
  "text_matches compile ps s \<longleftrightarrow> (\<exists>p \<in> set ps. \<exists>re. compile p = Inr re \<and> MatchString re s)"

lemma set_defaults_patterns [simp]:
  "cf_RiskPolicy (set_defaults raw) = cf_RiskPolicy raw"
  "eg_PIIPatterns (cf_Egress (set_defaults raw)) = eg_PIIPatterns (cf_Egress raw)"
  by (simp_all add: set_defaults_def Let_def)

lemma set_defaults_wf:
  "config_wf (set_defaults raw) \<longleftrightarrow>
     length (rp_blockRegexes (cf_RiskPolicy raw)) = length (rp_BlockCommands (cf_RiskPolicy raw)) \<and>
     length (rp_approvalRegexes (cf_RiskPolicy raw)) = length (rp_RequireApproval (cf_RiskPolicy raw)) \<and>
     length (eg_piiRegexes (cf_Egress raw)) = length (eg_PIIPatterns (cf_Egress raw))"
  by (auto simp: config_wf_def set_defaults_def Let_def default_to_nonempty)

lemma config_wf_replace:
  assumes "config_wf (set_defaults (raw\<lparr>cf_RiskPolicy := rp, cf_Egress := (cf_Egress raw)\<lparr>eg_piiRegexes := rs\<rparr>\<rparr>))"
  shows "config_wf ((set_defaults raw)\<lparr>cf_RiskPolicy := rp,
    cf_Egress := (cf_Egress (set_defaults raw))\<lparr>eg_piiRegexes := rs\<rparr>\<rparr>)"
  using assms by (auto simp: config_wf_def set_defaults_def Let_def)

definition letter_compile :: "string \<Rightarrow> string + rx" where
  "letter_compile p = (if p = [] then Inl ''empty'' else Inr (rx_lit p))"

definition letter_config :: Config where
  "letter_config = blank_config\<lparr>cf_RiskPolicy := (cf_RiskPolicy blank_config)\<lparr>rp_BlockCommands := [''rm'']\<rparr>\<rparr>"



end
