(* ===== verification/Middleware.thy ===== *)
theory Middleware
  imports Http Json Config Audit_Chain Base64 "HOL-Library.AList"
begin

text \<open>
  The ingress middleware: correlation identifiers, authentication and the rate limiter
  (internal/middleware/auth.go), CSRF protection, header hygiene and the fail-closed authentication
  (internal/middleware/security.go).

  A handler gives what it does (\<open>CallNext\<close> or a reply), the headers it sets on the response, and the
  audit events it logs. The clock, random bytes, fresh identifiers and the environment are arguments.
\<close>

record reply =
  ry_verdict :: verdict
  ry_headers :: headers
  ry_audit :: "Event list"

definition pass :: "Event list \<Rightarrow> reply" where
  "pass evs = \<lparr>ry_verdict = CallNext, ry_headers = [], ry_audit = evs\<rparr>"

definition refuse :: "nat \<Rightarrow> string \<Rightarrow> headers \<Rightarrow> Event list \<Rightarrow> reply" where
  "refuse status msg hs evs = \<lparr>ry_verdict = Reply status msg, ry_headers = hs, ry_audit = evs\<rparr>"

section \<open>Correlation identifiers\<close>

text \<open>The identifier of the request: the one it carries, or a fresh one; it is echoed.\<close>

definition CorrelationID :: "string \<Rightarrow> Request \<Rightarrow> string \<times> reply" where
  "CorrelationID fresh r =
     (let cid = (if header_get (rq_Headers r) ''X-Correlation-ID'' = [] then fresh
                 else header_get (rq_Headers r) ''X-Correlation-ID'')
      in (cid, (pass [])\<lparr>ry_headers := [(''X-Correlation-ID'', cid)]\<rparr>))"

text \<open>What is read back from the context: the locals of the request, by name.\<close>

definition GetCorrelationID :: "(string \<times> json) list \<Rightarrow> string" where
  "GetCorrelationID locals = (case get_string locals ''correlation_id'' of Some s \<Rightarrow> s | None \<Rightarrow> [])"

definition RequestLogger :: "Request \<Rightarrow> reply \<times> (string \<times> json) list" where
  "RequestLogger r =
     (pass [], [(''request_log'', JObj [(''method'', JStr (rq_Method r)), (''path'', JStr (rq_Path r)), (''ip'', JStr (rq_IP r))])])"

section \<open>Authentication\<close>

definition constantTimeEqual :: "string \<Rightarrow> string \<Rightarrow> bool" where
  "constantTimeEqual a b \<longleftrightarrow> length a = length b \<and> list_all2 (=) a b"

lemma constantTimeEqual_iff [simp]: "constantTimeEqual a b \<longleftrightarrow> a = b"
  by (auto simp: constantTimeEqual_def list.rel_eq)

definition ip_allowed :: "AuthConfig \<Rightarrow> string \<Rightarrow> bool" where
  "ip_allowed cfg ip \<longleftrightarrow> au_AllowedIPs cfg = [] \<or> list_ex (\<lambda>a. a = ip \<or> a = ''*'') (au_AllowedIPs cfg)"

definition bearer_ok :: "string \<Rightarrow> string \<Rightarrow> bool" where
  "bearer_ok token authHeader \<longleftrightarrow> token \<noteq> [] \<and> authHeader \<noteq> [] \<and> HasPrefix authHeader ''Bearer '' \<and>
     constantTimeEqual (TrimPrefix authHeader ''Bearer '') token"

definition basic_ok :: "string \<Rightarrow> string \<Rightarrow> string \<Rightarrow> bool" where
  "basic_ok username password authHeader \<longleftrightarrow>
     authHeader \<noteq> [] \<and> HasPrefix authHeader ''Basic '' \<and>
     (case DecodeString StdAlphabet True (TrimPrefix authHeader ''Basic '') of
        None \<Rightarrow> False
      | Some decoded \<Rightarrow>
          (case SplitN2 decoded (CHR '':'') of
             [u, p] \<Rightarrow> constantTimeEqual u username \<and> constantTimeEqual p password
           | _ \<Rightarrow> False))"

definition Auth :: "(string \<Rightarrow> string) \<Rightarrow> AuthConfig \<Rightarrow> string \<Rightarrow> Request \<Rightarrow> reply" where
  "Auth getenv cfg cid r =
     (let ip = rq_IP r; authHeader = header_get (rq_Headers r) ''Authorization'';
          allow = LogIngressAllow cid ip (rq_Method r) (rq_Path r) in
      if \<not> ip_allowed cfg ip
        then refuse 403 ''IP not allowed'' [] [LogIngressDeny cid ip (rq_Method r) (rq_Path r) ''IP not allowed'']
      else if bearer_ok (au_Token cfg) authHeader then pass [allow]
      else if au_Username cfg \<noteq> [] then
        (if basic_ok (au_Username cfg) (Password getenv cfg) authHeader then pass [allow]
         else refuse 401 ''authentication required''
           [(''WWW-Authenticate'', ''Basic realm=\"Parachute\"'')] [LogAuth cid ip ''invalid credentials''])
      else pass [])"

definition RequireAuth :: "(string \<Rightarrow> string) \<Rightarrow> AuthConfig \<Rightarrow> string \<Rightarrow> Request \<Rightarrow> reply" where
  "RequireAuth getenv cfg cid r =
     (if au_Username cfg = [] \<and> au_Token cfg = []
      then refuse 401 ''authentication not configured'' [] [LogAuth cid (rq_IP r) ''no auth configured'']
      else Auth getenv cfg cid r)"

definition FailClosedAuth ::
  "string \<Rightarrow> string \<Rightarrow> string \<Rightarrow> bool \<Rightarrow> string \<Rightarrow> Request \<Rightarrow> reply" where
  "FailClosedAuth username password token allowInsecure cid r =
     (let hasBasicAuth = (username \<noteq> [] \<and> password \<noteq> []); hasTokenAuth = (token \<noteq> []);
          authConfigured = (hasBasicAuth \<or> hasTokenAuth); ip = rq_IP r;
          authHeader = header_get (rq_Headers r) ''Authorization'' in
      if \<not> authConfigured \<and> \<not> allowInsecure
        then refuse 503 ''authentication not configured'' []
          [LogAuth cid ip ''authentication not configured (fail-closed)'']
      else if \<not> authConfigured \<and> allowInsecure
        then (pass [])\<lparr>ry_headers :=
          [(''X-Parachute-Warning'', ''running in insecure mode without authentication'')]\<rparr>
      else if hasTokenAuth \<and> authHeader \<noteq> [] \<and> HasPrefix authHeader ''Bearer '' \<and>
          constantTimeEqual (TrimPrefix authHeader ''Bearer '') token then pass []
      else if authHeader = []
        then refuse 401 ''authentication required'' [(''WWW-Authenticate'', ''Basic realm=\"Parachute\"'')]
          [LogAuth cid ip ''no credentials provided'']
      else refuse 401 ''invalid credentials'' [] [LogAuth cid ip ''invalid credentials''])"

section \<open>Rate limiting\<close>

record rateLimitEntry =
  rl_count :: int
  rl_windowStart :: int

record RateLimiter =
  rl_clients :: "(string \<times> rateLimitEntry) list"
  rl_rate :: int
  rl_window :: int

definition NewRateLimiter :: "int \<Rightarrow> int \<Rightarrow> RateLimiter" where
  "NewRateLimiter rate window = \<lparr>rl_clients = [], rl_rate = rate, rl_window = window\<rparr>"

text \<open>The decision for one client's entry: whether the request goes on, and the entry after it.\<close>

definition rate_entry :: "int \<Rightarrow> int \<Rightarrow> int \<Rightarrow> rateLimitEntry option \<Rightarrow> bool \<times> rateLimitEntry option" where
  "rate_entry rate window now e =
     (case e of
        None \<Rightarrow> (True, Some \<lparr>rl_count = 1, rl_windowStart = now\<rparr>)
      | Some en \<Rightarrow>
          if now - rl_windowStart en > window then (True, Some \<lparr>rl_count = 1, rl_windowStart = now\<rparr>)
          else if rl_count en \<ge> rate then (False, Some en)
          else (True, Some (en\<lparr>rl_count := rl_count en + 1\<rparr>)))"

definition RateLimiter_Handler :: "int \<Rightarrow> string \<Rightarrow> Request \<Rightarrow> RateLimiter \<Rightarrow> reply \<times> RateLimiter" where
  "RateLimiter_Handler now cid r rl =
     (case rate_entry (rl_rate rl) (rl_window rl) now (map_of (rl_clients rl) (rq_IP r)) of
        (ok, e) \<Rightarrow>
          (if ok then pass []
           else refuse 429 ''rate limit exceeded'' [(''Retry-After'', ''60'')] [LogRateLimit cid (rq_IP r)],
           case e of None \<Rightarrow> rl
           | Some en \<Rightarrow> rl\<lparr>rl_clients := AList.update (rq_IP r) en (rl_clients rl)\<rparr>))"

definition RateLimiter_cleanup :: "int \<Rightarrow> RateLimiter \<Rightarrow> RateLimiter" where
  "RateLimiter_cleanup now rl =
     rl\<lparr>rl_clients := filter (\<lambda>(ip, e). \<not> now - rl_windowStart e > rl_window rl * 2) (rl_clients rl)\<rparr>"

section \<open>CSRF protection\<close>

record Cookie =
  ck_Name :: string
  ck_Value :: string
  ck_Expires :: int
  ck_HTTPOnly :: bool
  ck_Secure :: bool
  ck_SameSite :: string
  ck_Path :: string

record CSRFConfig =
  cr_TokenLength :: int
  cr_CookieName :: string
  cr_HeaderName :: string
  cr_FormField :: string
  cr_Expiration :: int
  cr_Secure :: bool
  cr_SameSite :: string

definition hour :: int where
  "hour = 3600 * 1000000000"

definition DefaultCSRFConfig :: CSRFConfig where
  "DefaultCSRFConfig = \<lparr>cr_TokenLength = 32, cr_CookieName = ''_csrf'', cr_HeaderName = ''X-CSRF-Token'',
     cr_FormField = ''csrf_token'', cr_Expiration = hour, cr_Secure = True, cr_SameSite = ''Strict''\<rparr>"

record CSRFManager =
  cm_config :: CSRFConfig
  cm_tokens :: "(string \<times> int) list"

definition NewCSRFManager :: "CSRFConfig \<Rightarrow> CSRFManager" where
  "NewCSRFManager cfg =
     \<lparr>cm_config = \<lparr>
        cr_TokenLength = (if cr_TokenLength cfg = 0 then 32 else cr_TokenLength cfg),
        cr_CookieName = default_to ''_csrf'' (cr_CookieName cfg),
        cr_HeaderName = default_to ''X-CSRF-Token'' (cr_HeaderName cfg),
        cr_FormField = default_to ''csrf_token'' (cr_FormField cfg),
        cr_Expiration = (if cr_Expiration cfg = 0 then hour else cr_Expiration cfg),
        cr_Secure = cr_Secure cfg,
        cr_SameSite = default_to ''Strict'' (cr_SameSite cfg)\<rparr>,
      cm_tokens = []\<rparr>"

text \<open>\<open>random\<close> is what \<^verbatim>\<open>rand.Read\<close> gives: an error, or the bytes.\<close>

definition generateToken :: "string option \<Rightarrow> int \<Rightarrow> CSRFManager \<Rightarrow> string option \<times> CSRFManager" where
  "generateToken random now m =
     (case random of
        None \<Rightarrow> (None, m)
      | Some bytes \<Rightarrow>
          (let token = EncodeToString URLAlphabet True bytes
           in (Some token, m\<lparr>cm_tokens := AList.update token (now + cr_Expiration (cm_config m)) (cm_tokens m)\<rparr>)))"

definition validateToken :: "int \<Rightarrow> string \<Rightarrow> CSRFManager \<Rightarrow> bool \<times> CSRFManager" where
  "validateToken now token m =
     (if token = [] then (False, m)
      else (case map_of (cm_tokens m) token of
              None \<Rightarrow> (False, m)
            | Some expiresAt \<Rightarrow>
                if now < expiresAt then (True, m)
                else (False, m\<lparr>cm_tokens := AList.delete token (cm_tokens m)\<rparr>)))"

definition CSRF_cleanup :: "int \<Rightarrow> CSRFManager \<Rightarrow> CSRFManager" where
  "CSRF_cleanup now m = m\<lparr>cm_tokens := filter (\<lambda>(t, expires). \<not> now > expires) (cm_tokens m)\<rparr>"

definition safe_method :: "string \<Rightarrow> bool" where
  "safe_method m \<longleftrightarrow> m = ''GET'' \<or> m = ''HEAD'' \<or> m = ''OPTIONS''"

text \<open>
  The handler. \<open>form\<close> and \<open>cookie\<close> read the form field and the cookie of a name; the cookie that is
  set comes back with the reply.
\<close>

definition CSRF_Handler ::
  "string option \<Rightarrow> int \<Rightarrow> (string \<Rightarrow> string) \<Rightarrow> (string \<Rightarrow> string) \<Rightarrow> string \<Rightarrow> Request \<Rightarrow> CSRFManager \<Rightarrow>
   (reply \<times> Cookie option) \<times> CSRFManager" where
  "CSRF_Handler random now form cookie cid r m =
     (let cfg = cm_config m;
          deny = (\<lambda>reason. LogIngressDeny cid (rq_IP r) (rq_Method r) (rq_Path r) reason) in
      if safe_method (rq_Method r) then
        (case generateToken random now m of
           (None, m') \<Rightarrow> ((refuse 500 ''failed to generate CSRF token'' [] [], None), m')
         | (Some token, m') \<Rightarrow> ((pass [], Some \<lparr>ck_Name = cr_CookieName cfg, ck_Value = token,
                ck_Expires = now + cr_Expiration cfg, ck_HTTPOnly = False, ck_Secure = cr_Secure cfg,
                ck_SameSite = cr_SameSite cfg, ck_Path = ''/''\<rparr>), m'))
      else
        (let header = header_get (rq_Headers r) (cr_HeaderName cfg);
             token = (if header = [] then form (cr_FormField cfg) else header);
             cookieToken = cookie (cr_CookieName cfg) in
         if token = [] \<or> cookieToken = []
           then ((refuse 403 ''CSRF token required'' [] [deny ''CSRF token missing''], None), m)
         else if \<not> constantTimeEqual token cookieToken
           then ((refuse 403 ''CSRF token invalid'' [] [deny ''CSRF token mismatch''], None), m)
         else (case validateToken now token m of
                 (True, m') \<Rightarrow> ((pass [], None), m')
               | (False, m') \<Rightarrow> ((refuse 403 ''CSRF token expired'' [] [deny ''CSRF token expired''], None), m'))))"

section \<open>Headers\<close>

definition headersToStrip :: "string list" where
  "headersToStrip = [''X-Forwarded-For'', ''X-Forwarded-Host'', ''X-Forwarded-Proto'', ''X-Forwarded-Port'',
     ''X-Forwarded-Server'', ''X-Real-IP'', ''X-Original-URL'', ''X-Rewrite-URL'', ''Forwarded'']"

definition StripForwardedHeaders :: "Request \<Rightarrow> Request" where
  "StripForwardedHeaders r =
     r\<lparr>rq_Headers := header_set ''X-Real-Client-IP'' (rq_IP r) (fold header_del headersToStrip (rq_Headers r))\<rparr>"

definition SecureHeaders :: "headers \<Rightarrow> headers" where
  "SecureHeaders hs =
     fold (\<lambda>(k, v). header_set k v)
       [(''X-Frame-Options'', ''DENY''), (''X-Content-Type-Options'', ''nosniff''),
        (''X-XSS-Protection'', ''1; mode=block''), (''Referrer-Policy'', ''strict-origin-when-cross-origin''),
        (''Permissions-Policy'', ''geolocation=(), microphone=(), camera=()'')] hs"

definition SecureCookieConfig :: "int \<Rightarrow> string \<Rightarrow> string \<Rightarrow> int \<Rightarrow> bool \<Rightarrow> Cookie" where
  "SecureCookieConfig now name val expiration secure =
     \<lparr>ck_Name = name, ck_Value = val, ck_Expires = now + expiration, ck_HTTPOnly = True,
      ck_Secure = secure, ck_SameSite = ''Strict'', ck_Path = ''/''\<rparr>"

section \<open>Facts on authentication\<close>

lemma pass_verdict [simp]: "ry_verdict (pass evs) = CallNext" "ry_verdict (refuse st msg hs evs) = Reply st msg"
  by (simp_all add: pass_def refuse_def)

lemma Auth_iff:
  "ry_verdict (Auth getenv cfg cid r) = CallNext \<longleftrightarrow>
     ip_allowed cfg (rq_IP r) \<and>
     (au_Username cfg = [] \<or> bearer_ok (au_Token cfg) (header_get (rq_Headers r) ''Authorization'') \<or>
      basic_ok (au_Username cfg) (Password getenv cfg) (header_get (rq_Headers r) ''Authorization''))"
  by (auto simp: Auth_def Let_def)

lemma basic_ok_encoded:
  assumes "CHR '':'' \<notin> set u"
  shows "basic_ok username password (''Basic '' @ EncodeToString StdAlphabet True (u @ '':'' @ p)) \<longleftrightarrow>
    u = username \<and> p = password"
proof -
  have "DecodeString StdAlphabet True (TrimPrefix (''Basic '' @ EncodeToString StdAlphabet True (u @ '':'' @ p)) ''Basic '')
      = Some (u @ '':'' @ p)"
    unfolding TrimPrefix_append by (rule Decode_Encode [OF good_Std])
  moreover have "SplitN2 (u @ '':'' @ p) (CHR '':'') = [u, p]" using SplitN2_append [OF assms] by simp
  moreover have "HasPrefix (''Basic '' @ EncodeToString StdAlphabet True (u @ '':'' @ p)) ''Basic ''"
    by (rule HasPrefix_append)
  ultimately show ?thesis by (simp add: basic_ok_def)
qed

lemma bearer_not_basic: "bearer_ok token (''Basic '' @ x) = False"
  by (simp add: bearer_ok_def HasPrefix_def)

section \<open>Facts on the rate limiter\<close>

text \<open>One client's requests and the clean-ups between them, in the order of the lock.\<close>

datatype rate_event = RateRequest int | RateCleanup int

primrec rate_time :: "rate_event \<Rightarrow> int" where
  "rate_time (RateRequest t) = t"
| "rate_time (RateCleanup t) = t"

fun rate_step :: "int \<Rightarrow> int \<Rightarrow> rate_event \<Rightarrow> rateLimitEntry option \<Rightarrow> nat \<times> rateLimitEntry option" where
  "rate_step rate window (RateRequest now) e =
     (case rate_entry rate window now e of (ok, e') \<Rightarrow> (if ok then 1 else 0, e'))"
| "rate_step rate window (RateCleanup now) e =
     (0, case e of Some en \<Rightarrow> if now - rl_windowStart en > window * 2 then None else Some en | None \<Rightarrow> None)"

fun allowed_count :: "int \<Rightarrow> int \<Rightarrow> rate_event list \<Rightarrow> rateLimitEntry option \<Rightarrow> nat" where
  "allowed_count rate window [] e = 0"
| "allowed_count rate window (ev # evs) e =
     (case rate_step rate window ev e of (n, e') \<Rightarrow> n + allowed_count rate window evs e')"

text \<open>What a client may still get in an interval that begins at \<open>lo\<close> and is no longer than a window.\<close>

definition rate_budget :: "int \<Rightarrow> int \<Rightarrow> rateLimitEntry option \<Rightarrow> int" where
  "rate_budget rate lo e =
     (case e of None \<Rightarrow> max 1 rate
      | Some en \<Rightarrow> max 1 rate - rl_count en + (if rl_windowStart en < lo then max 1 rate else 0))"

definition count_ok :: "int \<Rightarrow> rateLimitEntry option \<Rightarrow> bool" where
  "count_ok rate e \<longleftrightarrow> (case e of None \<Rightarrow> True | Some en \<Rightarrow> 1 \<le> rl_count en \<and> rl_count en \<le> max 1 rate)"

lemma rate_step_budget:
  assumes "count_ok rate e" "0 \<le> window" "lo \<le> rate_time ev" "rate_time ev \<le> lo + window"
    and "rate_step rate window ev e = (n, e')"
  shows "count_ok rate e' \<and> int n + rate_budget rate lo e' \<le> rate_budget rate lo e"
proof (cases ev)
  case (RateRequest now)
  show ?thesis
  proof (cases e)
    case None
    with RateRequest assms show ?thesis by (auto simp: rate_entry_def count_ok_def rate_budget_def)
  next
    case (Some en)
    with RateRequest assms show ?thesis
      by (auto simp: rate_entry_def count_ok_def rate_budget_def split: if_splits)
  qed
next
  case (RateCleanup now)
  with assms show ?thesis
    by (cases e) (auto simp: count_ok_def rate_budget_def split: if_splits)
qed

lemma rate_budget_nonneg: "count_ok rate e \<Longrightarrow> 0 \<le> rate_budget rate lo e"
  by (auto simp: count_ok_def rate_budget_def split: option.splits)

lemma allowed_count_budget:
  assumes "0 \<le> window"
  shows "count_ok rate e \<Longrightarrow> \<forall>ev \<in> set evs. lo \<le> rate_time ev \<and> rate_time ev \<le> lo + window \<Longrightarrow>
    int (allowed_count rate window evs e) \<le> rate_budget rate lo e"
proof (induction evs arbitrary: e)
  case Nil
  then show ?case by (simp add: rate_budget_nonneg)
next
  case (Cons ev evs)
  obtain n e' where st: "rate_step rate window ev e = (n, e')" by fastforce
  from rate_step_budget [OF Cons.prems(1) assms _ _ st] Cons.prems(2)
  have "count_ok rate e'" "int n + rate_budget rate lo e' \<le> rate_budget rate lo e" by auto
  with Cons.IH [of e'] Cons.prems(2) st show ?case by simp
qed

lemma rate_step_count_ok:
  "count_ok rate e \<Longrightarrow> count_ok rate (snd (rate_step rate window ev e))"
  by (cases ev; cases e) (auto simp: rate_entry_def count_ok_def split: if_splits)

fun rate_state :: "int \<Rightarrow> int \<Rightarrow> rate_event list \<Rightarrow> rateLimitEntry option \<Rightarrow> rateLimitEntry option" where
  "rate_state rate window [] e = e"
| "rate_state rate window (ev # evs) e = rate_state rate window evs (snd (rate_step rate window ev e))"

lemma rate_state_count_ok: "count_ok rate e \<Longrightarrow> count_ok rate (rate_state rate window evs e)"
  by (induction evs arbitrary: e) (simp_all add: rate_step_count_ok)

text \<open>The handler acts on the entry of the request's client and on no other.\<close>

lemma Handler_entry:
  "ry_verdict (fst (RateLimiter_Handler now cid r rl)) = CallNext \<longleftrightarrow>
     fst (rate_entry (rl_rate rl) (rl_window rl) now (map_of (rl_clients rl) (rq_IP r)))"
  "map_of (rl_clients (snd (RateLimiter_Handler now cid r rl))) (rq_IP r) =
     snd (rate_entry (rl_rate rl) (rl_window rl) now (map_of (rl_clients rl) (rq_IP r)))"
  "ip \<noteq> rq_IP r \<Longrightarrow> map_of (rl_clients (snd (RateLimiter_Handler now cid r rl))) ip = map_of (rl_clients rl) ip"
  by (auto simp: RateLimiter_Handler_def rate_entry_def update_conv' split: option.splits)

section \<open>Properties\<close>

text \<open>
  C11. What \<open>Auth\<close> lets through: a request goes on exactly when its address is allowed and it carries
  the configured bearer token, or the configured user and password in basic authentication, or no
  user is configured; and basic authentication as a client encodes it matches exactly the configured
  user and password.
\<close>

theorem Auth_accepts:
  "(ry_verdict (Auth getenv cfg cid r) = CallNext \<longleftrightarrow>
     ip_allowed cfg (rq_IP r) \<and>
     (au_Username cfg = [] \<or> bearer_ok (au_Token cfg) (header_get (rq_Headers r) ''Authorization'') \<or>
      basic_ok (au_Username cfg) (Password getenv cfg) (header_get (rq_Headers r) ''Authorization''))) \<and>
   (CHR '':'' \<notin> set u \<longrightarrow>
     (basic_ok username password (''Basic '' @ EncodeToString StdAlphabet True (u @ '':'' @ p)) \<longleftrightarrow>
        u = username \<and> p = password))"
  using Auth_iff basic_ok_encoded by simp

definition auth_config :: "string \<Rightarrow> string \<Rightarrow> AuthConfig" where
  "auth_config user token = \<lparr>au_Username = user, au_PasswordEnv = ''P'', au_Token = token, au_AllowedIPs = [],
     au_AllowInsecure = False\<rparr>"

definition sample_request :: "headers \<Rightarrow> Request" where
  "sample_request hs = \<lparr>rq_Method = ''POST'', rq_Host = ''h'', rq_Path = ''/'', rq_Query = [], rq_IP = ''10.0.0.1'',
     rq_Headers = hs, rq_Body = []\<rparr>"

theorem Auth_accepts_witness:
  "ry_verdict (Auth (\<lambda>_. ''pw'') (auth_config ''me'' []) ''c'' (sample_request [])) \<noteq> CallNext \<and>
   basic_ok ''me'' ''p:w'' (''Basic '' @ EncodeToString StdAlphabet True (''me'' @ '':'' @ ''p:w'')) \<and>
   \<not> basic_ok ''me'' ''pw'' (''Basic '' @ EncodeToString StdAlphabet True (''me'' @ '':'' @ ''p:w''))"
proof -
  note fact = Auth_accepts [of "\<lambda>_. ''pw''" "auth_config ''me'' []" "''c''" "sample_request []" "''me''" "''me''" _ "''p:w''"]
  have "\<not> (au_Username (auth_config ''me'' []) = [] \<or>
      bearer_ok (au_Token (auth_config ''me'' [])) (header_get (rq_Headers (sample_request [])) ''Authorization'') \<or>
      basic_ok (au_Username (auth_config ''me'' [])) (Password (\<lambda>_. ''pw'') (auth_config ''me'' []))
        (header_get (rq_Headers (sample_request [])) ''Authorization''))" by code_simp
  then show ?thesis using fact [of "''p:w''"] fact [of "''pw''"] by auto
qed

text \<open>With a token and no user, every request of an allowed address is let through.\<close>

lemma token_only_unprotected:
  "au_Username cfg = [] \<Longrightarrow> ip_allowed cfg (rq_IP r) \<Longrightarrow>
     ry_verdict (Auth getenv cfg cid r) = CallNext \<and>
     (au_Token cfg \<noteq> [] \<longrightarrow> ry_verdict (RequireAuth getenv cfg cid r) = CallNext)"
  by (simp add: RequireAuth_def Auth_iff)

text \<open>
  The fail-closed authentication lets a request through exactly when it carries the configured
  bearer token, or nothing is configured and insecure mode is on; so with a user and a password
  configured and no token, it lets nothing through, correct basic credentials included.
\<close>

theorem FailClosedAuth_accepts:
  "ry_verdict (FailClosedAuth username password token allowInsecure cid r) = CallNext \<longleftrightarrow>
     bearer_ok token (header_get (rq_Headers r) ''Authorization'') \<or>
     (token = [] \<and> (username = [] \<or> password = []) \<and> allowInsecure)"
  by (auto simp: FailClosedAuth_def bearer_ok_def Let_def)



text \<open>
  CSRF: a state-changing request goes on exactly when it carries a token, in the header or else in
  the form, that equals the token of its cookie and that the manager issued and that has not run out;
  and a token just issued is accepted until it runs out.
\<close>

theorem CSRF_accepts:
  assumes "\<not> safe_method (rq_Method r)"
  shows "(ry_verdict (fst (fst (CSRF_Handler random now form cookie cid r m))) = CallNext \<longleftrightarrow>
     (let header = header_get (rq_Headers r) (cr_HeaderName (cm_config m));
          token = (if header = [] then form (cr_FormField (cm_config m)) else header) in
      token \<noteq> [] \<and> token = cookie (cr_CookieName (cm_config m)) \<and>
      (\<exists>expires. map_of (cm_tokens m) token = Some expires \<and> now < expires))) \<and>
    (generateToken (Some bytes) issued m0 = (Some t, m1) \<and> t \<noteq> [] \<longrightarrow>
       (fst (validateToken now t m1) \<longleftrightarrow> now < issued + cr_Expiration (cm_config m0)))"
  using assms
  by (auto simp: CSRF_Handler_def Let_def validateToken_def generateToken_def update_conv'
      split: option.splits bool.splits prod.splits)

theorem CSRF_accepts_witness:
  "let m = (NewCSRFManager DefaultCSRFConfig)\<lparr>cm_tokens := [(''YWJj'', hour)]\<rparr> in
   ry_verdict (fst (fst (CSRF_Handler None 1 (\<lambda>_. []) (\<lambda>_. ''YWJj'') ''c'' (sample_request [(''X-CSRF-Token'', ''YWJj'')]) m)))
     = CallNext \<and> fst (validateToken 1 ''YWJj'' m)"
proof -
  let ?m0 = "NewCSRFManager DefaultCSRFConfig" and ?r = "sample_request [(''X-CSRF-Token'', ''YWJj'')]"
  let ?m = "?m0\<lparr>cm_tokens := [(''YWJj'', hour)]\<rparr>"
  have gen: "generateToken (Some ''abc'') 0 ?m0 = (Some ''YWJj'', ?m) \<and> ''YWJj'' \<noteq> []" by code_simp
  have exp: "1 < 0 + cr_Expiration (cm_config ?m0)" by code_simp
  have unsafe: "\<not> safe_method (rq_Method ?r)" by code_simp
  have token: "let header = header_get (rq_Headers ?r) (cr_HeaderName (cm_config ?m));
          token = (if header = [] then (\<lambda>_. []) (cr_FormField (cm_config ?m)) else header) in
      token \<noteq> [] \<and> token = (\<lambda>_. ''YWJj'') (cr_CookieName (cm_config ?m)) \<and>
      (\<exists>expires. map_of (cm_tokens ?m) token = Some expires \<and> 1 < expires)"
    by (simp add: sample_request_def NewCSRFManager_def DefaultCSRFConfig_def hour_def header_get_def same_name_def default_to_def Let_def)
  note fact = CSRF_accepts [OF unsafe, of None 1 "\<lambda>_. []" "\<lambda>_. ''YWJj''" "''c''" ?m "''abc''" 0 ?m0 "''YWJj''" ?m]
  from fact gen exp token show ?thesis unfolding Let_def by blast
qed

text \<open>
  After \<open>StripForwardedHeaders\<close> the request carries none of the forwarding headers, in no spelling,
  and the client address it names is the address of the connection.
\<close>

theorem forwarded_headers_stripped:
  "list_all (\<lambda>k. \<not> has_header (rq_Headers (StripForwardedHeaders r)) k) headersToStrip \<and>
   header_get (rq_Headers (StripForwardedHeaders r)) ''X-Real-Client-IP'' = rq_IP r"
proof -
  have "list_all (\<lambda>k. \<not> same_name ''X-Real-Client-IP'' k) headersToStrip" by code_simp
  then show ?thesis
    by (auto simp: StripForwardedHeaders_def has_header_fold_del list_all_iff list_ex_iff)
      (metis same_name_refl)
qed

end
