(* ===== verification/Interceptor.thy ===== *)
theory Interceptor
  imports Config Json
begin

text \<open>
  The command interceptor (internal/interceptor/interceptor.go): the extraction of a command from a
  tool call, the unwrapping of shell wrappers, the splitting of compound commands, the extraction of
  command substitutions, the two fixed detectors and the decision \<open>Check\<close> takes over all of them.

  The regular expressions of the source are written as syntax trees of \<open>Go_Regexp\<close>, one definition
  per pattern; \<open>\<^verbatim>\<open>for _, r := range cmd\<close>\<close> runs over bytes, and every byte it compares
  with is ASCII.
\<close>

section \<open>Data\<close>

datatype Action = ActionAllow | ActionBlock | ActionPending

record ToolCall =
  tc_Name :: string
  tc_Args :: gomap
  tc_Command :: string

record Result =
  rs_Action :: Action
  rs_Reason :: string
  rs_ID :: string
  rs_Command :: string

definition allow_result :: Result where
  "allow_result = \<lparr>rs_Action = ActionAllow, rs_Reason = [], rs_ID = [], rs_Command = []\<rparr>"

section \<open>Extracting the command\<close>

definition execToolNames :: "string list" where
  "execToolNames = [''execute_bash'', ''run_command'', ''bash'', ''shell'', ''terminal'', ''execute'',
     ''run'', ''command'']"

definition cmdArgNames :: "string list" where
  "cmdArgNames = [''command'', ''cmd'', ''script'', ''code'', ''input'', ''CommandLine'']"

definition extractCommand :: "ToolCall \<Rightarrow> string" where
  "extractCommand tc =
     (if tc_Name tc \<notin> set execToolNames \<and> ToLower (tc_Name tc) \<notin> set execToolNames then []
      else (case first_string cmdArgNames (tc_Args tc) of Some s \<Rightarrow> s | None \<Rightarrow> []))"

section \<open>Unwrapping shell wrappers\<close>

definition rx_bin_prefix :: rx where
  "rx_bin_prefix = rx_opt (RAlt (rx_lit ''/bin/'') (rx_lit ''/usr/bin/''))"

definition rx_basic_sh :: rx where
  "rx_basic_sh = RSeq (rx_opt (rx_lit ''ba'')) (rx_lit ''sh'')"

definition rx_quote :: rx where
  "rx_quote = RCls False [(34, 34), (39, 39)]"

text \<open>\<^verbatim>\<open>\s+-[a-z]*c\s+\<close>\<close>

definition rx_dash_c :: rx where
  "rx_dash_c = rx_seq [rx_plus rx_space, rx_lit ''-'', rx_star (RCls False [(97, 122)]),
     rx_lit ''c'', rx_plus rx_space]"

text \<open>\<^verbatim>\<open>(.+?)["']\s*$\<close> and \<^verbatim>\<open>(.+)$\<close>\<close>

definition rx_quoted_tail :: rx where
  "rx_quoted_tail = rx_seq [RGrp 1 (rx_plus_lazy RAny), rx_quote, rx_star rx_space, REol]"

definition rx_bare_tail :: rx where
  "rx_bare_tail = rx_seq [RGrp 1 (rx_plus RAny), REol]"

definition shellWrapperPatterns :: "(rx \<times> rx) list" where
  "shellWrapperPatterns =
     [(rx_seq [RBol, rx_bin_prefix, rx_basic_sh, rx_dash_c, rx_quote], rx_quoted_tail),
      (rx_seq [RBol, rx_bin_prefix, rx_basic_sh, rx_dash_c], rx_bare_tail),
      (rx_seq [RBol, rx_bin_prefix, rx_lit ''zsh'', rx_dash_c, rx_quote], rx_quoted_tail),
      (rx_seq [RBol, rx_bin_prefix, rx_lit ''zsh'', rx_dash_c], rx_bare_tail),
      (rx_seq [RBol, rx_lit ''env'', rx_plus rx_space, rx_bin_prefix, rx_basic_sh, rx_dash_c, rx_quote],
       rx_quoted_tail)]"

text \<open>
  The loop over the patterns: the first that matches gives its first group. A pattern is a head that
  captures nothing and a tail that holds the group.
\<close>

definition wrapped_command :: "string \<Rightarrow> string option" where
  "wrapped_command cmd = find_first (\<lambda>(h, t). FindSubmatch1 (RSeq h t) cmd) shellWrapperPatterns"

lemma shellWrapperPatterns_heads:
  "\<forall>(h, t) \<in> set shellWrapperPatterns. rx_groups h = [] \<and> 0 < rx_min h"
  by (simp add: shellWrapperPatterns_def rx_bin_prefix_def rx_basic_sh_def rx_quote_def rx_dash_c_def
      go_simps)

lemma wrapped_command_shorter: "wrapped_command cmd = Some inner \<Longrightarrow> length inner < length cmd"
  using shellWrapperPatterns_heads
  by (auto simp: wrapped_command_def dest!: find_first_in_set intro: FindSubmatch1_shorter)

function unwrapShellCommand :: "string \<Rightarrow> string" where
  "unwrapShellCommand cmd =
     (case wrapped_command (TrimSpace cmd) of
        Some inner \<Rightarrow> unwrapShellCommand inner
      | None \<Rightarrow> TrimSpace cmd)"
  by pat_completeness auto
termination
proof (relation "measure length")
  fix cmd inner
  assume "wrapped_command (TrimSpace cmd) = Some inner"
  then have "length inner < length (TrimSpace cmd)" by (rule wrapped_command_shorter)
  with length_TrimSpace [of cmd] show "(inner, cmd) \<in> measure length" by simp
qed simp

declare unwrapShellCommand.simps [simp del]

section \<open>Splitting compound commands\<close>

definition is_quote_byte :: "char \<Rightarrow> bool" where
  "is_quote_byte r \<longleftrightarrow> byte_of r = 34 \<or> byte_of r = 39 \<or> byte_of r = 96"

definition toggle_quote :: "char option \<Rightarrow> char \<Rightarrow> char option" where
  "toggle_quote q r = (case q of None \<Rightarrow> Some r | Some q' \<Rightarrow> if q' = r then None else Some q')"

definition is_open_byte :: "char \<Rightarrow> bool" where
  "is_open_byte r \<longleftrightarrow> r = CHR ''('' \<or> r = CHR ''{'' \<or> r = CHR ''[''"

definition is_close_byte :: "char \<Rightarrow> bool" where
  "is_close_byte r \<longleftrightarrow> r = CHR '')'' \<or> r = CHR ''}'' \<or> r = CHR '']''"

definition is_backslash :: "char \<Rightarrow> bool" where
  "is_backslash r \<longleftrightarrow> byte_of r = 92"

definition is_newline :: "char \<Rightarrow> bool" where
  "is_newline r \<longleftrightarrow> byte_of r = 10"

text \<open>The flush of the builder: the trimmed text when there is any. \<open>cur\<close> is reversed.\<close>

definition flush :: "string \<Rightarrow> string list" where
  "flush cur = (let s = TrimSpace (rev cur) in if s \<noteq> [] then [s] else [])"

text \<open>
  The loop of \<open>splitCommandSeparators\<close>: \<open>q\<close> is inQuote, \<open>esc\<close> is escapeNext, \<open>d\<close> is depth, which
  the source lets fall below zero.
\<close>

fun split_scan :: "char option \<Rightarrow> bool \<Rightarrow> int \<Rightarrow> string \<Rightarrow> string \<Rightarrow> string list" where
  "split_scan q esc d cur [] = flush cur"
| "split_scan q esc d cur (r # rs) =
     (if esc then split_scan q False d (r # cur) rs
      else if is_backslash r then split_scan q True d (r # cur) rs
      else if is_quote_byte r then split_scan (toggle_quote q r) False d (r # cur) rs
      else if is_open_byte r then split_scan q False (d + 1) (r # cur) rs
      else if is_close_byte r then split_scan q False (d - 1) (r # cur) rs
      else if q = None \<and> d = 0 \<and> (r = CHR '';'' \<or> is_newline r)
        then flush cur @ split_scan q False d [] rs
      else split_scan q False d (r # cur) rs)"

text \<open>The loop of \<open>splitOnOperators\<close>, which looks one byte ahead.\<close>

definition is_operator :: "char \<Rightarrow> char \<Rightarrow> bool" where
  "is_operator r n \<longleftrightarrow> (r = CHR ''&'' \<and> n = CHR ''&'') \<or> (r = CHR ''|'' \<and> n = CHR ''|'')"

fun ops_scan :: "char option \<Rightarrow> string \<Rightarrow> string \<Rightarrow> string list" where
  "ops_scan q cur [] = flush cur"
| "ops_scan q cur [r] =
     (if is_quote_byte r then ops_scan (toggle_quote q r) (r # cur) [] else ops_scan q (r # cur) [])"
| "ops_scan q cur (r # n # rs) =
     (if is_quote_byte r then ops_scan (toggle_quote q r) (r # cur) (n # rs)
      else if q = None \<and> is_operator r n
        then flush cur @ ops_scan q [] rs
      else ops_scan q (r # cur) (n # rs))"

definition splitOnOperators :: "string \<Rightarrow> string list" where
  "splitOnOperators cmd = ops_scan None [] cmd"

definition splitCommandSeparators :: "string \<Rightarrow> string list" where
  "splitCommandSeparators cmd = concat (map splitOnOperators (split_scan None False 0 [] cmd))"

section \<open>All commands of a command\<close>

definition dedupe :: "string list \<Rightarrow> string list" where
  "dedupe items = dedupe_from {} items"

text \<open>\<^verbatim>\<open>\$\(([^)]+)\)\<close> and \<^verbatim>\<open>`([^`]+)`\<close>\<close>

definition rx_dollar_head :: rx where
  "rx_dollar_head = rx_lit ''$(''"

definition rx_dollar_tail :: rx where
  "rx_dollar_tail = rx_seq [RGrp 1 (rx_plus (RCls True [(41, 41)])), rx_lit '')'']"

definition rx_backtick :: rx where
  "rx_backtick = RCls False [(96, 96)]"

definition rx_backtick_tail :: rx where
  "rx_backtick_tail = rx_seq [RGrp 1 (rx_plus (RCls True [(96, 96)])), rx_backtick]"

definition dollar_matches :: "string \<Rightarrow> string list" where
  "dollar_matches cmd = FindAllSubmatch1 (RSeq rx_dollar_head rx_dollar_tail) cmd"

definition backtick_matches :: "string \<Rightarrow> string list" where
  "backtick_matches cmd = FindAllSubmatch1 (RSeq rx_backtick rx_backtick_tail) cmd"

lemma rx_dollar_head_fixed: "rx_groups rx_dollar_head = []" "0 < rx_min rx_dollar_head"
  by (simp_all add: rx_dollar_head_def rx_lit_def rx_byte_def)

lemma rx_backtick_fixed: "rx_groups rx_backtick = []" "0 < rx_min rx_backtick"
  by (simp_all add: rx_backtick_def)

lemma dollar_matches_shorter: "m \<in> set (dollar_matches cmd) \<Longrightarrow> length m < length cmd"
  unfolding dollar_matches_def by (erule FindAllSubmatch1_shorter [OF _ rx_dollar_head_fixed])

lemma backtick_matches_shorter: "m \<in> set (backtick_matches cmd) \<Longrightarrow> length m < length cmd"
  unfolding backtick_matches_def by (erule FindAllSubmatch1_shorter [OF _ rx_backtick_fixed])

text \<open>Lengths, for the termination of the mutual recursion.\<close>

lemma length_unwrapShellCommand: "length (unwrapShellCommand cmd) \<le> length cmd"
proof (induction cmd rule: unwrapShellCommand.induct)
  case (1 cmd)
  show ?case
  proof (cases "wrapped_command (TrimSpace cmd)")
    case None
    then show ?thesis by (simp add: unwrapShellCommand.simps [of cmd] length_TrimSpace)
  next
    case (Some inner)
    from "1.IH" [OF Some] wrapped_command_shorter [OF Some] length_TrimSpace [of cmd] Some
    show ?thesis by (simp add: unwrapShellCommand.simps [of cmd])
  qed
qed

lemma flush_length: "p \<in> set (flush cur) \<Longrightarrow> length p \<le> length cur"
  using length_TrimSpace [of "rev cur"] by (auto simp: flush_def Let_def split: if_splits)

lemma split_scan_Cons_cases:
  "\<exists>q' esc' d'. split_scan q esc d cur (r # rs) = split_scan q' esc' d' (r # cur) rs
     \<or> split_scan q esc d cur (r # rs) = flush cur @ split_scan q' esc' d' [] rs"
  by (simp only: split_scan.simps split: if_split) blast

lemma split_scan_length: "p \<in> set (split_scan q esc d cur s) \<Longrightarrow> length p \<le> length cur + length s"
proof (induction s arbitrary: q esc d cur)
  case Nil
  then show ?case by (simp add: flush_length)
next
  case (Cons r rs)
  from split_scan_Cons_cases [of q esc d cur r rs] obtain q' esc' d' where
    "split_scan q esc d cur (r # rs) = split_scan q' esc' d' (r # cur) rs
     \<or> split_scan q esc d cur (r # rs) = flush cur @ split_scan q' esc' d' [] rs" by blast
  with Cons.prems have "p \<in> set (flush cur) \<or> p \<in> set (split_scan q' esc' d' (r # cur) rs)
      \<or> p \<in> set (split_scan q' esc' d' [] rs)" by (metis Un_iff set_append)
  then show ?case using flush_length [of p cur] Cons.IH [of q' esc' d' "r # cur"]
      Cons.IH [of q' esc' d' "[]"] by auto
qed

lemma ops_scan_length: "p \<in> set (ops_scan q cur s) \<Longrightarrow> length p \<le> length cur + length s"
proof (induction q cur s rule: ops_scan.induct)
  case (1 q cur)
  then show ?case by (simp add: flush_length)
next
  case (2 q cur r)
  then have "p \<in> set (flush (r # cur))" by (simp split: if_splits)
  then show ?case by (auto dest: flush_length)
next
  case (3 q cur r n rs)
  show ?case
  proof (cases "is_quote_byte r")
    case True
    with 3 show ?thesis by simp
  next
    case False
    show ?thesis
    proof (cases "q = None \<and> is_operator r n")
      case op: True
      from False 3(4) have "p \<in> set (flush cur) \<or> p \<in> set (ops_scan q [] rs)"
        by (simp only: ops_scan.simps if_not_P [OF False] if_False if_P [OF op] set_append Un_iff)
      then show ?thesis using 3(2) [OF False op] flush_length [of p cur] by auto
    next
      case op: False
      from False 3(4) have "p \<in> set (ops_scan q (r # cur) (n # rs))"
        by (simp only: ops_scan.simps if_not_P [OF False] if_False if_not_P [OF op])
      then show ?thesis using 3(3) [OF False op] by simp
    qed
  qed
qed

lemma splitCommandSeparators_length: "p \<in> set (splitCommandSeparators cmd) \<Longrightarrow> length p \<le> length cmd"
  using split_scan_length ops_scan_length
  by (fastforce simp: splitCommandSeparators_def splitOnOperators_def)

function (sequential)
  ExtractAllCommands :: "string \<Rightarrow> string list" and
  extractCommandSubstitution :: "string \<Rightarrow> string list" where
  "ExtractAllCommands cmd =
     (let unwrapped = unwrapShellCommand cmd in
      dedupe
        (concat (map (\<lambda>part. if TrimSpace part = [] then []
                        else extractCommandSubstitution (TrimSpace part) @ [TrimSpace part])
                   (splitCommandSeparators unwrapped))
         @ (if cmd \<noteq> unwrapped then [cmd] else [])))"
| "extractCommandSubstitution cmd =
     concat (map (\<lambda>m. m # ExtractAllCommands m) (dollar_matches cmd))
     @ concat (map (\<lambda>m. m # ExtractAllCommands m) (backtick_matches cmd))"
  by pat_completeness auto
termination
proof (relation "measure (case_sum (\<lambda>c. 2 * length c + 1) (\<lambda>c. 2 * length c))", goal_cases)
  case (2 cmd u part)
  then have "length part \<le> length u" by (simp add: splitCommandSeparators_length)
  with 2 length_unwrapShellCommand [of cmd] length_TrimSpace [of part] show ?case by simp
next
  case (3 cmd m)
  then show ?case using dollar_matches_shorter [of m cmd] by simp
next
  case (4 cmd m)
  then show ?case using backtick_matches_shorter [of m cmd] by simp
qed simp

declare ExtractAllCommands.simps [simp del] extractCommandSubstitution.simps [simp del]

section \<open>The fixed detectors\<close>

text \<open>\<^verbatim>\<open>base64\s+(-d|--decode).*\|\s*(sh|bash|zsh)\<close>\<close>

definition base64PipePattern :: rx where
  "base64PipePattern = rx_seq [rx_lit ''base64'', rx_plus rx_space,
     RGrp 1 (RAlt (rx_lit ''-d'') (rx_lit ''--decode'')), rx_star RAny, rx_lit ''|'', rx_star rx_space,
     RGrp 2 (RAlt (rx_lit ''sh'') (RAlt (rx_lit ''bash'') (rx_lit ''zsh'')))]"

definition IsBase64Encoded :: "string \<Rightarrow> bool" where
  "IsBase64Encoded cmd = MatchString base64PipePattern cmd"

definition forkBombPatterns :: "string list" where
  "forkBombPatterns =
     ['':(){ :|:& };:'', '':(){ :|:& };: &'', ''.(){.|.&};.'', ''bomb(){ bomb|bomb& };bomb'',
      '':(){:|:&};:'']"

text \<open>\<^verbatim>\<open>[a-zA-Z_.:]+\<close>\<close>

definition rx_name :: rx where
  "rx_name = rx_plus (RCls False [(97, 122), (65, 90), (95, 95), (46, 46), (58, 58)])"

definition forkBombRegex :: rx where
  "forkBombRegex = rx_seq [RBol, rx_name, rx_lit ''()'', rx_star rx_space, rx_lit ''{'',
     rx_star rx_space, rx_name, rx_star rx_space, rx_lit ''|'', rx_star rx_space, rx_name,
     rx_star rx_space, rx_lit ''&'', rx_star rx_space, rx_lit ''}'', rx_star rx_space, rx_lit '';'',
     rx_star rx_space, rx_name, rx_star rx_space, rx_opt (rx_lit ''&''), rx_star rx_space, REol]"

definition IsForkBomb :: "string \<Rightarrow> bool" where
  "IsForkBomb cmd =
     (let normalized = TrimSpace cmd in
      list_ex (\<lambda>p. normalized = p \<or> Contains normalized p) forkBombPatterns
      \<or> MatchString forkBombRegex normalized)"

section \<open>The decision\<close>

text \<open>
  The loop over the extracted commands; \<open>pending\<close> is pendingCmd, the empty string while none is
  found.
\<close>

fun check_loop :: "RiskPolicyConfig \<Rightarrow> string \<Rightarrow> string list \<Rightarrow> Result" where
  "check_loop policy pending [] =
     (if pending \<noteq> [] then \<lparr>rs_Action = ActionPending, rs_Reason = ''command requires approval'', rs_ID = [],
                                rs_Command = pending\<rparr>
      else allow_result)"
| "check_loop policy pending (cmd # cmds) =
     (if ShouldBlock policy cmd
      then \<lparr>rs_Action = ActionBlock, rs_Reason = ''command matches block policy'', rs_ID = [], rs_Command = cmd\<rparr>
      else check_loop policy (if RequiresApproval policy cmd \<and> pending = [] then cmd else pending) cmds)"

text \<open>\<open>Check\<close> also stores the extracted command in the tool call it is given.\<close>

definition Check :: "RiskPolicyConfig \<Rightarrow> ToolCall \<Rightarrow> ToolCall \<times> Result" where
  "Check policy tc =
     (let rawCmd = extractCommand tc; tc' = tc\<lparr>tc_Command := rawCmd\<rparr> in
      if rawCmd = [] then (tc, allow_result)
      else if IsBase64Encoded rawCmd
        then (tc', \<lparr>rs_Action = ActionPending, rs_Reason = ''potential base64 encoded command evasion'', rs_ID = [],
                     rs_Command = rawCmd\<rparr>)
      else if IsForkBomb rawCmd
        then (tc', \<lparr>rs_Action = ActionBlock, rs_Reason = ''fork bomb detected'', rs_ID = [], rs_Command = rawCmd\<rparr>)
      else if ShouldBlock policy rawCmd
        then (tc', \<lparr>rs_Action = ActionBlock, rs_Reason = ''command matches block policy'', rs_ID = [],
                     rs_Command = rawCmd\<rparr>)
      else (tc', check_loop policy [] (ExtractAllCommands rawCmd)))"

section \<open>Parsing a tool call\<close>

definition ParseToolCallFromJSON :: "gomap \<Rightarrow> ToolCall option" where
  "ParseToolCallFromJSON data =
     (let tc = \<lparr>tc_Name = [], tc_Args = [], tc_Command = []\<rparr> in
      case get_string data ''name'' of
        Some name \<Rightarrow>
          Some (tc\<lparr>tc_Name := name,
                   tc_Args := (case get_object data ''args'' of Some args \<Rightarrow> args | None \<Rightarrow> [])\<rparr>)
      | None \<Rightarrow>
          (case get_string data ''tool_name'' of
             Some name \<Rightarrow>
               Some (tc\<lparr>tc_Name := name,
                        tc_Args := (case get_object data ''tool_input'' of Some i \<Rightarrow> i | None \<Rightarrow> [])\<rparr>)
           | None \<Rightarrow>
               (if map_of data ''type'' = Some (JStr ''tool_use'') then
                  (case get_string data ''name'' of
                     Some name \<Rightarrow>
                       Some (tc\<lparr>tc_Name := name,
                         tc_Args := (case get_object data ''input'' of Some i \<Rightarrow> i | None \<Rightarrow> [])\<rparr>)
                   | None \<Rightarrow> Some tc)
                else None)))"

section \<open>Facts on the extraction\<close>

lemma set_dedupe [simp]: "set (dedupe xs) = set xs"
  by (simp add: dedupe_def set_dedupe_from)

lemma distinct_dedupe [simp]: "distinct (dedupe xs)"
  by (simp add: dedupe_def distinct_dedupe_from)

lemma set_ExtractAllCommands:
  "set (ExtractAllCommands cmd) =
     (\<Union>part \<in> set (splitCommandSeparators (unwrapShellCommand cmd)).
        if TrimSpace part = [] then {}
        else insert (TrimSpace part) (set (extractCommandSubstitution (TrimSpace part))))
     \<union> (if cmd \<noteq> unwrapShellCommand cmd then {cmd} else {})"
  by (auto simp: ExtractAllCommands.simps [of cmd] Let_def split: if_splits)

lemma set_extractCommandSubstitution:
  "set (extractCommandSubstitution cmd) =
     (\<Union>m \<in> set (dollar_matches cmd) \<union> set (backtick_matches cmd). insert m (set (ExtractAllCommands m)))"
  by (auto simp: extractCommandSubstitution.simps [of cmd])

lemma unwrap_step: "wrapped_command (TrimSpace cmd) = Some inner \<Longrightarrow>
    unwrapShellCommand cmd = unwrapShellCommand inner"
  by (simp add: unwrapShellCommand.simps [of cmd])

lemma unwrap_stop: "wrapped_command (TrimSpace cmd) = None \<Longrightarrow> unwrapShellCommand cmd = TrimSpace cmd"
  by (simp add: unwrapShellCommand.simps [of cmd])

lemma unwrap_fixpoint:
  "wrapped_command (unwrapShellCommand cmd) = None \<and> TrimSpace (unwrapShellCommand cmd) = unwrapShellCommand cmd"
proof (induction cmd rule: unwrapShellCommand.induct)
  case (1 cmd)
  show ?case
    by (cases "wrapped_command (TrimSpace cmd)") (simp_all add: unwrap_stop unwrap_step "1.IH")
qed

lemma unwrap_Nil [simp]: "unwrapShellCommand [] = []"
proof -
  have "length (unwrapShellCommand []) \<le> length ([] :: string)" by (rule length_unwrapShellCommand)
  then show ?thesis by simp
qed

text \<open>What a search of the two patterns captures is not empty.\<close>

lemma rx_run_group_nonempty:
  "t \<in> set (rx_run (rx_seq [RGrp 1 (rx_plus (RCls neg rs)), r]) s) \<Longrightarrow> rx_groups r = [] \<Longrightarrow>
   \<exists>w. rx_caps t 1 = Some w \<and> w \<noteq> []"
proof -
  assume t: "t \<in> set (rx_run (rx_seq [RGrp 1 (rx_plus (RCls neg rs)), r]) s)" and r: "rx_groups r = []"
  then obtain u where u: "u \<in> set (rx_run (rx_plus (RCls neg rs)) s)"
    and tr: "t \<in> set (rx_run r (u\<lparr>rx_caps := (rx_caps u)
      (1 := Some (take (length (rx_right s) - length (rx_right u)) (rx_right s)))\<rparr>))"
    by (auto simp: rx_seq_def)
  from moved_rx_run [OF u] have "moved 1 s u" by (simp add: rx_plus_def)
  then have "take (length (rx_right s) - length (rx_right u)) (rx_right s) \<noteq> []"
    by (auto simp: moved_def)
  with caps_unchanged [OF r tr] show ?thesis by simp
qed

lemma submatch_nonempty:
  assumes "m \<in> set (FindAllSubmatch1 (RSeq h (rx_seq [RGrp 1 (rx_plus (RCls neg rs)), r])) cmd)"
    and "rx_groups r = []"
  shows "m \<noteq> []"
proof -
  from assms(1) obtain st where st: "st \<in> set (rx_find_all (RSeq h (rx_seq [RGrp 1 (rx_plus (RCls neg rs)), r])) [] cmd)"
    and m: "rx_caps st 1 = Some m"
    by (auto simp: FindAllSubmatch1_def List.map_filter_def)
  from rx_find_all_from_run [OF st] obtain s where
    "st \<in> set (rx_run (rx_seq [RGrp 1 (rx_plus (RCls neg rs)), r]) s)" by auto
  from rx_run_group_nonempty [OF this assms(2)] m show ?thesis by auto
qed

lemma dollar_matches_nonempty: "m \<in> set (dollar_matches cmd) \<Longrightarrow> m \<noteq> []"
  unfolding dollar_matches_def rx_dollar_tail_def
  by (erule submatch_nonempty) (simp add: rx_lit_def rx_byte_def)

lemma backtick_matches_nonempty: "m \<in> set (backtick_matches cmd) \<Longrightarrow> m \<noteq> []"
  unfolding backtick_matches_def rx_backtick_tail_def
  by (erule submatch_nonempty) (simp add: rx_backtick_def)

lemma ExtractAllCommands_nonempty:
  "c \<in> set (ExtractAllCommands cmd) \<Longrightarrow> c \<noteq> []"
  "c \<in> set (extractCommandSubstitution cmd) \<Longrightarrow> c \<noteq> []"
proof (induction cmd and cmd rule: ExtractAllCommands_extractCommandSubstitution.induct)
  case (1 cmd)
  then show ?case
    using unwrap_Nil by (auto simp: set_ExtractAllCommands split: if_splits)
next
  case (2 cmd)
  then show ?case
    by (auto simp: set_extractCommandSubstitution dest: dollar_matches_nonempty backtick_matches_nonempty)
qed

section \<open>The decision\<close>

text \<open>The loop over the extracted commands, whatever is pending before it.\<close>

lemma check_loop_spec:
  assumes "[] \<notin> set cmds"
  shows "check_loop policy p cmds =
    (case find (ShouldBlock policy) cmds of
       Some c \<Rightarrow> \<lparr>rs_Action = ActionBlock, rs_Reason = ''command matches block policy'', rs_ID = [],
                     rs_Command = c\<rparr>
     | None \<Rightarrow>
         (case (if p \<noteq> [] then Some p else find (RequiresApproval policy) cmds) of
            Some c \<Rightarrow> \<lparr>rs_Action = ActionPending, rs_Reason = ''command requires approval'', rs_ID = [],
                          rs_Command = c\<rparr>
          | None \<Rightarrow> allow_result))"
  using assms
proof (induction cmds arbitrary: p)
  case Nil
  then show ?case by simp
next
  case (Cons c cs)
  then have "c \<noteq> []" "[] \<notin> set cs" by auto
  with Cons.IH show ?case by (simp split: option.splits)
qed

lemma find_Some_iff_ex: "find P xs \<noteq> None \<longleftrightarrow> (\<exists>x \<in> set xs. P x)"
  by (auto simp: find_None_iff)

lemma check_loop_action:
  assumes "[] \<notin> set cmds"
  shows "rs_Action (check_loop policy [] cmds) =
    (if list_ex (ShouldBlock policy) cmds then ActionBlock
     else if list_ex (RequiresApproval policy) cmds then ActionPending else ActionAllow)"
  using find_Some_iff_ex [of "ShouldBlock policy" cmds] find_Some_iff_ex [of "RequiresApproval policy" cmds]
  by (auto simp: check_loop_spec [OF assms] allow_result_def list_ex_iff split: option.splits)

text \<open>Decisions in order of severity.\<close>

primrec severity :: "Action \<Rightarrow> nat" where
  "severity ActionAllow = 0"
| "severity ActionPending = 1"
| "severity ActionBlock = 2"

instantiation Action :: linorder
begin

definition less_eq_Action :: "Action \<Rightarrow> Action \<Rightarrow> bool" where
  "less_eq_Action a b \<longleftrightarrow> severity a \<le> severity b"

definition less_Action :: "Action \<Rightarrow> Action \<Rightarrow> bool" where
  "less_Action a b \<longleftrightarrow> severity a < severity b"

lemma severity_inj: "severity a = severity b \<longleftrightarrow> a = b"
  by (cases a; cases b) simp_all

instance
  by standard (auto simp: less_eq_Action_def less_Action_def severity_inj)

end

definition policy_extends :: "RiskPolicyConfig \<Rightarrow> RiskPolicyConfig \<Rightarrow> bool" where
  "policy_extends r r' \<longleftrightarrow> set (rp_blockRegexes r) \<subseteq> set (rp_blockRegexes r')
     \<and> set (rp_approvalRegexes r) \<subseteq> set (rp_approvalRegexes r')"

lemma ShouldBlock_extends: "policy_extends r r' \<Longrightarrow> ShouldBlock r c \<Longrightarrow> ShouldBlock r' c"
  by (auto simp: policy_extends_def ShouldBlock_iff)

lemma RequiresApproval_extends: "policy_extends r r' \<Longrightarrow> RequiresApproval r c \<Longrightarrow> RequiresApproval r' c"
  by (auto simp: policy_extends_def RequiresApproval_iff)

lemma Check_action_eq:
  "rs_Action (snd (Check policy tc)) =
     (let raw = extractCommand tc; cmds = ExtractAllCommands raw in
      if raw = [] then ActionAllow
      else if IsBase64Encoded raw then ActionPending
      else if IsForkBomb raw \<or> ShouldBlock policy raw \<or> list_ex (ShouldBlock policy) cmds then ActionBlock
      else if list_ex (RequiresApproval policy) cmds then ActionPending
      else ActionAllow)"
proof -
  have "[] \<notin> set (ExtractAllCommands raw)" for raw using ExtractAllCommands_nonempty(1) by blast
  from check_loop_action [OF this] show ?thesis
    by (simp add: Check_def Let_def allow_result_def)
qed

section \<open>What the splitting keeps\<close>

text \<open>The bytes of a command that are neither blanks nor made of separators.\<close>

definition is_payload :: "char \<Rightarrow> bool" where
  "is_payload c \<longleftrightarrow> \<not> IsSpace c \<and> c \<noteq> CHR '';'' \<and> c \<noteq> CHR ''&'' \<and> c \<noteq> CHR ''|''"

definition payload :: "string \<Rightarrow> string" where
  "payload s = filter is_payload s"

lemma payload_simps [simp]:
  "payload [] = []"
  "payload (s @ t) = payload s @ payload t"
  "payload (c # s) = (if is_payload c then c # payload s else payload s)"
  by (simp_all add: payload_def)

lemma filter_dropWhile: "(\<And>x. P x \<Longrightarrow> \<not> Q x) \<Longrightarrow> filter Q (dropWhile P xs) = filter Q xs"
  by (induction xs) auto

lemma payload_TrimSpace [simp]: "payload (TrimSpace s) = payload s"
proof -
  have sp: "IsSpace c \<Longrightarrow> \<not> is_payload c" for c by (simp add: is_payload_def)
  have "payload (TrimSpace s) = rev (filter is_payload (dropWhile IsSpace (rev (dropWhile IsSpace s))))"
    by (simp only: payload_def TrimSpace_def TrimFunc_def TrimRightFunc_def rev_filter)
  also have "\<dots> = rev (filter is_payload (rev (dropWhile IsSpace s)))"
    by (simp only: filter_dropWhile [OF sp])
  also have "\<dots> = filter is_payload (dropWhile IsSpace s)"
    by (simp only: rev_filter [symmetric] rev_rev_ident)
  also have "\<dots> = payload s" by (simp only: filter_dropWhile [OF sp] payload_def)
  finally show ?thesis .
qed

lemma payload_flush [simp]: "payload (concat (flush cur)) = payload (rev cur)"
proof (cases "TrimSpace (rev cur) = []")
  case True
  then have "payload (rev cur) = []" using payload_TrimSpace [of "rev cur"] by simp
  with True show ?thesis by (simp add: flush_def)
qed (simp add: flush_def)

lemma newline_not_payload: "is_newline r \<Longrightarrow> \<not> is_payload r"
  by (simp add: is_newline_def is_payload_def IsSpace_def)

lemma payload_split_scan: "payload (concat (split_scan q esc d cur s)) = payload (rev cur @ s)"
proof (induction s arbitrary: q esc d cur)
  case Nil
  then show ?case by simp
next
  case (Cons r rs)
  have "\<not> is_payload r" if "r = CHR '';'' \<or> is_newline r"
    using that newline_not_payload by (auto simp: is_payload_def)
  then show ?case by (simp add: Cons.IH)
qed

lemma payload_ops_scan: "payload (concat (ops_scan q cur s)) = payload (rev cur @ s)"
proof (induction q cur s rule: ops_scan.induct)
  case (3 q cur r n rs)
  show ?case
  proof (cases "is_quote_byte r")
    case True
    with 3(1) show ?thesis by simp
  next
    case False
    show ?thesis
    proof (cases "q = None \<and> is_operator r n")
      case op: True
      have eq: "ops_scan q cur (r # n # rs) = flush cur @ ops_scan q [] rs"
        by (simp only: ops_scan.simps if_not_P [OF False] if_False if_P [OF op])
      from op have "\<not> is_payload r" "\<not> is_payload n" by (auto simp: is_payload_def is_operator_def)
      with 3(2) [OF False op] show ?thesis unfolding eq by simp
    next
      case op: False
      have eq: "ops_scan q cur (r # n # rs) = ops_scan q (r # cur) (n # rs)"
        by (simp only: ops_scan.simps if_not_P [OF False] if_not_P [OF op] if_False)
      from 3(3) [OF False op] show ?thesis unfolding eq by simp
    qed
  qed
qed simp_all

lemma payload_splitOnOperators: "payload (concat (splitOnOperators cmd)) = payload cmd"
  by (simp add: splitOnOperators_def payload_ops_scan)

lemma payload_splitCommandSeparators: "payload (concat (splitCommandSeparators cmd)) = payload cmd"
proof -
  have "payload (concat (concat (map splitOnOperators xs))) = payload (concat xs)" for xs
    by (induction xs) (simp_all add: payload_splitOnOperators)
  then show ?thesis by (simp add: splitCommandSeparators_def payload_split_scan)
qed

section \<open>Compound commands of plain segments\<close>

text \<open>A plain segment holds something and none of the bytes the splitting treats specially.\<close>

definition plain_byte :: "char \<Rightarrow> bool" where
  "plain_byte c \<longleftrightarrow> \<not> is_quote_byte c \<and> \<not> is_open_byte c \<and> \<not> is_close_byte c \<and> \<not> is_backslash c
     \<and> \<not> is_newline c \<and> c \<noteq> CHR '';'' \<and> c \<noteq> CHR ''&'' \<and> c \<noteq> CHR ''|''"

definition plain_segment :: "string \<Rightarrow> bool" where
  "plain_segment s \<longleftrightarrow> list_all plain_byte s \<and> TrimSpace s \<noteq> []"

definition separators :: "string list" where
  "separators = ['';'', [CHR 0x0A], ''&&'', ''||'']"

text \<open>A segment followed by separated segments.\<close>

fun assemble :: "string \<Rightarrow> (string \<times> string) list \<Rightarrow> string" where
  "assemble s [] = s"
| "assemble s ((sep, t) # rest) = s @ sep @ assemble t rest"

lemma split_scan_plain:
  "list_all plain_byte u \<Longrightarrow>
   split_scan None False 0 cur (u @ rest) = split_scan None False 0 (rev u @ cur) rest"
proof (induction u arbitrary: cur)
  case Nil
  then show ?case by simp
next
  case (Cons c u)
  then have c: "\<not> is_quote_byte c" "\<not> is_open_byte c" "\<not> is_close_byte c" "\<not> is_backslash c"
      "\<not> is_newline c" "c \<noteq> CHR '';''" and u: "list_all plain_byte u"
    by (simp_all add: plain_byte_def [of c])
  show ?case using Cons.IH [OF u, of "c # cur"] c by simp
qed

lemma ops_scan_plain:
  "list_all plain_byte u \<Longrightarrow> ops_scan None cur (u @ rest) = ops_scan None (rev u @ cur) rest"
proof (induction u arbitrary: cur)
  case Nil
  then show ?case by simp
next
  case (Cons c u)
  then have c: "\<not> is_quote_byte c" "c \<noteq> CHR ''&''" "c \<noteq> CHR ''|''" and u: "list_all plain_byte u"
    by (simp_all add: plain_byte_def [of c])
  have "ops_scan None cur (c # u @ rest) = ops_scan None (c # cur) (u @ rest)"
    using c by (cases "u @ rest") (simp_all add: is_operator_def)
  with Cons.IH [OF u, of "c # cur"] show ?case by simp
qed

lemma dropWhile_all_Nil: "\<forall>x \<in> set xs. P x \<Longrightarrow> dropWhile P xs = []"
  by (simp add: dropWhile_eq_Nil_conv)

lemma TrimSpace_append_blank:
  "list_all IsSpace b \<Longrightarrow> TrimSpace (b @ s) = TrimSpace s"
  "list_all IsSpace b \<Longrightarrow> TrimSpace (s @ b) = TrimSpace s"
proof -
  assume b: "list_all IsSpace b"
  then have all: "\<forall>x \<in> set b. IsSpace x" by (simp add: list_all_iff)
  show "TrimSpace (b @ s) = TrimSpace s"
    using all by (simp add: TrimSpace_def TrimFunc_def dropWhile_append_self)
  show "TrimSpace (s @ b) = TrimSpace s"
  proof (cases "dropWhile IsSpace s = []")
    case True
    then have "\<forall>x \<in> set s. IsSpace x" by (simp add: dropWhile_eq_Nil_conv)
    then show ?thesis using all
      by (simp add: TrimSpace_def TrimFunc_def TrimRightFunc_def dropWhile_append_self
          dropWhile_eq_Nil_conv dropWhile_all_Nil)
  next
    case False
    then have "dropWhile IsSpace (s @ b) = dropWhile IsSpace s @ b"
      by (auto simp: dropWhile_append)
    then show ?thesis using all
      by (simp add: TrimSpace_def TrimFunc_def TrimRightFunc_def dropWhile_append_self)
  qed
qed

lemma flush_blank: "list_all IsSpace b \<Longrightarrow> flush (cur @ b) = flush cur"
  "list_all IsSpace b \<Longrightarrow> flush (b @ cur) = flush cur"
proof -
  assume "list_all IsSpace b"
  then have "list_all IsSpace (rev b)" by simp
  then show "flush (cur @ b) = flush cur" "flush (b @ cur) = flush cur"
    by (simp_all add: flush_def TrimSpace_append_blank)
qed

lemma ops_scan_blank_front:
  "list_all IsSpace b \<Longrightarrow> ops_scan q (cur @ b) s = ops_scan q cur s"
proof (induction q cur s rule: ops_scan.induct)
  case (1 q cur)
  then show ?case by (simp add: flush_blank)
next
  case (2 q cur r)
  then show ?case using flush_blank(1) [of b "r # cur"] by simp
next
  case (3 q cur r n rs)
  show ?case
  proof (cases "is_quote_byte r")
    case True
    with 3(1) [OF True 3(4)] show ?thesis by simp
  next
    case False
    note quote = this
    show ?thesis
    proof (cases "q = None \<and> is_operator r n")
      case True
      with quote flush_blank(1) [OF 3(4), of cur] show ?thesis by simp
    next
      case False
      with quote 3(3) [OF quote False 3(4)] show ?thesis by auto
    qed
  qed
qed

lemma TrimSpace_decomp:
  obtains b1 b2 where "s = b1 @ TrimSpace s @ b2" "list_all IsSpace b1" "list_all IsSpace b2"
proof -
  let ?t = "dropWhile IsSpace s"
  have "rev (takeWhile IsSpace (rev ?t) @ dropWhile IsSpace (rev ?t)) = ?t" by simp
  then have t: "?t = TrimSpace s @ rev (takeWhile IsSpace (rev ?t))"
    by (simp only: TrimSpace_def TrimFunc_def TrimRightFunc_def rev_append)
  have blanks: "list_all IsSpace (takeWhile IsSpace xs)" for xs
    by (auto simp: list_all_iff dest: set_takeWhileD)
  show thesis
  proof (rule that)
    have "s = takeWhile IsSpace s @ ?t" by simp
    then show "s = takeWhile IsSpace s @ TrimSpace s @ rev (takeWhile IsSpace (rev ?t))"
      by (subst (asm) t)
    show "list_all IsSpace (rev (takeWhile IsSpace (rev ?t)))" using blanks by simp
  qed (rule blanks)
qed

lemma ops_scan_skip:
  "\<not> is_quote_byte c \<Longrightarrow> c \<noteq> CHR ''&'' \<Longrightarrow> c \<noteq> CHR ''|'' \<Longrightarrow> ops_scan q cur (c # s) = ops_scan q (c # cur) s"
  by (cases s) (simp_all add: is_operator_def)

lemma blank_not_special: "IsSpace c \<Longrightarrow> \<not> is_quote_byte c \<and> c \<noteq> CHR ''&'' \<and> c \<noteq> CHR ''|''"
  by (auto simp: IsSpace_def is_quote_byte_def byte_of_def)

lemma ops_scan_blanks: "list_all IsSpace b \<Longrightarrow> ops_scan q cur (b @ s) = ops_scan q (rev b @ cur) s"
  by (induction b arbitrary: cur) (simp_all add: ops_scan_skip blank_not_special)

lemma ops_scan_blank_end: "list_all IsSpace b \<Longrightarrow> ops_scan q cur (s @ b) = ops_scan q cur s"
proof (induction q cur s rule: ops_scan.induct)
  case (1 q cur)
  then show ?case using ops_scan_blanks [of b q cur "[]"] by (simp add: flush_blank)
next
  case (2 q cur r)
  then have at_end: "ops_scan q' cur' b = flush cur'" for q' cur'
    using ops_scan_blanks [of b q' cur' "[]"] by (simp add: flush_blank)
  show ?case
  proof (cases b)
    case (Cons n b')
    with 2(3) have "\<not> is_operator r n" using blank_not_special [of n] by (auto simp: is_operator_def)
    then have "ops_scan q cur ([r] @ b) = ops_scan (if is_quote_byte r then toggle_quote q r else q) (r # cur) b"
      using Cons by simp
    then show ?thesis by (simp add: at_end)
  qed simp
next
  case (3 q cur r n rs)
  show ?case
  proof (cases "is_quote_byte r")
    case True
    with 3(1) [OF True 3(4)] show ?thesis by simp
  next
    case quote: False
    show ?thesis
    proof (cases "q = None \<and> is_operator r n")
      case True
      with quote 3(2) [OF quote True 3(4)] show ?thesis by simp
    next
      case False
      with quote 3(3) [OF quote False 3(4)] show ?thesis by auto
    qed
  qed
qed

lemma splitOnOperators_TrimSpace: "splitOnOperators (TrimSpace s) = splitOnOperators s"
proof -
  obtain b1 b2 where s: "s = b1 @ TrimSpace s @ b2" and b: "list_all IsSpace b1" "list_all IsSpace b2"
    by (rule TrimSpace_decomp)
  have "splitOnOperators (b1 @ TrimSpace s @ b2) = ops_scan None (rev b1) (TrimSpace s)"
    using ops_scan_blanks [OF b(1), of None "[]" "TrimSpace s @ b2"] ops_scan_blank_end [OF b(2)]
    by (simp add: splitOnOperators_def)
  also have "\<dots> = splitOnOperators (TrimSpace s)"
    using ops_scan_blank_front [of "rev b1" None "[]" "TrimSpace s"] b(1)
    by (simp add: splitOnOperators_def)
  finally show ?thesis using s by simp
qed

text \<open>A group scanned so far ends at an operator, or is empty.\<close>

definition ops_prefix :: "string list \<Rightarrow> string \<Rightarrow> bool" where
  "ops_prefix pre g \<longleftrightarrow> (\<forall>y. splitOnOperators (g @ y) = pre @ splitOnOperators y)"

lemma splitOnOperators_plain: "plain_segment s \<Longrightarrow> splitOnOperators s = [TrimSpace s]"
  using ops_scan_plain [of s "[]" "[]"] by (simp add: splitOnOperators_def plain_segment_def flush_def)

lemma ops_prefix_extend:
  assumes "ops_prefix pre g" "plain_segment s" "sep = ''&&'' \<or> sep = ''||''"
  shows "ops_prefix (pre @ [TrimSpace s]) (g @ s @ sep)"
  unfolding ops_prefix_def
proof
  fix y
  from assms(2) have plain: "list_all plain_byte s" and ne: "TrimSpace s \<noteq> []"
    by (simp_all add: plain_segment_def)
  have "splitOnOperators (s @ sep @ y) = ops_scan None (rev s) (sep @ y)"
    using ops_scan_plain [OF plain, of "[]" "sep @ y"] by (simp add: splitOnOperators_def)
  also have "\<dots> = flush (rev s) @ splitOnOperators y"
    using assms(3) by (auto simp: splitOnOperators_def is_operator_def is_quote_byte_def byte_of_def)
  finally have "splitOnOperators (s @ sep @ y) = [TrimSpace s] @ splitOnOperators y"
    using ne by (simp add: flush_def)
  with assms(1) show "splitOnOperators ((g @ s @ sep) @ y) = (pre @ [TrimSpace s]) @ splitOnOperators y"
    by (simp add: ops_prefix_def)
qed

lemma TrimSpace_append_nonempty: "TrimSpace s \<noteq> [] \<Longrightarrow> TrimSpace (g @ s) \<noteq> []"
proof
  assume ne: "TrimSpace s \<noteq> []" and "TrimSpace (g @ s) = []"
  then obtain b1 b2 where "g @ s = b1 @ b2" "list_all IsSpace b1" "list_all IsSpace b2"
    using TrimSpace_decomp [of "g @ s"] by (metis append_Nil)
  then have "list_all IsSpace (g @ s)" by simp
  then have "TrimSpace (s @ []) = TrimSpace []" using TrimSpace_append_blank(1) [of s "[]"] by simp
  with ne show False by simp
qed

lemma split_group:
  assumes "ops_prefix pre g" "plain_segment s"
  shows "concat (map splitOnOperators (flush (rev s @ rev g))) = pre @ [TrimSpace s]"
proof -
  have "TrimSpace (g @ s) \<noteq> []"
    using assms(2) by (simp add: plain_segment_def TrimSpace_append_nonempty)
  then show ?thesis
    using assms by (simp add: flush_def splitOnOperators_TrimSpace ops_prefix_def splitOnOperators_plain)
qed

lemma split_scan_assemble:
  assumes "plain_segment s" "\<forall>(sep, t) \<in> set rest. sep \<in> set separators \<and> plain_segment t"
    and "ops_prefix pre g"
  shows "concat (map splitOnOperators (split_scan None False 0 (rev g) (assemble s rest)))
       = pre @ TrimSpace s # map (TrimSpace \<circ> snd) rest"
  using assms
proof (induction rest arbitrary: s pre g)
  case Nil
  then have "list_all plain_byte s" by (simp add: plain_segment_def)
  from split_scan_plain [OF this, of "rev g" "[]"] Nil show ?case by (simp add: split_group)
next
  case (Cons st rest)
  obtain sep t where st: "st = (sep, t)" by (cases st)
  from Cons.prems st have sep: "sep \<in> set separators" and t: "plain_segment t"
    and rest: "\<forall>(sep, t) \<in> set rest. sep \<in> set separators \<and> plain_segment t" by auto
  from Cons.prems have plain: "list_all plain_byte s" by (simp add: plain_segment_def)
  note scan = split_scan_plain [OF plain, of "rev g" "sep @ assemble t rest"]
  from sep consider "sep = '';'' \<or> sep = [CHR 0x0A]" | "sep = ''&&'' \<or> sep = ''||''"
    by (auto simp: separators_def)
  then show ?case
  proof cases
    case 1
    then have "split_scan None False 0 (rev g) (s @ sep @ assemble t rest)
      = flush (rev s @ rev g) @ split_scan None False 0 (rev []) (assemble t rest)"
      unfolding scan by (auto simp: is_quote_byte_def is_open_byte_def is_close_byte_def
          is_backslash_def is_newline_def byte_of_def)
    with split_group [OF Cons.prems(3,1)] Cons.IH [OF t rest, of "[]" "[]"] st
    show ?thesis by (simp add: ops_prefix_def)
  next
    case 2
    then have "split_scan None False 0 (rev g) (s @ sep @ assemble t rest)
      = split_scan None False 0 (rev (g @ s @ sep)) (assemble t rest)"
      unfolding scan by (auto simp: is_quote_byte_def is_open_byte_def is_close_byte_def
          is_backslash_def is_newline_def byte_of_def)
    with Cons.IH [OF t rest ops_prefix_extend [OF Cons.prems(3,1) 2]] st show ?thesis by simp
  qed
qed

lemma splitCommandSeparators_assemble:
  assumes "plain_segment s" "\<forall>(sep, t) \<in> set rest. sep \<in> set separators \<and> plain_segment t"
  shows "splitCommandSeparators (assemble s rest) = TrimSpace s # map (TrimSpace \<circ> snd) rest"
  using split_scan_assemble [OF assms, of "[]" "[]"]
  by (simp add: splitCommandSeparators_def ops_prefix_def)

section \<open>Properties\<close>

text \<open>
  The decision as a specification over the command and everything extracted from it: the first
  blocked one decides, then the first that needs approval.
\<close>

definition decide :: "RiskPolicyConfig \<Rightarrow> string \<Rightarrow> Result" where
  "decide policy raw =
     (if raw = [] then allow_result
      else if IsBase64Encoded raw
        then \<lparr>rs_Action = ActionPending, rs_Reason = ''potential base64 encoded command evasion'',
               rs_ID = [], rs_Command = raw\<rparr>
      else if IsForkBomb raw
        then \<lparr>rs_Action = ActionBlock, rs_Reason = ''fork bomb detected'', rs_ID = [], rs_Command = raw\<rparr>
      else (case find (ShouldBlock policy) (raw # ExtractAllCommands raw) of
              Some c \<Rightarrow> \<lparr>rs_Action = ActionBlock, rs_Reason = ''command matches block policy'',
                            rs_ID = [], rs_Command = c\<rparr>
            | None \<Rightarrow>
                (case find (RequiresApproval policy) (ExtractAllCommands raw) of
                   Some c \<Rightarrow> \<lparr>rs_Action = ActionPending, rs_Reason = ''command requires approval'',
                                 rs_ID = [], rs_Command = c\<rparr>
                 | None \<Rightarrow> allow_result)))"

lemma Check_eq:
  "Check policy tc =
     ((if extractCommand tc = [] then tc else tc\<lparr>tc_Command := extractCommand tc\<rparr>),
      decide policy (extractCommand tc))"
proof -
  have "[] \<notin> set (ExtractAllCommands raw)" for raw using ExtractAllCommands_nonempty(1) by blast
  from check_loop_spec [OF this] show ?thesis
    by (auto simp: Check_def decide_def Let_def split: option.splits)
qed

text \<open>
  C24. \<open>Check\<close> decides as \<open>decide\<close> says, on every policy and every tool call: nothing without a
  command, pending for a decoded pipe, blocked for a fork bomb, then the first blocked command among
  the raw command and all extracted ones, then the first that requires approval, and it records the
  raw command in the tool call and changes nothing else of it.
\<close>

theorem Check_decides:
  "Check policy tc =
     ((if extractCommand tc = [] then tc else tc\<lparr>tc_Command := extractCommand tc\<rparr>),
      decide policy (extractCommand tc))"
  by (rule Check_eq)

text \<open>
  C26. A stricter policy never gives a weaker decision: adding block or approval patterns can only
  raise the action in the order allow, pending, block.
\<close>

theorem Check_mono:
  assumes "policy_extends policy policy'"
  shows "rs_Action (snd (Check policy tc)) \<le> rs_Action (snd (Check policy' tc))"
  using ShouldBlock_extends [OF assms] RequiresApproval_extends [OF assms]
  by (auto simp: Check_action_eq Let_def list_ex_iff less_eq_Action_def)

definition rx_policy :: "string list \<Rightarrow> string list \<Rightarrow> RiskPolicyConfig" where
  "rx_policy bs rs = \<lparr>rp_BlockCommands = bs, rp_RequireApproval = rs,
     rp_blockRegexes = map rx_lit bs, rp_approvalRegexes = map rx_lit rs\<rparr>"

definition bash_call :: "string \<Rightarrow> ToolCall" where
  "bash_call cmd = \<lparr>tc_Name = ''bash'', tc_Args = [(''command'', JStr cmd)], tc_Command = []\<rparr>"

theorem Check_mono_witness:
  "rs_Action (snd (Check (rx_policy [] []) (bash_call ''ls'')))
     \<le> rs_Action (snd (Check (rx_policy [''rm''] [''ls'']) (bash_call ''ls'')))"
  by (rule Check_mono) (simp add: policy_extends_def rx_policy_def)

text \<open>
  Splitting loses nothing but separators and blanks: the bytes of the parts that are neither
  blanks nor separator bytes are those of the command, in the same order, for every command, also
  with unbalanced quotes and brackets.
\<close>

theorem split_keeps_payload:
  "filter is_payload (concat (splitCommandSeparators cmd)) = filter is_payload cmd"
  using payload_splitCommandSeparators [of cmd] by (simp add: payload_def)



text \<open>
  A command that a block pattern matches is not always blocked: one that pipes a decoder into a
  shell is only held for approval, because that check comes before the block patterns.
\<close>

theorem base64_shadows_block:
  "let policy = rx_policy [''rm -rf /''] [];
       tc = bash_call ''echo x | base64 -d | sh; rm -rf /'' in
   ShouldBlock policy (extractCommand tc) \<and> rs_Action (snd (Check policy tc)) = ActionPending"
  by code_simp

end
