(* ===== verification/Normalize.thy ===== *)
theory Normalize
  imports Interceptor "HOL-Library.AList"
begin

text \<open>
  The normalizer of tool invocations (internal/interceptor/normalize.go): one request body in one of
  six shapes to a tool name, its arguments, the command, the directory and the environment in them.

  Decoding the body into a \<^verbatim>\<open>map[string]any\<close> is a parameter; it gives the entries of the
  object (none for \<^verbatim>\<open>null\<close>) or the error's text.
\<close>

section \<open>Data\<close>

record NormalizedToolInvoke =
  ni_ToolName :: string
  ni_Command :: string
  ni_Cwd :: string
  ni_Env :: "(string \<times> string) list"
  ni_Args :: gomap
  ni_Raw :: string
  ni_Format :: string
  ni_UnknownKeys :: "string list"

text \<open>What is logged for unknown keys, if there are any, and the text of an invocation in the log.\<close>

definition join_words :: "string list \<Rightarrow> string" where
  "join_words ws = (case ws of [] \<Rightarrow> [] | w # ws \<Rightarrow> w @ concat (map (\<lambda>w. CHR '' '' # w) ws))"

definition LogUnknownKeys :: "string \<Rightarrow> NormalizedToolInvoke \<Rightarrow> string option" where
  "LogUnknownKeys correlationID n =
     (if ni_UnknownKeys n \<noteq> [] then
        Some (''['' @ correlationID @ ''] Unknown keys in tool invoke payload (format='' @ ni_Format n @ ''): ['' @
          join_words (ni_UnknownKeys n) @ '']'')
      else None)"

definition invoke_String :: "NormalizedToolInvoke \<Rightarrow> string" where
  "invoke_String n =
     ''NormalizedToolInvoke{tool='' @ go_quote (ni_ToolName n) @ '', format='' @ go_quote (ni_Format n) @
     (if ni_Command n \<noteq> [] then
        '', command='' @ go_quote (if length (ni_Command n) > 100 then take 100 (ni_Command n) @ ''...'' else ni_Command n)
      else []) @ ''}''"

record ParseFailure =
  pf_Message :: string
  pf_Raw :: string

definition knownTopLevelKeys :: "string list" where
  "knownTopLevelKeys =
     [''tool'', ''input'', ''config'', ''action'', ''args'', ''name'', ''tool_name'', ''tool_input'', ''type'',
      ''id'', ''session_key'', ''sessionKey'', ''request_id'', ''requestId'', ''correlation_id'', ''timeout'',
      ''metadata'', ''context'']"

section \<open>Command, directory and environment\<close>

definition commandFields :: "string list" where
  "commandFields =
     [''command'', ''cmd'', ''script'', ''code'', ''input'', ''CommandLine'', ''shell_command'', ''bash_command'',
      ''execute'', ''run'', ''shell'']"

definition cwdFields :: "string list" where
  "cwdFields = [''cwd'', ''workdir'', ''working_directory'', ''dir'', ''directory'']"

definition envFields :: "string list" where
  "envFields = [''env'', ''environment'', ''env_vars'', ''envVars'']"

text \<open>The loop for a string that is not empty among several fields.\<close>

definition first_nonempty :: "string list \<Rightarrow> gomap \<Rightarrow> string option" where
  "first_nonempty names m =
     find_first (\<lambda>n. case get_string m n of Some s \<Rightarrow> if s \<noteq> [] then Some s else None | None \<Rightarrow> None) names"

text \<open>The loop over the names of the environment: it stops at the first that is there, whatever its type.\<close>

definition env_entries :: "json \<Rightarrow> (string \<times> string) list" where
  "env_entries v =
     (case v of
        JObj e \<Rightarrow> concat (map (\<lambda>(k, x). case x of JStr s \<Rightarrow> [(k, s)] | _ \<Rightarrow> []) e)
      | _ \<Rightarrow> [])"

definition extractCommandAndEnv :: "NormalizedToolInvoke \<Rightarrow> NormalizedToolInvoke" where
  "extractCommandAndEnv n =
     (let n1 = (case first_nonempty commandFields (ni_Args n) of Some s \<Rightarrow> n\<lparr>ni_Command := s\<rparr> | None \<Rightarrow> n);
          n2 = (case first_nonempty cwdFields (ni_Args n) of Some s \<Rightarrow> n1\<lparr>ni_Cwd := s\<rparr> | None \<Rightarrow> n1)
      in case find_first (map_of (ni_Args n)) envFields of
           Some v \<Rightarrow> n2\<lparr>ni_Env := fold (\<lambda>(k, s). AList.update k s) (env_entries v) (ni_Env n2)\<rparr>
         | None \<Rightarrow> n2)"

section \<open>The six shapes\<close>

text \<open>The first field among the two that is an object replaces the arguments.\<close>

definition take_args :: "gomap \<Rightarrow> string \<Rightarrow> NormalizedToolInvoke \<Rightarrow> NormalizedToolInvoke" where
  "take_args data k n = (case get_object data k of Some a \<Rightarrow> n\<lparr>ni_Args := a\<rparr> | None \<Rightarrow> n)"

definition try_tool_use :: "gomap \<Rightarrow> NormalizedToolInvoke \<Rightarrow> NormalizedToolInvoke option" where
  "try_tool_use data n =
     (if get_string data ''type'' = Some ''tool_use'' then
        (let n1 = n\<lparr>ni_Format := ''claude_tool_use''\<rparr>;
             n2 = (case get_string data ''name'' of Some s \<Rightarrow> n1\<lparr>ni_ToolName := s\<rparr> | None \<Rightarrow> n1)
         in Some (take_args data ''input'' n2))
      else None)"

definition try_tool :: "gomap \<Rightarrow> NormalizedToolInvoke \<Rightarrow> NormalizedToolInvoke option" where
  "try_tool data n =
     (case get_string data ''tool'' of
        None \<Rightarrow> None
      | Some tool \<Rightarrow>
          (let n1 = n\<lparr>ni_Format := ''tool_input'', ni_ToolName := tool\<rparr> in
           case get_object data ''input'' of
             Some input \<Rightarrow> Some (n1\<lparr>ni_Args := input\<rparr>)
           | None \<Rightarrow>
               (case get_object data ''args'' of
                  Some args \<Rightarrow> Some (n1\<lparr>ni_Format := ''tool_args'', ni_Args := args\<rparr>)
                | None \<Rightarrow> Some n1)))"

definition try_action :: "gomap \<Rightarrow> NormalizedToolInvoke \<Rightarrow> NormalizedToolInvoke option" where
  "try_action data n =
     map_option (\<lambda>s. take_args data ''args'' (n\<lparr>ni_Format := ''action_args'', ni_ToolName := s\<rparr>))
       (get_string data ''action'')"

definition try_tool_name :: "gomap \<Rightarrow> NormalizedToolInvoke \<Rightarrow> NormalizedToolInvoke option" where
  "try_tool_name data n =
     map_option (\<lambda>s. take_args data ''tool_input'' (n\<lparr>ni_Format := ''tool_name_input'', ni_ToolName := s\<rparr>))
       (get_string data ''tool_name'')"

definition try_name :: "gomap \<Rightarrow> NormalizedToolInvoke \<Rightarrow> NormalizedToolInvoke option" where
  "try_name data n =
     (case get_string data ''name'' of
        None \<Rightarrow> None
      | Some s \<Rightarrow>
          (let n1 = n\<lparr>ni_Format := ''name_args'', ni_ToolName := s\<rparr> in
           case get_object data ''args'' of
             Some args \<Rightarrow> Some (n1\<lparr>ni_Args := args\<rparr>)
           | None \<Rightarrow> Some (take_args data ''input'' n1)))"

text \<open>
  A shape whose name is empty is left again, and the next is tried on what it has already written to
  the result.
\<close>

fun try_shapes ::
  "(gomap \<Rightarrow> NormalizedToolInvoke \<Rightarrow> NormalizedToolInvoke option) list \<Rightarrow> gomap \<Rightarrow>
   NormalizedToolInvoke \<Rightarrow> NormalizedToolInvoke option" where
  "try_shapes [] data n = None"
| "try_shapes (f # fs) data n =
     (case f data n of
        None \<Rightarrow> try_shapes fs data n
      | Some n' \<Rightarrow> if ni_ToolName n' \<noteq> [] then Some n' else try_shapes fs data n')"

definition shapes :: "(gomap \<Rightarrow> NormalizedToolInvoke \<Rightarrow> NormalizedToolInvoke option) list" where
  "shapes = [try_tool_use, try_tool, try_action, try_tool_name, try_name]"

definition NormalizeToolInvoke ::
  "(string \<Rightarrow> string + gomap) \<Rightarrow> string \<Rightarrow> ParseFailure + NormalizedToolInvoke" where
  "NormalizeToolInvoke decode body =
     (if body = [] then Inl \<lparr>pf_Message = ''empty request body'', pf_Raw = body\<rparr>
      else (case decode body of
              Inl e \<Rightarrow> Inl \<lparr>pf_Message = ''invalid JSON: '' @ e, pf_Raw = body\<rparr>
            | Inr data \<Rightarrow>
                if data = [] then Inl \<lparr>pf_Message = ''empty JSON object'', pf_Raw = body\<rparr>
                else (let n0 = \<lparr>ni_ToolName = [], ni_Command = [], ni_Cwd = [], ni_Env = [], ni_Args = [],
                                ni_Raw = body, ni_Format = [],
                                ni_UnknownKeys = filter (\<lambda>k. k \<notin> set knownTopLevelKeys) (map fst data)\<rparr>
                      in case try_shapes shapes data n0 of
                           Some n \<Rightarrow> Inr (extractCommandAndEnv n)
                         | None \<Rightarrow> Inl \<lparr>pf_Message =
                             ''unable to parse tool invocation: no recognized format (expected tool/action/name field)'',
                             pf_Raw = body\<rparr>)))"

section \<open>What the result is used for\<close>

definition commandTools :: "string list" where
  "commandTools =
     [''bash'', ''shell'', ''terminal'', ''execute'', ''run'', ''execute_bash'', ''run_command'', ''command'',
      ''sh'', ''exec'', ''system'', ''subprocess'', ''cmd'', ''zsh'', ''powershell'', ''pwsh'', ''execute_command'']"

definition IsCommandTool :: "NormalizedToolInvoke \<Rightarrow> bool" where
  "IsCommandTool n =
     (let toolLower = ToLower (ni_ToolName n) in
      list_ex (\<lambda>ct. toolLower = ct \<or> Contains toolLower ct) commandTools)"

definition ToToolCall :: "NormalizedToolInvoke \<Rightarrow> ToolCall" where
  "ToToolCall n = \<lparr>tc_Name = ni_ToolName n, tc_Args = ni_Args n, tc_Command = ni_Command n\<rparr>"

section \<open>Facts\<close>

lemma first_nonempty_Some:
  "first_nonempty ns m = Some s \<Longrightarrow> s \<noteq> [] \<and> (\<exists>k \<in> set ns. get_string m k = Some s)"
  by (auto simp: first_nonempty_def dest!: find_first_in_set split: option.splits if_splits)

lemma first_nonempty_None:
  "first_nonempty ns m = None \<longleftrightarrow> (\<forall>k \<in> set ns. get_string m k \<in> {None, Some []})"
  by (auto simp: first_nonempty_def find_first_None_iff split: option.splits if_splits) (metis option.exhaust)

lemma extractCommandAndEnv_fields [simp]:
  "ni_ToolName (extractCommandAndEnv n) = ni_ToolName n" "ni_Args (extractCommandAndEnv n) = ni_Args n"
  "ni_Raw (extractCommandAndEnv n) = ni_Raw n" "ni_Format (extractCommandAndEnv n) = ni_Format n"
  by (simp_all add: extractCommandAndEnv_def Let_def split: option.splits)

lemma extractCommandAndEnv_Command:
  "ni_Command (extractCommandAndEnv n) =
     (case first_nonempty commandFields (ni_Args n) of Some s \<Rightarrow> s | None \<Rightarrow> ni_Command n)"
  by (simp add: extractCommandAndEnv_def Let_def split: option.splits)

lemma take_args_fields [simp]:
  "ni_ToolName (take_args data k n) = ni_ToolName n" "ni_Raw (take_args data k n) = ni_Raw n"
  "ni_Command (take_args data k n) = ni_Command n" "ni_Format (take_args data k n) = ni_Format n"
  by (simp_all add: take_args_def split: option.splits)

lemma shape_results:
  assumes "f \<in> set shapes" "f data n = Some n'"
  shows "ni_Raw n' = ni_Raw n" "ni_Command n' = ni_Command n"
  using assms
  by (auto simp: shapes_def try_tool_use_def try_tool_def try_action_def try_tool_name_def try_name_def Let_def
      split: if_splits option.splits)

lemma try_shapes_results:
  "set fs \<subseteq> set shapes \<Longrightarrow> try_shapes fs data n = Some n' \<Longrightarrow>
     ni_ToolName n' \<noteq> [] \<and> ni_Raw n' = ni_Raw n \<and> ni_Command n' = ni_Command n"
  by (induction fs arbitrary: n) (auto simp: shape_results split: option.splits if_splits)

text \<open>A request names a tool when one of the four fields holds a string that is not empty.\<close>

definition names_tool :: "gomap \<Rightarrow> bool" where
  "names_tool data \<longleftrightarrow>
     first_nonempty [''tool'', ''action'', ''tool_name'', ''name''] data \<noteq> None"

text \<open>Whether a shape is taken does not depend on what the earlier ones left in the result.\<close>

abbreviation no_name :: "gomap \<Rightarrow> string \<Rightarrow> bool" where
  "no_name data k \<equiv> get_string data k = None \<or> get_string data k = Some []"

lemma try_name_None: "try_shapes [try_name] data n = None \<longleftrightarrow> no_name data ''name''"
  by (auto simp: try_name_def Let_def split: option.splits)

lemma try_tool_name_None:
  "try_shapes (try_tool_name # fs) data n = None \<longleftrightarrow>
     no_name data ''tool_name'' \<and>
     try_shapes fs data (case try_tool_name data n of None \<Rightarrow> n | Some n' \<Rightarrow> n') = None"
  by (auto simp: try_tool_name_def split: option.splits)

lemma try_action_None:
  "try_shapes (try_action # fs) data n = None \<longleftrightarrow>
     no_name data ''action'' \<and> try_shapes fs data (case try_action data n of None \<Rightarrow> n | Some n' \<Rightarrow> n') = None"
  by (auto simp: try_action_def split: option.splits)

lemma try_tool_None:
  "try_shapes (try_tool # fs) data n = None \<longleftrightarrow>
     no_name data ''tool'' \<and> try_shapes fs data (case try_tool data n of None \<Rightarrow> n | Some n' \<Rightarrow> n') = None"
  by (auto simp: try_tool_def Let_def split: option.splits)

lemma try_tool_use_None:
  "ni_ToolName n = [] \<Longrightarrow> try_shapes (try_tool_use # fs) data n = None \<longleftrightarrow>
     (get_string data ''type'' = Some ''tool_use'' \<longrightarrow> no_name data ''name'') \<and>
     try_shapes fs data (case try_tool_use data n of None \<Rightarrow> n | Some n' \<Rightarrow> n') = None"
  by (auto simp: try_tool_use_def Let_def split: option.splits)

lemma try_shapes_None_iff:
  "ni_ToolName n = [] \<Longrightarrow> try_shapes shapes data n = None \<longleftrightarrow> \<not> names_tool data"
  unfolding shapes_def
  by (simp only: try_tool_use_None try_tool_None try_action_None try_tool_name_None try_name_None)
    (auto simp: names_tool_def first_nonempty_None)

lemma NormalizeToolInvoke_InrE:
  assumes "NormalizeToolInvoke decode body = Inr n"
  obtains data where "body \<noteq> []" "decode body = Inr data" "names_tool data" "ni_ToolName n \<noteq> []"
    "ni_Command n = (case first_nonempty commandFields (ni_Args n) of Some s \<Rightarrow> s | None \<Rightarrow> [])"
    "ni_Raw n = body"
proof -
  from assms obtain data n' where d: "body \<noteq> []" "decode body = Inr data" "data \<noteq> []" and
    sh: "try_shapes shapes data \<lparr>ni_ToolName = [], ni_Command = [], ni_Cwd = [], ni_Env = [], ni_Args = [],
       ni_Raw = body, ni_Format = [],
       ni_UnknownKeys = filter (\<lambda>k. k \<notin> set knownTopLevelKeys) (map fst data)\<rparr> = Some n'"
    and n: "n = extractCommandAndEnv n'"
    by (auto simp: NormalizeToolInvoke_def Let_def split: if_splits sum.splits option.splits)
  from try_shapes_results [OF subset_refl sh] have
    "ni_ToolName n' \<noteq> []" "ni_Raw n' = body" "ni_Command n' = []" by simp_all
  moreover from sh have "names_tool data"
    using try_shapes_None_iff [of "\<lparr>ni_ToolName = [], ni_Command = [], ni_Cwd = [], ni_Env = [], ni_Args = [],
       ni_Raw = body, ni_Format = [],
       ni_UnknownKeys = filter (\<lambda>k. k \<notin> set knownTopLevelKeys) (map fst data)\<rparr>" data] by auto
  ultimately show thesis using d n by (intro that [of data]) (simp_all add: extractCommandAndEnv_Command split: option.split)
qed

section \<open>Properties\<close>

text \<open>
  C36. The normalizer fails closed: it accepts a body exactly when the body decodes to an object in
  which one of the fields \<open>tool\<close>, \<open>action\<close>, \<open>tool_name\<close> and \<open>name\<close> is a string that is not empty;
  and a result has a tool name, keeps the body as it came, and its command is the first of the
  command fields of its arguments that is a string and not empty.
\<close>

theorem NormalizeToolInvoke_accepts:
  "((\<exists>n. NormalizeToolInvoke decode body = Inr n) \<longleftrightarrow>
     body \<noteq> [] \<and> (\<exists>data. decode body = Inr data \<and> names_tool data)) \<and>
   (NormalizeToolInvoke decode body = Inr n \<longrightarrow>
     ni_ToolName n \<noteq> [] \<and> ni_Raw n = body \<and>
     ni_Command n = (case first_nonempty commandFields (ni_Args n) of Some s \<Rightarrow> s | None \<Rightarrow> []))"
proof (intro conjI iffI impI)
  assume "body \<noteq> [] \<and> (\<exists>data. decode body = Inr data \<and> names_tool data)"
  moreover have "\<not> names_tool []" by code_simp
  ultimately show "\<exists>n. NormalizeToolInvoke decode body = Inr n"
    by (auto simp: NormalizeToolInvoke_def Let_def try_shapes_None_iff split: option.splits)
qed (auto elim: NormalizeToolInvoke_InrE)

theorem NormalizeToolInvoke_accepts_witness:
  "let data = [(''type'', JStr ''tool_use''), (''input'', JObj [(''command'', JStr []), (''run'', JStr ''ls'')]),
               (''action'', JStr ''sh'')];
       n = (case NormalizeToolInvoke (\<lambda>_. Inr data) ''x'' of Inr n \<Rightarrow> n) in
   ni_ToolName n \<noteq> [] \<and> ni_Raw n = ''x'' \<and> ni_Command n = ''ls''"
proof -
  let ?data = "[(''type'', JStr ''tool_use''), (''input'', JObj [(''command'', JStr []), (''run'', JStr ''ls'')]),
     (''action'', JStr ''sh'')]"
  let ?n = "case NormalizeToolInvoke (\<lambda>_. Inr ?data) ''x'' of Inr n \<Rightarrow> n"
  have "NormalizeToolInvoke (\<lambda>_. Inr ?data) ''x'' = Inr ?n" by code_simp
  moreover have "(case first_nonempty commandFields (ni_Args ?n) of Some s \<Rightarrow> s | None \<Rightarrow> []) = ''ls''" by code_simp
  ultimately show ?thesis
    using NormalizeToolInvoke_accepts [of "\<lambda>_. Inr ?data" "''x''" ?n] by (simp only: Let_def) simp
qed

end
