(* ===== verification/Mcp_Policy.thy ===== *)
theory Mcp_Policy
  imports Interceptor
begin

text \<open>
  MCP messages and policies: the JSON-RPC types (internal/mcp/protocol.go), the parsers of tool calls
  and resource reads (parser.go), the policy engine (policy.go) and the policy templates
  (templates.go). Decoding the bytes of a message into its structure is a parameter.
\<close>

section \<open>Messages\<close>

record JSONRPCRequest =
  jr_JSONRPC :: string
  jr_ID :: "json option"
  jr_Method :: string
  jr_Params :: "gomap option"

record JSONRPCError =
  je_Code :: int
  je_Message :: string
  je_Data :: "(string \<times> string) list option"

record JSONRPCResponse =
  js_JSONRPC :: string
  js_ID :: "json option"
  js_Result :: "json option"
  js_Error :: "JSONRPCError option"

definition MethodToolsCall :: string where
  "MethodToolsCall = ''tools/call''"

definition MethodResourcesRead :: string where
  "MethodResourcesRead = ''resources/read''"

definition ErrCodeParseError :: int where
  "ErrCodeParseError = - 32700"

definition ErrCodeInvalidParams :: int where
  "ErrCodeInvalidParams = - 32602"

definition ErrCodeInternal :: int where
  "ErrCodeInternal = - 32603"

definition ErrCodeServerError :: int where
  "ErrCodeServerError = - 32000"

record ToolCallParams =
  tp_Name :: string
  tp_Arguments :: gomap

record ResourceReadParams =
  rr_URI :: string

definition NewErrorResponse ::
  "json option \<Rightarrow> int \<Rightarrow> string \<Rightarrow> (string \<times> string) list option \<Rightarrow> JSONRPCResponse" where
  "NewErrorResponse rid code message data =
     \<lparr>js_JSONRPC = ''2.0'', js_ID = rid, js_Result = None,
      js_Error = Some \<lparr>je_Code = code, je_Message = message, je_Data = data\<rparr>\<rparr>"

definition NewResultResponse :: "json option \<Rightarrow> json \<Rightarrow> JSONRPCResponse" where
  "NewResultResponse rid result =
     \<lparr>js_JSONRPC = ''2.0'', js_ID = rid, js_Result = Some result, js_Error = None\<rparr>"

section \<open>Parsing\<close>

text \<open>An error is its text; \<open>decode\<close> is \<^verbatim>\<open>json.Unmarshal\<close> into the request structure.\<close>

definition ParseMessage :: "(string \<Rightarrow> string + JSONRPCRequest) \<Rightarrow> string \<Rightarrow> string + JSONRPCRequest" where
  "ParseMessage decode data =
     (case decode data of
        Inl e \<Rightarrow> Inl (''invalid JSON-RPC message: '' @ e)
      | Inr req \<Rightarrow>
          if jr_JSONRPC req \<noteq> ''2.0'' then Inl (''unsupported JSON-RPC version: '' @ jr_JSONRPC req)
          else if jr_Method req = [] then Inl ''missing method field''
          else Inr req)"

definition ParseToolCall :: "JSONRPCRequest \<Rightarrow> string + ToolCallParams" where
  "ParseToolCall req =
     (if jr_Method req \<noteq> MethodToolsCall then Inl (''not a tools/call request: '' @ jr_Method req)
      else (case jr_Params req of
              None \<Rightarrow> Inl ''missing params in tools/call request''
            | Some params \<Rightarrow>
                (case get_string params ''name'' of
                   None \<Rightarrow> Inl ''missing or invalid tool name in params''
                 | Some name \<Rightarrow>
                     Inr \<lparr>tp_Name = name,
                          tp_Arguments = (case get_object params ''arguments'' of Some a \<Rightarrow> a | None \<Rightarrow> [])\<rparr>)))"

definition ParseResourceRead :: "JSONRPCRequest \<Rightarrow> string + ResourceReadParams" where
  "ParseResourceRead req =
     (if jr_Method req \<noteq> MethodResourcesRead then Inl (''not a resources/read request: '' @ jr_Method req)
      else (case jr_Params req of
              None \<Rightarrow> Inl ''missing params in resources/read request''
            | Some params \<Rightarrow>
                (case get_string params ''uri'' of
                   None \<Rightarrow> Inl ''missing or invalid URI in params''
                 | Some uri \<Rightarrow> Inr \<lparr>rr_URI = uri\<rparr>)))"

definition IsToolCall :: "JSONRPCRequest \<Rightarrow> bool" where
  "IsToolCall req \<longleftrightarrow> jr_Method req = MethodToolsCall"

definition IsResourceRead :: "JSONRPCRequest \<Rightarrow> bool" where
  "IsResourceRead req \<longleftrightarrow> jr_Method req = MethodResourcesRead"

definition IsSensitiveMethod :: "string \<Rightarrow> bool" where
  "IsSensitiveMethod m \<longleftrightarrow> m = MethodToolsCall \<or> m = MethodResourcesRead"

definition IsNotification :: "JSONRPCRequest \<Rightarrow> bool" where
  "IsNotification req \<longleftrightarrow> jr_ID req = None"

section \<open>Policies\<close>

record PolicyResult =
  pr_Action :: Action
  pr_Reason :: string
  pr_Command :: string
  pr_RulePath :: string

record ServerPolicy =
  mp_BlockTools :: "string list"
  mp_RequireApproval :: "string list"
  mp_AllowTools :: "string list"
  mp_BlockResources :: "string list"

record PolicyEngine =
  pe_defaultPolicy :: ServerPolicy
  pe_serverPolicies :: "(string \<times> ServerPolicy) list"
  pe_cmdInterceptor :: "RiskPolicyConfig option"

definition NewPolicyEngine ::
  "ServerPolicy \<Rightarrow> (string \<times> ServerPolicy) list option \<Rightarrow> RiskPolicyConfig option \<Rightarrow> PolicyEngine" where
  "NewPolicyEngine defaultPolicy serverPolicies cmdInterceptor =
     \<lparr>pe_defaultPolicy = defaultPolicy,
      pe_serverPolicies = (case serverPolicies of None \<Rightarrow> [] | Some m \<Rightarrow> m),
      pe_cmdInterceptor = cmdInterceptor\<rparr>"

definition pattern_matches :: "string \<Rightarrow> string \<Rightarrow> bool" where
  "pattern_matches nameLower p \<longleftrightarrow> ToLower p = nameLower \<or>
     (HasSuffix p ''*'' \<and> HasPrefix nameLower (ToLower (TrimSuffix p ''*'')))"

definition matchesTool :: "string \<Rightarrow> string list \<Rightarrow> bool" where
  "matchesTool name patterns \<longleftrightarrow> list_ex (pattern_matches (ToLower name)) patterns"

definition matchesResource :: "string \<Rightarrow> string \<Rightarrow> bool" where
  "matchesResource uri pattern \<longleftrightarrow>
     (let uriLower = ToLower uri; patternLower = ToLower pattern in
      if uriLower = patternLower then True
      else if HasSuffix pattern ''*'' then HasPrefix uriLower (TrimSuffix patternLower ''*'')
      else False)"

definition mergePolicy :: "ServerPolicy \<Rightarrow> ServerPolicy \<Rightarrow> ServerPolicy" where
  "mergePolicy base override =
     \<lparr>mp_BlockTools = mp_BlockTools base @ mp_BlockTools override,
      mp_RequireApproval = mp_RequireApproval base @ mp_RequireApproval override,
      mp_AllowTools = (if mp_AllowTools override = [] then mp_AllowTools base else mp_AllowTools override),
      mp_BlockResources = mp_BlockResources base @ mp_BlockResources override\<rparr>"

definition getPolicyForServer :: "PolicyEngine \<Rightarrow> string \<Rightarrow> ServerPolicy" where
  "getPolicyForServer pe serverName =
     (case map_of (pe_serverPolicies pe) serverName of
        Some sp \<Rightarrow> mergePolicy (pe_defaultPolicy pe) sp
      | None \<Rightarrow> pe_defaultPolicy pe)"

definition isCommandTool :: "string \<Rightarrow> bool" where
  "isCommandTool name \<longleftrightarrow> ToLower name \<in> set execToolNames"

definition mcpCmdArgNames :: "string list" where
  "mcpCmdArgNames = [''command'', ''cmd'', ''script'', ''code'', ''input'']"

definition extractCommandFromArgs :: "gomap \<Rightarrow> string" where
  "extractCommandFromArgs args = (case first_string mcpCmdArgNames args of Some s \<Rightarrow> s | None \<Rightarrow> [])"

text \<open>The consultation of the command interceptor: a result unless it is skipped or allows.\<close>

definition command_result :: "PolicyEngine \<Rightarrow> ToolCallParams \<Rightarrow> PolicyResult option" where
  "command_result pe tc =
     (case pe_cmdInterceptor pe of
        None \<Rightarrow> None
      | Some risk \<Rightarrow>
          if \<not> isCommandTool (tp_Name tc) then None
          else
            (let cmdStr = extractCommandFromArgs (tp_Arguments tc) in
             if cmdStr = [] then None
             else
               (let result = snd (Check risk \<lparr>tc_Name = tp_Name tc, tc_Args = tp_Arguments tc, tc_Command = []\<rparr>) in
                if rs_Action result = ActionAllow then None
                else Some \<lparr>pr_Action = rs_Action result, pr_Reason = rs_Reason result,
                       pr_Command = rs_Command result,
                       pr_RulePath = ''mcp/command/'' @
                         (if rs_Action result = ActionPending then ''pending'' else ''block'') @ '':'' @ cmdStr\<rparr>)))"

definition CheckToolCall :: "PolicyEngine \<Rightarrow> ToolCallParams \<Rightarrow> string \<Rightarrow> PolicyResult" where
  "CheckToolCall pe tc serverName =
     (let policy = getPolicyForServer pe serverName; name = tp_Name tc in
      if matchesTool name (mp_BlockTools policy)
        then \<lparr>pr_Action = ActionBlock, pr_Reason = ''tool blocked by MCP policy: '' @ name, pr_Command = [],
              pr_RulePath = ''mcp/tool/block:'' @ name\<rparr>
      else if mp_AllowTools policy \<noteq> [] \<and> \<not> matchesTool name (mp_AllowTools policy)
        then \<lparr>pr_Action = ActionBlock, pr_Reason = ''tool not in MCP allow list: '' @ name, pr_Command = [],
              pr_RulePath = ''mcp/allow_list/reject:'' @ name\<rparr>
      else (case command_result pe tc of
              Some r \<Rightarrow> r
            | None \<Rightarrow>
                if matchesTool name (mp_RequireApproval policy)
                then \<lparr>pr_Action = ActionPending, pr_Reason = ''tool requires approval by MCP policy: '' @ name,
                      pr_Command = [], pr_RulePath = ''mcp/tool/require_approval:'' @ name\<rparr>
                else \<lparr>pr_Action = ActionAllow, pr_Reason = [], pr_Command = [],
                      pr_RulePath = ''mcp/tool/allow:'' @ name\<rparr>))"

definition CheckResourceRead :: "PolicyEngine \<Rightarrow> ResourceReadParams \<Rightarrow> string \<Rightarrow> PolicyResult" where
  "CheckResourceRead pe rr serverName =
     (if list_ex (matchesResource (rr_URI rr)) (mp_BlockResources (getPolicyForServer pe serverName))
      then \<lparr>pr_Action = ActionBlock, pr_Reason = ''resource blocked by MCP policy: '' @ rr_URI rr,
            pr_Command = [], pr_RulePath = ''mcp/resource/block:'' @ rr_URI rr\<rparr>
      else \<lparr>pr_Action = ActionAllow, pr_Reason = [], pr_Command = [],
            pr_RulePath = ''mcp/resource/allow:'' @ rr_URI rr\<rparr>)"

section \<open>Templates\<close>

definition empty_policy :: ServerPolicy where
  "empty_policy = \<lparr>mp_BlockTools = [], mp_RequireApproval = [], mp_AllowTools = [], mp_BlockResources = []\<rparr>"

definition PolicyTemplates :: "(string \<times> ServerPolicy) list" where
  "PolicyTemplates =
     [(''claude-code'', empty_policy\<lparr>mp_RequireApproval := [''Bash'', ''Write''],
         mp_BlockResources := [''file:///etc/passwd'', ''file:///etc/shadow'']\<rparr>),
      (''restrictive'', empty_policy\<lparr>mp_RequireApproval := [''*'']\<rparr>),
      (''permissive'', empty_policy)]"

definition ApplyTemplate :: "string \<Rightarrow> ServerPolicy \<Rightarrow> ServerPolicy" where
  "ApplyTemplate templateName override =
     (case map_of PolicyTemplates templateName of
        None \<Rightarrow> override
      | Some base \<Rightarrow> mergePolicy base override)"

section \<open>Facts\<close>

lemma matchesTool_append [simp]:
  "matchesTool name (ps @ qs) \<longleftrightarrow> matchesTool name ps \<or> matchesTool name qs"
  by (simp add: matchesTool_def)

lemma getPolicy_keeps:
  "matchesTool name (mp_BlockTools (pe_defaultPolicy pe)) \<Longrightarrow> matchesTool name (mp_BlockTools (getPolicyForServer pe s))"
  "matchesTool name (mp_RequireApproval (pe_defaultPolicy pe)) \<Longrightarrow>
     matchesTool name (mp_RequireApproval (getPolicyForServer pe s))"
  "r \<in> set (mp_BlockResources (pe_defaultPolicy pe)) \<Longrightarrow> r \<in> set (mp_BlockResources (getPolicyForServer pe s))"
  by (auto simp: getPolicyForServer_def mergePolicy_def split: option.splits)

lemma command_result_action: "command_result pe tc = Some r \<Longrightarrow> pr_Action r \<noteq> ActionAllow"
  by (auto simp: command_result_def Let_def split: option.splits if_splits)

lemma matchesTool_case: "matchesTool (ToLower name) ps = matchesTool name ps"
  by (simp add: matchesTool_def)

section \<open>Properties\<close>


definition sample_engine :: PolicyEngine where
  "sample_engine = NewPolicyEngine (empty_policy\<lparr>mp_BlockTools := [''fs_*'']\<rparr>)
     (Some [(''s'', empty_policy\<lparr>mp_AllowTools := [''fs_read'']\<rparr>)]) (Some (rx_policy [''rm''] []))"

definition sample_call :: "string \<Rightarrow> gomap \<Rightarrow> ToolCallParams" where
  "sample_call name args = \<lparr>tp_Name = name, tp_Arguments = args\<rparr>"


text \<open>
  A server's own policy cannot lift the default policy's blocks: a tool that a default block
  pattern matches is blocked on every server, a tool that needs approval by default is never simply
  allowed, and a resource that a default pattern blocks is blocked on every server.
\<close>

theorem default_policy_kept:
  "(matchesTool (tp_Name tc) (mp_BlockTools (pe_defaultPolicy pe)) \<longrightarrow>
      pr_Action (CheckToolCall pe tc serverName) = ActionBlock) \<and>
   (matchesTool (tp_Name tc) (mp_RequireApproval (pe_defaultPolicy pe)) \<longrightarrow>
      pr_Action (CheckToolCall pe tc serverName) \<noteq> ActionAllow) \<and>
   (list_ex (matchesResource (rr_URI rr)) (mp_BlockResources (pe_defaultPolicy pe)) \<longrightarrow>
      pr_Action (CheckResourceRead pe rr serverName) = ActionBlock)"
  using getPolicy_keeps [of _ pe serverName] command_result_action [of pe tc]
  by (auto simp: CheckToolCall_def CheckResourceRead_def Let_def list_ex_iff split: option.splits)

theorem default_policy_kept_witness:
  "pr_Action (CheckToolCall sample_engine (sample_call ''FS_READ'' []) ''s'') = ActionBlock"
proof -
  have "matchesTool (tp_Name (sample_call ''FS_READ'' [])) (mp_BlockTools (pe_defaultPolicy sample_engine))" by code_simp
  then show ?thesis using default_policy_kept [of "sample_call ''FS_READ'' []" sample_engine "''s''"] by blast
qed

text \<open>
  A command in the argument \<open>CommandLine\<close> escapes the interceptor on the MCP path: the decision on
  such a call does not depend on the command policy at all, although the interceptor by itself reads
  that argument and blocks the command.
\<close>

theorem CommandLine_not_checked:
  "CheckToolCall (pe\<lparr>pe_cmdInterceptor := Some risk\<rparr>) (sample_call name [(''CommandLine'', JStr cmd)]) s
     = CheckToolCall (pe\<lparr>pe_cmdInterceptor := None\<rparr>) (sample_call name [(''CommandLine'', JStr cmd)]) s \<and>
   extractCommand \<lparr>tc_Name = ''bash'', tc_Args = [(''CommandLine'', JStr cmd)], tc_Command = []\<rparr> = cmd"
proof -
  have "extractCommandFromArgs [(''CommandLine'', JStr cmd)] = []"
    by (simp add: extractCommandFromArgs_def mcpCmdArgNames_def first_string_def get_string_def)
  moreover have "extractCommand \<lparr>tc_Name = ''bash'', tc_Args = [(''CommandLine'', JStr cmd)], tc_Command = []\<rparr> = cmd"
    by (simp add: extractCommand_def execToolNames_def cmdArgNames_def first_string_def get_string_def)
  moreover have "getPolicyForServer (pe\<lparr>pe_cmdInterceptor := x\<rparr>) s = getPolicyForServer pe s" for x
    by (simp add: getPolicyForServer_def split: option.split)
  moreover have "command_result (pe\<lparr>pe_cmdInterceptor := x\<rparr>) (sample_call name [(''CommandLine'', JStr cmd)]) = None"
    for x using calculation(1) by (simp add: command_result_def sample_call_def split: option.split)
  ultimately show ?thesis by (simp add: CheckToolCall_def Let_def)
qed

end
