(* ===== verification/Mcp.thy ===== *)
theory Mcp
  imports Mcp_Policy Approval Notifier Audit_Chain Http
begin

text \<open>
  The MCP handler (internal/mcp/handler.go) and the MCP proxy (internal/mcp/proxy.go): one request from
  its body to the response, the audit and telemetry events, the counters and the calls upstream.

  Parameters, in the record \<open>env\<close>: decoding a message, the error of \<^verbatim>\<open>c.JSON\<close> (none
  when the response could be encoded, which for these responses it can), the result of
  \<^verbatim>\<open>c.Next()\<close> (an error when no further handler matches the route), what the wait for an
  approval decides, the identifier of a new pending command, the clock, and the upstream's answer.
\<close>

section \<open>State\<close>

record ApprovalHook =
  ah_ID :: string
  ah_ApproverID :: string
  ah_ApproverType :: string
  ah_Source :: string

record TelemetryHook =
  th_ActionType :: string
  th_ActionTarget :: string
  th_Decision :: string
  th_RulePath :: string
  th_EnforcementMode :: string
  th_SpanID :: string
  th_ParentSpanID :: string
  th_Approval :: "ApprovalHook option"

text \<open>The counters of the metrics package that this component adds to.\<close>

record counters =
  MCPToolCallsTotal :: nat
  MCPToolCallsAllowed :: nat
  MCPToolCallsBlocked :: nat
  MCPToolCallsApproved :: nat
  MCPResourceReads :: nat

datatype body = Rpc JSONRPCResponse | Raw string

text \<open>What one request does to the outside; \<open>cx_response\<close> is the response as last set.\<close>

record ctx =
  cx_response :: "(nat \<times> body) option"
  cx_audit :: "Event list"
  cx_hooks :: "TelemetryHook list"
  cx_counters :: counters
  cx_queue :: Queue
  cx_notified :: "PendingCommand list"
  cx_upstream :: "(string \<times> string) list"   \<comment> \<open>the bodies posted, with their URLs\<close>

record env =
  en_decode :: "string \<Rightarrow> string + JSONRPCRequest"
  en_json_error :: "string option"
  en_next_error :: "string option"
  en_await :: "string \<Rightarrow> Queue \<Rightarrow> Decision \<times> Queue"
  en_fresh_id :: string
  en_store_io :: "string option"
  en_now :: int
  en_post :: "string \<Rightarrow> string \<Rightarrow> string + nat \<times> string"

record Handler =
  hd_policy :: PolicyEngine
  hd_notifies :: bool
  hd_onEvent :: bool

definition NewHandler :: "PolicyEngine \<Rightarrow> bool \<Rightarrow> bool \<Rightarrow> Handler" where
  "NewHandler policy notifies onEvent = \<lparr>hd_policy = policy, hd_notifies = notifies, hd_onEvent = onEvent\<rparr>"

section \<open>Effects\<close>

definition log_event :: "Event \<Rightarrow> ctx \<Rightarrow> ctx" where
  "log_event e c = c\<lparr>cx_audit := cx_audit c @ [e]\<rparr>"

definition emit_hook :: "Handler \<Rightarrow> TelemetryHook \<Rightarrow> ctx \<Rightarrow> ctx" where
  "emit_hook h t c = (if hd_onEvent h then c\<lparr>cx_hooks := cx_hooks c @ [t]\<rparr> else c)"

text \<open>\<^verbatim>\<open>c.Status(n).JSON(...)\<close>: sets the response and gives the error of the encoding.\<close>

definition send_json :: "env \<Rightarrow> nat \<Rightarrow> JSONRPCResponse \<Rightarrow> ctx \<Rightarrow> string option \<times> ctx" where
  "send_json en status resp c = (en_json_error en, c\<lparr>cx_response := Some (status, Rpc resp)\<rparr>)"

definition notify_pending :: "Handler \<Rightarrow> PendingCommand \<Rightarrow> ctx \<Rightarrow> ctx" where
  "notify_pending h pc c = (if hd_notifies h then c\<lparr>cx_notified := cx_notified c @ [pc]\<rparr> else c)"

definition count_blocked :: "ctx \<Rightarrow> ctx" where
  "count_blocked c =
     c\<lparr>cx_counters := (cx_counters c)\<lparr>MCPToolCallsBlocked := MCPToolCallsBlocked (cx_counters c) + 1\<rparr>\<rparr>"

definition count_approved :: "ctx \<Rightarrow> ctx" where
  "count_approved c =
     c\<lparr>cx_counters := (cx_counters c)\<lparr>MCPToolCallsApproved := MCPToolCallsApproved (cx_counters c) + 1\<rparr>\<rparr>"

definition hook :: "string \<Rightarrow> string \<Rightarrow> string \<Rightarrow> string \<Rightarrow> TelemetryHook" where
  "hook t target decision rulePath =
     \<lparr>th_ActionType = t, th_ActionTarget = target, th_Decision = decision, th_RulePath = rulePath,
      th_EnforcementMode = ''enforce'', th_SpanID = [], th_ParentSpanID = [], th_Approval = None\<rparr>"

definition approval_hook :: "string \<Rightarrow> ApprovalHook option" where
  "approval_hook pid = Some \<lparr>ah_ID = pid, ah_ApproverID = [], ah_ApproverType = [], ah_Source = []\<rparr>"

definition mcp_event :: "EventType \<Rightarrow> string \<Rightarrow> string \<Rightarrow> Event" where
  "mcp_event t correlationID serverName =
     (blank_event t)\<lparr>ev_CorrelationID := correlationID, ev_Details := [(''mcp_server'', serverName)]\<rparr>"

section \<open>The handler\<close>

definition decision_word :: "Action \<Rightarrow> string" where
  "decision_word a = (case a of ActionBlock \<Rightarrow> ''deny'' | ActionPending \<Rightarrow> ''pending'' | ActionAllow \<Rightarrow> ''allow'')"

definition handleApproval ::
  "env \<Rightarrow> Handler \<Rightarrow> JSONRPCRequest \<Rightarrow> ToolCallParams \<Rightarrow> PolicyResult \<Rightarrow> string \<Rightarrow> string \<Rightarrow> ctx \<Rightarrow>
   string option \<times> ctx" where
  "handleApproval en h req tc result correlationID serverName c =
     (let cmdStr = (if pr_Command result = [] then tp_Name tc else pr_Command result);
          (i, q) = Queue_Add (en_store_io en) (en_fresh_id en) (en_now en) cmdStr (tp_Name tc)
                     (pr_Reason result) (Some (JObj (tp_Arguments tc))) (cx_queue c);
          pc = q_heap q ! i;
          ev = (\<lambda>t reason. (mcp_event t correlationID serverName)\<lparr>ev_CommandID := pc_ID pc,
                  ev_ToolName := tp_Name tc, ev_Command := cmdStr, ev_Reason := reason\<rparr>);
          c1 = log_event (ev EventMCPToolPending (pr_Reason result)) (c\<lparr>cx_queue := q\<rparr>);
          c2 = notify_pending h pc c1;
          (d, q') = en_await en (pc_ID pc) (cx_queue c2);
          c3 = c2\<lparr>cx_queue := q'\<rparr>;
          emit = (\<lambda>decision. emit_hook h
                   ((hook ''mcp_tool_call'' (tp_Name tc) decision (pr_RulePath result))
                      \<lparr>th_Approval := approval_hook (pc_ID pc)\<rparr>))
      in case d of
           DecisionApproved \<Rightarrow>
             (en_next_error en,
              emit ''allow'' (log_event (ev EventMCPToolApprove []) (count_approved c3)))
         | DecisionDenied \<Rightarrow>
             send_json en 403 (NewErrorResponse (jr_ID req) ErrCodeServerError ''tool call denied by approver''
                 (Some [(''tool'', tp_Name tc), (''id'', pc_ID pc), (''action'', ''denied'')]))
               (emit ''deny'' (log_event (ev EventMCPToolDeny []) (count_blocked c3)))
         | _ \<Rightarrow>
             send_json en 408 (NewErrorResponse (jr_ID req) ErrCodeServerError
                 (''tool call blocked: approval timed out for '' @ tp_Name tc)
                 (Some [(''tool'', tp_Name tc), (''id'', pc_ID pc), (''action'', ''timeout'')]))
               (emit ''deny'' (log_event (ev EventMCPToolDeny ''approval timed out'') (count_blocked c3))))"

definition handleToolsCall ::
  "env \<Rightarrow> Handler \<Rightarrow> JSONRPCRequest \<Rightarrow> string \<Rightarrow> string \<Rightarrow> ctx \<Rightarrow> string option \<times> ctx" where
  "handleToolsCall en h req correlationID serverName c =
     (case ParseToolCall req of
        Inl e \<Rightarrow> send_json en 400 (NewErrorResponse (jr_ID req) ErrCodeInvalidParams e None) c
      | Inr tc \<Rightarrow>
          (let c1 = c\<lparr>cx_counters := (cx_counters c)\<lparr>MCPToolCallsTotal := MCPToolCallsTotal (cx_counters c) + 1\<rparr>\<rparr>;
               result = CheckToolCall (hd_policy h) tc serverName;
               c2 = emit_hook h (hook ''mcp_tool_call'' (tp_Name tc) (decision_word (pr_Action result))
                      (pr_RulePath result)) c1
           in case pr_Action result of
                ActionBlock \<Rightarrow>
                  send_json en 403 (NewErrorResponse (jr_ID req) ErrCodeServerError (pr_Reason result)
                      (Some [(''tool'', tp_Name tc), (''action'', ''blocked'')]))
                    (log_event ((mcp_event EventMCPToolBlock correlationID serverName)
                        \<lparr>ev_ToolName := tp_Name tc, ev_Command := pr_Command result, ev_Reason := pr_Reason result\<rparr>)
                      (count_blocked c2))
              | ActionPending \<Rightarrow> handleApproval en h req tc result correlationID serverName c2
              | ActionAllow \<Rightarrow>
                  (None, log_event ((mcp_event EventMCPToolCall correlationID serverName)\<lparr>ev_ToolName := tp_Name tc\<rparr>)
                    (c2\<lparr>cx_counters := (cx_counters c2)\<lparr>MCPToolCallsAllowed := MCPToolCallsAllowed (cx_counters c2) + 1\<rparr>\<rparr>))))"

definition handleResourcesRead ::
  "env \<Rightarrow> Handler \<Rightarrow> JSONRPCRequest \<Rightarrow> string \<Rightarrow> string \<Rightarrow> ctx \<Rightarrow> string option \<times> ctx" where
  "handleResourcesRead en h req correlationID serverName c =
     (case ParseResourceRead req of
        Inl e \<Rightarrow> send_json en 400 (NewErrorResponse (jr_ID req) ErrCodeInvalidParams e None) c
      | Inr rr \<Rightarrow>
          (let c1 = c\<lparr>cx_counters := (cx_counters c)\<lparr>MCPResourceReads := MCPResourceReads (cx_counters c) + 1\<rparr>\<rparr>;
               result = CheckResourceRead (hd_policy h) rr serverName;
               c2 = emit_hook h (hook ''mcp_resource_read'' (rr_URI rr)
                      (if pr_Action result = ActionBlock then ''deny'' else ''allow'') (pr_RulePath result)) c1;
               details = [(''mcp_server'', serverName), (''uri'', rr_URI rr)]
           in if pr_Action result = ActionBlock
              then send_json en 403 (NewErrorResponse (jr_ID req) ErrCodeServerError (pr_Reason result)
                       (Some [(''uri'', rr_URI rr), (''action'', ''blocked'')]))
                     (log_event ((blank_event EventMCPResourceBlock)\<lparr>ev_CorrelationID := correlationID,
                         ev_Reason := pr_Reason result, ev_Details := details\<rparr>) c2)
              else (en_next_error en,
                    log_event ((blank_event EventMCPResourceRead)\<lparr>ev_CorrelationID := correlationID,
                       ev_Details := details\<rparr>) c2)))"

text \<open>\<^verbatim>\<open>c.Get("X-MCP-Server", "default")\<close>\<close>

definition server_of :: "headers \<Rightarrow> string" where
  "server_of hs = (if header_get hs ''X-MCP-Server'' = [] then ''default'' else header_get hs ''X-MCP-Server'')"

definition HandleJSONRPC :: "env \<Rightarrow> Handler \<Rightarrow> Request \<Rightarrow> ctx \<Rightarrow> string option \<times> ctx" where
  "HandleJSONRPC en h r c =
     (if rq_Body r = [] then send_json en 400 (NewErrorResponse None ErrCodeParseError ''empty request body'' None) c
      else (case ParseMessage (en_decode en) (rq_Body r) of
              Inl e \<Rightarrow> send_json en 400 (NewErrorResponse None ErrCodeParseError e None) c
            | Inr req \<Rightarrow>
                (let correlationID = header_get (rq_Headers r) ''X-Correlation-ID'';
                     serverName = server_of (rq_Headers r) in
                 if \<not> IsSensitiveMethod (jr_Method req) then (None, c)
                 else if jr_Method req = MethodToolsCall then handleToolsCall en h req correlationID serverName c
                 else if jr_Method req = MethodResourcesRead
                   then handleResourcesRead en h req correlationID serverName c
                 else (None, c))))"

definition ForwardToServer :: "env \<Rightarrow> string \<Rightarrow> Request \<Rightarrow> ctx \<Rightarrow> string option \<times> ctx" where
  "ForwardToServer en upstreamURL r c =
     (let c1 = c\<lparr>cx_upstream := cx_upstream c @ [(upstreamURL, rq_Body r)]\<rparr> in
      case en_post en upstreamURL (rq_Body r) of
        Inl e \<Rightarrow> send_json en 502 (NewErrorResponse None ErrCodeInternal ''upstream MCP server error'' None) c1
      | Inr (status, answer) \<Rightarrow> (None, c1\<lparr>cx_response := Some (status, Raw answer)\<rparr>))"

section \<open>The proxy\<close>

record ServerConfig =
  sv_Name :: string
  sv_URL :: string
  sv_Transport :: string
  sv_Command :: string

record Proxy =
  px_handler :: Handler
  px_upstreams :: "(string \<times> ServerConfig) list"

definition register_upstream :: "ServerConfig \<Rightarrow> (string \<times> ServerConfig) list \<Rightarrow> (string \<times> ServerConfig) list" where
  "register_upstream u m =
     AList.update (sv_Name u) (u\<lparr>sv_Transport := default_to ''http'' (sv_Transport u)\<rparr>) m"

definition NewProxy :: "Handler \<Rightarrow> ServerConfig list \<Rightarrow> Proxy" where
  "NewProxy h upstreams = \<lparr>px_handler = h, px_upstreams = fold register_upstream upstreams []\<rparr>"

definition forward_upstream :: "env \<Rightarrow> ServerConfig \<Rightarrow> Request \<Rightarrow> ctx \<Rightarrow> string option \<times> ctx" where
  "forward_upstream en u r c =
     (if sv_Transport u = ''stdio''
      then send_json en 501 (NewErrorResponse None ErrCodeServerError
             ''stdio transport not yet implemented; use http transport'' None) c
      else ForwardToServer en (sv_URL u) r c)"

definition proxyToServer :: "env \<Rightarrow> Proxy \<Rightarrow> string \<Rightarrow> Request \<Rightarrow> ctx \<Rightarrow> string option \<times> ctx" where
  "proxyToServer en p serverName r c =
     (let r1 = r\<lparr>rq_Headers := header_set ''X-MCP-Server'' serverName (rq_Headers r)\<rparr> in
      case HandleJSONRPC en (px_handler p) r1 c of
        (Some e, c1) \<Rightarrow> (Some e, c1)
      | (None, c1) \<Rightarrow>
          (case map_of (px_upstreams p) serverName of
             None \<Rightarrow> send_json en 404 (NewErrorResponse None ErrCodeServerError
                       (''unknown MCP server: '' @ serverName) None) c1
           | Some u \<Rightarrow> forward_upstream en u r1 c1))"

text \<open>
  The upstream of a request to the default route: the named one, else \<open>default\<close>, else whichever the
  iteration over the map gives first, which is \<open>any\<close>.
\<close>

definition default_upstream :: "ServerConfig option \<Rightarrow> Proxy \<Rightarrow> string \<Rightarrow> ServerConfig option" where
  "default_upstream any p serverName =
     (case map_of (px_upstreams p) serverName of
        Some u \<Rightarrow> Some u
      | None \<Rightarrow> (case map_of (px_upstreams p) ''default'' of
                    Some u \<Rightarrow> Some u
                  | None \<Rightarrow> if px_upstreams p \<noteq> [] then any else None))"

definition proxyToDefault :: "ServerConfig option \<Rightarrow> env \<Rightarrow> Proxy \<Rightarrow> Request \<Rightarrow> ctx \<Rightarrow> string option \<times> ctx" where
  "proxyToDefault any en p r c =
     (case HandleJSONRPC en (px_handler p) r c of
        (Some e, c1) \<Rightarrow> (Some e, c1)
      | (None, c1) \<Rightarrow>
          (case default_upstream any p (server_of (rq_Headers r)) of
             None \<Rightarrow> send_json en 502 (NewErrorResponse None ErrCodeServerError
                       ''no upstream MCP server configured'' None) c1
           | Some u \<Rightarrow> forward_upstream en u r c1))"

section \<open>Facts\<close>

lemma send_json_frame [simp]:
  "fst (send_json en st resp c) = en_json_error en" "cx_upstream (snd (send_json en st resp c)) = cx_upstream c"
  "cx_audit (snd (send_json en st resp c)) = cx_audit c" "cx_counters (snd (send_json en st resp c)) = cx_counters c"
  by (simp_all add: send_json_def)

lemma log_event_frame [simp]:
  "cx_upstream (log_event e c) = cx_upstream c" "cx_audit (log_event e c) = cx_audit c @ [e]"
  "cx_counters (log_event e c) = cx_counters c" "cx_queue (log_event e c) = cx_queue c"
  by (simp_all add: log_event_def)

lemma emit_hook_frame [simp]:
  "cx_upstream (emit_hook h t c) = cx_upstream c" "cx_audit (emit_hook h t c) = cx_audit c"
  "cx_counters (emit_hook h t c) = cx_counters c" "cx_queue (emit_hook h t c) = cx_queue c"
  by (simp_all add: emit_hook_def)

lemma notify_pending_frame [simp]:
  "cx_upstream (notify_pending h pc c) = cx_upstream c" "cx_counters (notify_pending h pc c) = cx_counters c"
  "cx_queue (notify_pending h pc c) = cx_queue c"
  by (simp_all add: notify_pending_def)

lemma count_frame [simp]:
  "cx_upstream (count_blocked c) = cx_upstream c" "cx_upstream (count_approved c) = cx_upstream c"
  "cx_counters (count_blocked c) = (cx_counters c)\<lparr>MCPToolCallsBlocked := MCPToolCallsBlocked (cx_counters c) + 1\<rparr>"
  "cx_counters (count_approved c) = (cx_counters c)\<lparr>MCPToolCallsApproved := MCPToolCallsApproved (cx_counters c) + 1\<rparr>"
  by (simp_all add: count_blocked_def count_approved_def)

definition calls_balanced :: "ctx \<Rightarrow> bool" where
  "calls_balanced c \<longleftrightarrow> MCPToolCallsTotal (cx_counters c) =
     MCPToolCallsAllowed (cx_counters c) + MCPToolCallsBlocked (cx_counters c) + MCPToolCallsApproved (cx_counters c)"

text \<open>The pending command an approval waits for, and what the wait decides.\<close>

definition awaited :: "env \<Rightarrow> ToolCallParams \<Rightarrow> PolicyResult \<Rightarrow> Queue \<Rightarrow> Decision" where
  "awaited en tc result q0 =
     (let (i, q) = Queue_Add (en_store_io en) (en_fresh_id en) (en_now en)
            (if pr_Command result = [] then tp_Name tc else pr_Command result) (tp_Name tc)
            (pr_Reason result) (Some (JObj (tp_Arguments tc))) q0
      in fst (en_await en (pc_ID (q_heap q ! i)) q))"

lemma handleApproval_cases:
  obtains (approved) c' where "awaited en tc result (cx_queue c) = DecisionApproved"
      "handleApproval en h req tc result cid s c = (en_next_error en, c')" "cx_upstream c' = cx_upstream c"
      "cx_counters c' = (cx_counters c)\<lparr>MCPToolCallsApproved := MCPToolCallsApproved (cx_counters c) + 1\<rparr>"
  | (refused) c' where "awaited en tc result (cx_queue c) \<noteq> DecisionApproved"
      "handleApproval en h req tc result cid s c = (en_json_error en, c')" "cx_upstream c' = cx_upstream c"
      "cx_counters c' = (cx_counters c)\<lparr>MCPToolCallsBlocked := MCPToolCallsBlocked (cx_counters c) + 1\<rparr>"
proof -
  let ?cmd = "if pr_Command result = [] then tp_Name tc else pr_Command result"
  obtain i q where q: "Queue_Add (en_store_io en) (en_fresh_id en) (en_now en) ?cmd (tp_Name tc)
      (pr_Reason result) (Some (JObj (tp_Arguments tc))) (cx_queue c) = (i, q)" by fastforce
  obtain d q' where d: "en_await en (pc_ID (q_heap q ! i)) q = (d, q')" by fastforce
  have aw: "awaited en tc result (cx_queue c) = d" by (simp add: awaited_def q d)
  obtain e c' where r: "handleApproval en h req tc result cid s c = (e, c')" by fastforce
  show thesis
  proof (cases "d = DecisionApproved")
    case True
    with r q d have "e = en_next_error en" "cx_upstream c' = cx_upstream c"
      "cx_counters c' = (cx_counters c)\<lparr>MCPToolCallsApproved := MCPToolCallsApproved (cx_counters c) + 1\<rparr>"
      by (auto simp: handleApproval_def Let_def)
    with True aw r show thesis by (intro approved) simp_all
  next
    case False
    with r q d have "e = en_json_error en" "cx_upstream c' = cx_upstream c"
      "cx_counters c' = (cx_counters c)\<lparr>MCPToolCallsBlocked := MCPToolCallsBlocked (cx_counters c) + 1\<rparr>"
      by (cases d; auto simp: handleApproval_def Let_def send_json_def)+
    with False aw r show thesis by (intro refused) simp_all
  qed
qed

text \<open>A tool call as the handler receives it.\<close>

definition tool_call_request :: "env \<Rightarrow> Request \<Rightarrow> JSONRPCRequest \<Rightarrow> ToolCallParams \<Rightarrow> bool" where
  "tool_call_request en r req tc \<longleftrightarrow> rq_Body r \<noteq> [] \<and> ParseMessage (en_decode en) (rq_Body r) = Inr req \<and>
     ParseToolCall req = Inr tc"

lemma HandleJSONRPC_tool:
  "tool_call_request en r req tc \<Longrightarrow> HandleJSONRPC en h r c =
     handleToolsCall en h req (header_get (rq_Headers r) ''X-Correlation-ID'') (server_of (rq_Headers r)) c"
  by (auto simp: tool_call_request_def HandleJSONRPC_def IsSensitiveMethod_def ParseToolCall_def Let_def
      split: if_splits)

lemma server_of_set [simp]: "s \<noteq> [] \<Longrightarrow> server_of (header_set ''X-MCP-Server'' s hs) = s"
  by (simp add: server_of_def)

lemma tool_call_request_header [simp]:
  "tool_call_request en (r\<lparr>rq_Headers := hs\<rparr>) req tc = tool_call_request en r req tc"
  by (simp add: tool_call_request_def)

text \<open>A refused tool call: blocked, or held and not approved.\<close>

definition refused_call :: "env \<Rightarrow> Handler \<Rightarrow> ToolCallParams \<Rightarrow> string \<Rightarrow> ctx \<Rightarrow> bool" where
  "refused_call en h tc s c \<longleftrightarrow>
     (let result = CheckToolCall (hd_policy h) tc s in
      pr_Action result = ActionBlock \<or>
      (pr_Action result = ActionPending \<and> awaited en tc result (cx_queue c) \<noteq> DecisionApproved))"

lemma awaited_queue: "cx_queue c = cx_queue c' \<Longrightarrow> awaited en tc result (cx_queue c) = awaited en tc result (cx_queue c')"
  by simp

lemma handleToolsCall_refused:
  assumes "ParseToolCall req = Inr tc" "refused_call en h tc s c"
  obtains c' where "handleToolsCall en h req cid s c = (en_json_error en, c')" "cx_upstream c' = cx_upstream c"
proof -
  let ?result = "CheckToolCall (hd_policy h) tc s"
  obtain e c' where r: "handleToolsCall en h req cid s c = (e, c')" by fastforce
  have "e = en_json_error en \<and> cx_upstream c' = cx_upstream c"
  proof (cases "pr_Action ?result")
    case ActionBlock
    with r assms(1) show ?thesis by (auto simp: handleToolsCall_def Let_def send_json_def)
  next
    case ActionPending
    let ?c = "emit_hook h (hook ''mcp_tool_call'' (tp_Name tc) (decision_word ActionPending) (pr_RulePath ?result))
       (c\<lparr>cx_counters := (cx_counters c)\<lparr>MCPToolCallsTotal := MCPToolCallsTotal (cx_counters c) + 1\<rparr>\<rparr>)"
    from ActionPending r assms(1) have "handleApproval en h req tc ?result cid s ?c = (e, c')"
      by (simp add: handleToolsCall_def Let_def)
    moreover have "awaited en tc ?result (cx_queue ?c) \<noteq> DecisionApproved"
      using assms(2) ActionPending by (simp add: refused_call_def Let_def)
    ultimately show ?thesis
      by (cases rule: handleApproval_cases [of en tc ?result ?c h req cid s]) auto
  qed (use assms(2) in \<open>simp add: refused_call_def Let_def\<close>)
  with r that [of c'] show thesis by simp
qed

section \<open>Properties\<close>

text \<open>
  C8. A refused tool call is forwarded all the same: when policy blocks a call, or it is held and then
  denied or times out, the handler sets its error response and returns nil, and the proxy goes on to
  post the request to the upstream server, whose answer replaces the error.
\<close>

theorem refused_call_forwarded:
  assumes "tool_call_request en r req tc" "s \<noteq> []" "refused_call en (px_handler p) tc s c"
    and "en_json_error en = None" "map_of (px_upstreams p) s = Some u" "sv_Transport u \<noteq> ''stdio''"
  shows "cx_upstream (snd (proxyToServer en p s r c)) = cx_upstream c @ [(sv_URL u, rq_Body r)] \<and>
    (\<forall>status answer. en_post en (sv_URL u) (rq_Body r) = Inr (status, answer) \<longrightarrow>
       proxyToServer en p s r c = (None, (snd (proxyToServer en p s r c))\<lparr>cx_response := Some (status, Raw answer)\<rparr>))"
proof -
  have "ParseToolCall req = Inr tc" using assms(1) by (simp add: tool_call_request_def)
  from handleToolsCall_refused [OF this assms(3)] obtain c1 where
    "handleToolsCall en (px_handler p) req (header_get (header_set ''X-MCP-Server'' s (rq_Headers r)) ''X-Correlation-ID'')
       s c = (en_json_error en, c1)" "cx_upstream c1 = cx_upstream c" by blast
  with assms(1,2,4,5) have "proxyToServer en p s r c =
      forward_upstream en u (r\<lparr>rq_Headers := header_set ''X-MCP-Server'' s (rq_Headers r)\<rparr>) c1"
    and "cx_upstream c1 = cx_upstream c"
    by (simp_all add: proxyToServer_def HandleJSONRPC_tool Let_def)
  then show ?thesis using assms(6)
    by (auto simp: forward_upstream_def ForwardToServer_def Let_def send_json_def split: sum.splits)
qed

definition sample_env :: "Decision \<Rightarrow> env" where
  "sample_env d = \<lparr>en_decode = (\<lambda>b. Inr \<lparr>jr_JSONRPC = ''2.0'', jr_ID = Some (JNum ''1''), jr_Method = ''tools/call'',
       jr_Params = Some [(''name'', JStr ''fs_write''), (''arguments'', JObj [])]\<rparr>),
     en_json_error = None, en_next_error = Some ''Not Found'', en_await = (\<lambda>_ q. (d, q)), en_fresh_id = ''id'',
     en_store_io = None, en_now = 0, en_post = (\<lambda>_ _. Inr (200, ''ok''))\<rparr>"

definition sample_proxy :: "ServerPolicy \<Rightarrow> Proxy" where
  "sample_proxy pol = NewProxy (NewHandler (NewPolicyEngine pol None None) False True)
     [\<lparr>sv_Name = ''s'', sv_URL = ''http://s'', sv_Transport = [], sv_Command = []\<rparr>]"

definition start_ctx :: ctx where
  "start_ctx = \<lparr>cx_response = None, cx_audit = [], cx_hooks = [], cx_counters = \<lparr>MCPToolCallsTotal = 0,
     MCPToolCallsAllowed = 0, MCPToolCallsBlocked = 0, MCPToolCallsApproved = 0, MCPResourceReads = 0\<rparr>,
     cx_queue = NewQueue 60, cx_notified = [], cx_upstream = []\<rparr>"

definition call_request :: Request where
  "call_request = \<lparr>rq_Method = ''POST'', rq_Host = [], rq_Path = ''/mcp/s'', rq_Query = [], rq_IP = [],
     rq_Headers = [], rq_Body = ''{}''\<rparr>"

definition sample_rpc :: JSONRPCRequest where
  "sample_rpc = \<lparr>jr_JSONRPC = ''2.0'', jr_ID = Some (JNum ''1''), jr_Method = ''tools/call'',
     jr_Params = Some [(''name'', JStr ''fs_write''), (''arguments'', JObj [])]\<rparr>"

theorem refused_call_forwarded_witness:
  "let p = sample_proxy (empty_policy\<lparr>mp_BlockTools := [''fs_*'']\<rparr>) in
   cx_upstream (snd (proxyToServer (sample_env DecisionDenied) p ''s'' call_request start_ctx)) = [(''http://s'', ''{}'')]"
proof -
  note fact = refused_call_forwarded [of "sample_env DecisionDenied" call_request sample_rpc "sample_call ''fs_write'' []" "''s''"
      "sample_proxy (empty_policy\<lparr>mp_BlockTools := [''fs_*'']\<rparr>)" start_ctx
      "\<lparr>sv_Name = ''s'', sv_URL = ''http://s'', sv_Transport = ''http'', sv_Command = []\<rparr>"]
  have 1: "tool_call_request (sample_env DecisionDenied) call_request sample_rpc (sample_call ''fs_write'' [])"
    by (simp add: tool_call_request_def sample_env_def call_request_def sample_rpc_def ParseMessage_def ParseToolCall_def
        MethodToolsCall_def sample_call_def get_string_def get_object_def)
  have 2: "refused_call (sample_env DecisionDenied) (px_handler (sample_proxy (empty_policy\<lparr>mp_BlockTools := [''fs_*'']\<rparr>)))
      (sample_call ''fs_write'' []) ''s'' start_ctx" by code_simp
  have 3: "map_of (px_upstreams (sample_proxy (empty_policy\<lparr>mp_BlockTools := [''fs_*'']\<rparr>))) ''s'' =
      Some \<lparr>sv_Name = ''s'', sv_URL = ''http://s'', sv_Transport = ''http'', sv_Command = []\<rparr>" by code_simp
  show ?thesis unfolding Let_def using fact [OF 1 _ 2 _ 3] by (simp add: sample_env_def call_request_def start_ctx_def)
qed

text \<open>
  An approved tool call is not forwarded: after the approval the handler continues with
  \<^verbatim>\<open>c.Next()\<close>; no further handler matches its route, so that is an error, the proxy returns
  it, and nothing is posted upstream.
\<close>

theorem approved_call_not_forwarded:
  assumes "tool_call_request en r req tc" "s \<noteq> []"
    and "pr_Action (CheckToolCall (hd_policy (px_handler p)) tc s) = ActionPending"
    and "awaited en tc (CheckToolCall (hd_policy (px_handler p)) tc s) (cx_queue c) = DecisionApproved"
    and "en_next_error en = Some e"
  shows "fst (proxyToServer en p s r c) = Some e \<and> cx_upstream (snd (proxyToServer en p s r c)) = cx_upstream c"
proof -
  let ?result = "CheckToolCall (hd_policy (px_handler p)) tc s" and ?h = "px_handler p"
  let ?cid = "header_get (header_set ''X-MCP-Server'' s (rq_Headers r)) ''X-Correlation-ID''"
  let ?c = "emit_hook ?h (hook ''mcp_tool_call'' (tp_Name tc) (decision_word ActionPending) (pr_RulePath ?result))
       (c\<lparr>cx_counters := (cx_counters c)\<lparr>MCPToolCallsTotal := MCPToolCallsTotal (cx_counters c) + 1\<rparr>\<rparr>)"
  have "ParseToolCall req = Inr tc" using assms(1) by (simp add: tool_call_request_def)
  with assms(3) have "handleToolsCall en ?h req ?cid s c = handleApproval en ?h req tc ?result ?cid s ?c"
    by (simp add: handleToolsCall_def Let_def)
  moreover have "fst (handleApproval en ?h req tc ?result ?cid s ?c) = Some e \<and>
      cx_upstream (snd (handleApproval en ?h req tc ?result ?cid s ?c)) = cx_upstream c"
    using assms(4,5) by (cases rule: handleApproval_cases [of en tc ?result ?c ?h req ?cid s]) simp_all
  ultimately show ?thesis using assms(1,2)
    by (auto simp: proxyToServer_def HandleJSONRPC_tool Let_def split: prod.splits option.splits)
qed

theorem approved_call_not_forwarded_witness:
  "let en = sample_env DecisionApproved; p = sample_proxy (empty_policy\<lparr>mp_RequireApproval := [''fs_*'']\<rparr>) in
   fst (proxyToServer en p ''s'' call_request start_ctx) = Some ''Not Found'' \<and>
   cx_upstream (snd (proxyToServer en p ''s'' call_request start_ctx)) = cx_upstream start_ctx"
  unfolding Let_def
proof (rule approved_call_not_forwarded)
  show "tool_call_request (sample_env DecisionApproved) call_request sample_rpc (sample_call ''fs_write'' [])"
    by (simp add: tool_call_request_def sample_env_def call_request_def sample_rpc_def ParseMessage_def ParseToolCall_def
        MethodToolsCall_def sample_call_def get_string_def get_object_def)
qed code_simp+

lemma calls_balanced_cong: "cx_counters c = cx_counters c' \<Longrightarrow> calls_balanced c = calls_balanced c'"
  by (simp add: calls_balanced_def)

lemma handleToolsCall_balanced: "calls_balanced c \<Longrightarrow> calls_balanced (snd (handleToolsCall en h req cid s c))"
proof -
  assume bal: "calls_balanced c"
  show ?thesis
  proof (cases "ParseToolCall req")
    case (Inl e)
    then show ?thesis using bal by (simp add: handleToolsCall_def calls_balanced_def)
  next
    case (Inr tc)
    let ?result = "CheckToolCall (hd_policy h) tc s"
    let ?c = "emit_hook h (hook ''mcp_tool_call'' (tp_Name tc) (decision_word (pr_Action ?result)) (pr_RulePath ?result))
       (c\<lparr>cx_counters := (cx_counters c)\<lparr>MCPToolCallsTotal := MCPToolCallsTotal (cx_counters c) + 1\<rparr>\<rparr>)"
    show ?thesis
    proof (cases "pr_Action ?result")
      case ActionPending
      then have "handleToolsCall en h req cid s c = handleApproval en h req tc ?result cid s ?c"
        using Inr by (simp add: handleToolsCall_def Let_def)
      then show ?thesis using bal
        by (cases rule: handleApproval_cases [of en tc ?result ?c h req cid s]) (auto simp: calls_balanced_def)
    qed (use Inr bal in \<open>simp_all add: handleToolsCall_def Let_def calls_balanced_def\<close>)
  qed
qed

text \<open>
  The counters of tool calls add up: whatever the request, every tool call the handler counts is
  counted exactly once more as allowed, blocked or approved.
\<close>

theorem tool_calls_balanced:
  assumes "calls_balanced c"
  shows "calls_balanced (snd (HandleJSONRPC en h r c))"
  using assms handleToolsCall_balanced
  by (auto simp: HandleJSONRPC_def handleResourcesRead_def Let_def calls_balanced_def split: sum.splits)

theorem tool_calls_balanced_witness:
  "calls_balanced (snd (HandleJSONRPC (sample_env DecisionDenied) (px_handler (sample_proxy empty_policy)) call_request start_ctx))"
  by (rule tool_calls_balanced) code_simp

end
