(* ===== verification/Regexp_Spec.thy ===== *)
theory Regexp_Spec
  imports Go_Regexp
begin

text \<open>
  A specification of matching, and the matcher against it: \<open>spans p l w r\<close> says that \<open>p\<close> matches the
  text \<open>w\<close> where \<open>l\<close>, reversed, stands before it and \<open>r\<close> after it. The matcher of \<open>Go_Regexp\<close> finds a
  match exactly when there is one (\<open>MatchString_spans\<close>), so what a pattern of the program accepts can
  be read off the rules.
\<close>

inductive spans :: "rx \<Rightarrow> string \<Rightarrow> string \<Rightarrow> string \<Rightarrow> bool" where
  empty: "spans REmpty l [] r"
| cls: "in_ranges rs (byte_of c) \<noteq> neg \<Longrightarrow> spans (RCls neg rs) l [c] r"
| any: "byte_of c \<noteq> 10 \<Longrightarrow> spans RAny l [c] r"
| seq: "spans a l u (v @ r) \<Longrightarrow> spans b (rev u @ l) v r \<Longrightarrow> spans (RSeq a b) l (u @ v) r"
| alt_left: "spans a l w r \<Longrightarrow> spans (RAlt a b) l w r"
| alt_right: "spans b l w r \<Longrightarrow> spans (RAlt a b) l w r"
| star_stop: "spans (RStar g a) l [] r"
| star_more: "spans a l u (v @ r) \<Longrightarrow> u \<noteq> [] \<Longrightarrow> spans (RStar g a) (rev u @ l) v r \<Longrightarrow>
     spans (RStar g a) l (u @ v) r"
| bol: "spans RBol [] [] r"
| eol: "spans REol l [] []"
| word: "word_here l \<noteq> word_here r \<Longrightarrow> spans RWordB l [] r"
| grp: "spans a l w r \<Longrightarrow> spans (RGrp i a) l w r"

inductive_simps spans_simps [simp]:
  "spans REmpty l w r" "spans (RCls neg rs) l w r" "spans RAny l w r" "spans (RSeq a b) l w r"
  "spans (RAlt a b) l w r" "spans RBol l w r" "spans REol l w r" "spans RWordB l w r" "spans (RGrp i a) l w r"

section \<open>The matcher is sound\<close>

definition found :: "rx \<Rightarrow> rx_state \<Rightarrow> rx_state \<Rightarrow> bool" where
  "found p s t \<longleftrightarrow> (\<exists>w. rx_right s = w @ rx_right t \<and> rx_left t = rev w @ rx_left s \<and>
     spans p (rx_left s) w (rx_right t))"

lemma foundI:
  "rx_right s = w @ rx_right t \<Longrightarrow> rx_left t = rev w @ rx_left s \<Longrightarrow> spans p (rx_left s) w (rx_right t) \<Longrightarrow>
   found p s t"
  by (auto simp: found_def)

lemma found_star:
  assumes "\<And>s t. t \<in> set (m s) \<Longrightarrow> found a s t"
  shows "t \<in> set (star_run n g m s) \<Longrightarrow> found (RStar g a) s t"
proof (induction n arbitrary: s)
  case 0
  then show ?case by (auto intro: foundI [of _ "[]"] spans.star_stop)
next
  case (Suc n)
  then consider "t = s" | s' where "s' \<in> set (m s)" "length (rx_right s') < length (rx_right s)"
    "t \<in> set (star_run n g m s')" by (auto simp: Let_def split: if_splits)
  then show ?case
  proof cases
    case 1
    then show ?thesis by (auto intro: foundI [of _ "[]"] spans.star_stop)
  next
    case 2
    from assms [OF 2(1)] obtain u where u: "rx_right s = u @ rx_right s'" "rx_left s' = rev u @ rx_left s"
      "spans a (rx_left s) u (rx_right s')" by (auto simp: found_def)
    from Suc.IH [OF 2(3)] obtain v where v: "rx_right s' = v @ rx_right t" "rx_left t = rev v @ rx_left s'"
      "spans (RStar g a) (rx_left s') v (rx_right t)" by (auto simp: found_def)
    from u(1) 2(2) have "u \<noteq> []" by auto
    with u v have "spans (RStar g a) (rx_left s) (u @ v) (rx_right t)" by (auto intro: spans.star_more)
    then show ?thesis by (rule foundI [rotated 2]) (simp_all add: u v)
  qed
qed

lemma rx_run_found: "t \<in> set (rx_run p s) \<Longrightarrow> found p s t"
proof (induction p arbitrary: s t)
  case (RSeq a b)
  then obtain m where "m \<in> set (rx_run a s)" "t \<in> set (rx_run b m)" by auto
  with RSeq.IH have "found a s m" "found b m t" by auto
  then show ?case by (fastforce simp: found_def)
next
  case (RAlt a b)
  then have "found a s t \<or> found b s t" by auto
  then show ?case by (simp add: found_def) blast
next
  case (RStar g a)
  then show ?case by (auto intro: found_star)
next
  case (RGrp i a)
  then show ?case by (fastforce simp: found_def)
qed (auto simp: found_def step_byte_def split: list.splits if_splits)

section \<open>The matcher is complete\<close>

definition reaches :: "rx_state list \<Rightarrow> string \<Rightarrow> string \<Rightarrow> bool" where
  "reaches ts l r \<longleftrightarrow> (\<exists>t \<in> set ts. rx_left t = l \<and> rx_right t = r)"

text \<open>The steps of a pattern look at the two texts of a position only.\<close>

lemma reaches_star:
  assumes a: "\<And>s u v. rx_right s = u @ v \<Longrightarrow> spans a (rx_left s) u v \<Longrightarrow> reaches (m s) (rev u @ rx_left s) v"
  shows "spans (RStar g a) l w r \<Longrightarrow> rx_left s = l \<Longrightarrow> rx_right s = w @ r \<Longrightarrow> length (rx_right s) \<le> n \<Longrightarrow>
    reaches (star_run n g m s) (rev w @ l) r"
proof (induction "RStar g a" l w r arbitrary: s n rule: spans.induct)
  case (star_stop l r)
  then show ?case by (cases n) (auto simp: reaches_def Let_def)
next
  case (star_more l u v r)
  have IH: "reaches (star_run n g m s') (rev v @ rev u @ l) r"
    if "rx_left s' = rev u @ l" "rx_right s' = v @ r" "length (rx_right s') \<le> n" for s' n
    using star_more.hyps that by auto
  from star_more.prems(2,3) \<open>u \<noteq> []\<close> obtain k where k: "n = Suc k" by (cases n) auto
  from a [of s u "v @ r"] star_more.hyps(1) star_more.prems(1,2) obtain s' where
    s': "s' \<in> set (m s)" "rx_left s' = rev u @ l" "rx_right s' = v @ r" by (auto simp: reaches_def)
  have "Suc 0 \<le> length u" using \<open>u \<noteq> []\<close> by (simp add: Suc_leI)
  with star_more.prems(2,3) s'(3) k have len: "length (rx_right s') < length (rx_right s)" "length (rx_right s') \<le> k"
    unfolding s'(3) star_more.prems(2) k length_append by linarith+
  from IH [OF s'(2,3) len(2)] have "reaches (star_run k g m s') (rev v @ rev u @ l) r" .
  then obtain t where t: "t \<in> set (star_run k g m s')" "rx_left t = rev v @ rev u @ l" "rx_right t = r"
    by (auto simp: reaches_def)
  from t(1) s'(1) len(1) have "t \<in> set (star_run (Suc k) g m s)" by (cases g) (auto simp: Let_def)
  with t(2,3) show ?case by (auto simp: reaches_def k simp del: star_run.simps)
qed

lemma rx_run_reaches:
  "spans p (rx_left s) w r \<Longrightarrow> rx_right s = w @ r \<Longrightarrow> reaches (rx_run p s) (rev w @ rx_left s) r"
proof (induction p arbitrary: s w r)
  case (RSeq a b)
  then obtain u v where w: "w = u @ v" "spans a (rx_left s) u (v @ r)" "spans b (rev u @ rx_left s) v r" by auto
  with RSeq.IH(1) [of s u "v @ r"] RSeq.prems obtain m where
    m: "m \<in> set (rx_run a s)" "rx_left m = rev u @ rx_left s" "rx_right m = v @ r" by (auto simp: reaches_def)
  with RSeq.IH(2) [of m v r] w show ?case by (auto simp: reaches_def)
next
  case (RStar g a)
  from reaches_star [OF RStar.IH RStar.prems(1) refl RStar.prems(2) order_refl] RStar.prems(2) show ?case by simp
next
  case (RGrp i a)
  then have "reaches (rx_run a s) (rev w @ rx_left s) r" by simp
  then show ?case by (auto simp: reaches_def)
qed (fastforce simp: reaches_def step_byte_def)+

theorem MatchString_spans: "MatchString p s \<longleftrightarrow> (\<exists>u w v. s = u @ w @ v \<and> spans p (rev u) w v)"
proof
  assume "MatchString p s"
  then obtain u v t where "s = u @ v" "t \<in> set (rx_run p (rx_start (rev u) v))"
    by (auto simp: MatchString_iff neq_Nil_conv) (metis list.set_intros(1))
  with rx_run_found [of t p "rx_start (rev u) v"] show "\<exists>u w v. s = u @ w @ v \<and> spans p (rev u) w v"
    by (auto simp: found_def rx_start_def)
next
  assume "\<exists>u w v. s = u @ w @ v \<and> spans p (rev u) w v"
  then obtain u w v where s: "s = u @ w @ v" "spans p (rev u) w v" by blast
  then have "reaches (rx_run p (rx_start (rev u) (w @ v))) (rev w @ rev u) v"
    using rx_run_reaches [of p "rx_start (rev u) (w @ v)" w v] by (simp add: rx_start_def)
  then have "rx_run p (rx_start (rev u) (w @ v)) \<noteq> []" by (auto simp: reaches_def)
  with s(1) show "MatchString p s" unfolding MatchString_iff by blast
qed

section \<open>Patterns as the program writes them\<close>

lemma spans_byte [simp]: "spans (rx_byte c) l w r \<longleftrightarrow> w = [c]"
  by (auto simp: rx_byte_def in_ranges_def byte_of_def)

lemma spans_lit [simp]: "spans (rx_lit s) l w r \<longleftrightarrow> w = s"
  by (induction s arbitrary: l w) (auto simp: rx_lit_def)

lemma spans_seq_Nil [simp]: "spans (rx_seq []) l w r \<longleftrightarrow> w = []"
  by (simp add: rx_seq_def)

lemma spans_seq_Cons [simp]:
  "spans (rx_seq (p # ps)) l w r \<longleftrightarrow>
     (\<exists>u v. w = u @ v \<and> spans p l u (v @ r) \<and> spans (rx_seq ps) (rev u @ l) v r)"
  by (auto simp: rx_seq_def)

lemma spans_star_cls:
  "spans (RStar g (RCls neg rs)) l w r \<longleftrightarrow> (\<forall>c \<in> set w. in_ranges rs (byte_of c) \<noteq> neg)"
proof
  show "spans (RStar g (RCls neg rs)) l w r \<Longrightarrow> \<forall>c \<in> set w. in_ranges rs (byte_of c) \<noteq> neg"
    by (induction "RStar g (RCls neg rs)" l w r rule: spans.induct) auto
  show "\<forall>c \<in> set w. in_ranges rs (byte_of c) \<noteq> neg \<Longrightarrow> spans (RStar g (RCls neg rs)) l w r"
  proof (induction w arbitrary: l)
    case (Cons c w)
    then show ?case using spans.star_more [of "RCls neg rs" l "[c]" w r g] by auto
  qed (rule spans.star_stop)
qed

lemma spans_plus_cls [simp]:
  "spans (rx_plus (RCls neg rs)) l w r \<longleftrightarrow> w \<noteq> [] \<and> (\<forall>c \<in> set w. in_ranges rs (byte_of c) \<noteq> neg)"
proof -
  have "spans (rx_plus (RCls neg rs)) l w r \<longleftrightarrow>
      (\<exists>c v. w = [c] @ v \<and> in_ranges rs (byte_of c) \<noteq> neg \<and> (\<forall>c \<in> set v. in_ranges rs (byte_of c) \<noteq> neg))"
    unfolding rx_plus_def spans_simps spans_star_cls by blast
  then show ?thesis by (cases w) auto
qed

end
