(* ===== verification/Integrations.thy ===== *)
theory Integrations
  imports Regexp_Spec "HOL-Library.AList" "HOL-Library.List_Lexorder" "HOL-Library.Char_ord"
begin

text \<open>
  Classification of API requests (pkg/integrations): the interface of a provider as a record of its
  methods, the three providers, and the registry that dispatches to them.

  What the broker relies on of a provider is the locale \<open>route_classifier\<close>: a class it answers is one
  it lists or the unknown one, and the unknown one is the text \<open>unknown\<close>. The three providers are
  interpretations.
\<close>

section \<open>The interface\<close>

record RouteClassifier =
  rc_Classify :: "string \<Rightarrow> string \<Rightarrow> string"
  rc_Provider :: string
  rc_KnownHosts :: "string list"
  rc_RouteClasses :: "string list"
  rc_UnknownClass :: string

locale route_classifier =
  fixes c :: RouteClassifier
  assumes classify_listed: "rc_Classify c meth path \<in> insert (rc_UnknownClass c) (set (rc_RouteClasses c))"
    and unknown_text: "rc_UnknownClass c = ''unknown''"
begin

lemma classified: "rc_Classify c meth path \<noteq> ''unknown'' \<Longrightarrow> rc_Classify c meth path \<in> set (rc_RouteClasses c)"
  using classify_listed unknown_text by auto

end

section \<open>GitHub\<close>

type_synonym routeRule = "string \<times> rx \<times> string"

text \<open>\<^verbatim>\<open>^/repos/[^/]+/[^/]+\<close>, \<^verbatim>\<open>(/|$)\<close> and \<^verbatim>\<open>/\d+$\<close>\<close>

definition rx_segment :: rx where
  "rx_segment = rx_plus (RCls True [(47, 47)])"

definition rx_repo :: rx where
  "rx_repo = rx_seq [RBol, rx_lit ''/repos/'', rx_segment, rx_lit ''/'', rx_segment]"

definition rx_below :: rx where
  "rx_below = RGrp 1 (RAlt (rx_lit ''/'') REol)"

definition rx_number :: rx where
  "rx_number = rx_seq [rx_lit ''/'', rx_plus rx_digit, REol]"

definition github_rules :: "routeRule list" where
  "github_rules =
     [(''DELETE'', rx_seq [rx_repo, REol], ''admin''),
      (''GET'', rx_seq [rx_repo, REol], ''repo_metadata_read''),
      (''GET'', rx_seq [rx_repo, rx_lit ''/issues'', rx_below], ''issues_read''),
      (''POST'', rx_seq [rx_repo, rx_lit ''/issues'', REol], ''issues_write''),
      (''PATCH'', rx_seq [rx_repo, rx_lit ''/issues'', rx_number], ''issues_write''),
      (''GET'', rx_seq [rx_repo, rx_lit ''/pulls'', rx_below], ''pulls_read''),
      (''POST'', rx_seq [rx_repo, rx_lit ''/pulls'', REol], ''pulls_write''),
      (''PATCH'', rx_seq [rx_repo, rx_lit ''/pulls'', rx_number], ''pulls_write'')]"

definition rule_class :: "string \<Rightarrow> string \<Rightarrow> routeRule \<Rightarrow> string option" where
  "rule_class meth path r =
     (case r of (rmethod, pattern, class) \<Rightarrow>
        if (rmethod = ''*'' \<or> rmethod = meth) \<and> MatchString pattern path then Some class else None)"

definition github_Classify :: "string \<Rightarrow> string \<Rightarrow> string" where
  "github_Classify meth path =
     (case find_first (rule_class meth path) github_rules of Some class \<Rightarrow> class | None \<Rightarrow> ''unknown'')"

definition github_Classifier :: RouteClassifier where
  "github_Classifier =
     \<lparr>rc_Classify = github_Classify, rc_Provider = ''github'',
      rc_KnownHosts = [''api.github.com'', ''uploads.github.com''],
      rc_RouteClasses = [''repo_metadata_read'', ''issues_read'', ''issues_write'', ''pulls_read'', ''pulls_write'',
                         ''admin'', ''unknown''],
      rc_UnknownClass = ''unknown''\<rparr>"

section \<open>Linear\<close>

text \<open>Without the query and the slashes at the end.\<close>

definition clean_path :: "string \<Rightarrow> string" where
  "clean_path path = TrimRight (cut_first (CHR ''?'') path) ''/''"

definition linear_Classify :: "string \<Rightarrow> string \<Rightarrow> string" where
  "linear_Classify meth path =
     (let p = clean_path path in
      if p = ''/graphql'' \<and> meth = ''POST'' then ''graphql''
      else if p = ''/graphql'' \<and> meth = ''GET'' then ''graphql_read''
      else if p = ''/api/webhooks'' \<and> meth = ''POST'' then ''webhooks''
      else if HasPrefix p ''/api/oauth'' then ''oauth''
      else ''unknown'')"

definition linear_Classifier :: RouteClassifier where
  "linear_Classifier =
     \<lparr>rc_Classify = linear_Classify, rc_Provider = ''linear'', rc_KnownHosts = [''api.linear.app'', ''linear.app''],
      rc_RouteClasses = [''graphql'', ''graphql_read'', ''webhooks'', ''oauth''], rc_UnknownClass = ''unknown''\<rparr>"

section \<open>Slack\<close>

definition readSuffixes :: "string list" where
  "readSuffixes = [''.list'', ''.info'', ''.get'', ''.history'', ''.members'', ''.replies'', ''.getPresence'']"

text \<open>The prefix of a namespace with its read and write class; a Go map, listed in the order of the source.\<close>

definition namespaceMap :: "(string \<times> string \<times> string) list" where
  "namespaceMap =
     [(''chat.'', ''chat_read'', ''chat_write''),
      (''conversations.'', ''chat_read'', ''chat_write''),
      (''reactions.'', ''reactions_read'', ''reactions_write''),
      (''files.'', ''files_read'', ''files_write''),
      (''users.'', ''users_read'', ''users_read''),
      (''channels.'', ''channels_read'', ''channels_write''),
      (''admin.'', ''admin_read'', ''admin_write''),
      (''team.'', ''admin_read'', ''admin_write'')]"

definition extractMethod :: "string \<Rightarrow> string" where
  "extractMethod path =
     (if \<not> HasPrefix path ''/api/'' then []
      else clean_path (TrimPrefix path ''/api/''))"

definition isReadMethod :: "string \<Rightarrow> bool" where
  "isReadMethod m = list_ex (HasSuffix m) readSuffixes"

definition namespace_class :: "string \<Rightarrow> string \<times> string \<times> string \<Rightarrow> string option" where
  "namespace_class m e =
     (case e of (pre, rd, wr) \<Rightarrow> if HasPrefix m pre then Some (if isReadMethod m then rd else wr) else None)"

text \<open>The loop over the map, in the order \<open>ns\<close> the iteration takes.\<close>

definition slack_Classify_in :: "(string \<times> string \<times> string) list \<Rightarrow> string \<Rightarrow> string \<Rightarrow> string" where
  "slack_Classify_in ns meth path =
     (let m = extractMethod path in
      if m = [] then ''unknown''
      else (case find_first (namespace_class m) ns of Some class \<Rightarrow> class | None \<Rightarrow> ''unknown''))"

definition slack_Classify :: "string \<Rightarrow> string \<Rightarrow> string" where
  "slack_Classify = slack_Classify_in namespaceMap"

definition slack_Classifier :: RouteClassifier where
  "slack_Classifier =
     \<lparr>rc_Classify = slack_Classify, rc_Provider = ''slack'', rc_KnownHosts = [''slack.com'', ''api.slack.com''],
      rc_RouteClasses = [''chat_read'', ''chat_write'', ''reactions_read'', ''reactions_write'', ''files_read'',
        ''files_write'', ''users_read'', ''channels_read'', ''channels_write'', ''admin_read'', ''admin_write''],
      rc_UnknownClass = ''unknown''\<rparr>"

section \<open>The registry\<close>

type_synonym Registry = "(string \<times> RouteClassifier) list"

definition NewRegistry :: Registry where
  "NewRegistry = []"

definition Register :: "RouteClassifier \<Rightarrow> Registry \<Rightarrow> Registry" where
  "Register c r = AList.update (rc_Provider c) c r"

definition Registry_Get :: "Registry \<Rightarrow> string \<Rightarrow> RouteClassifier option" where
  "Registry_Get r provider = map_of r provider"

definition Providers :: "Registry \<Rightarrow> string list" where
  "Providers r = sort (map fst r)"

definition ClassifyForProvider :: "Registry \<Rightarrow> string \<Rightarrow> string \<Rightarrow> string \<Rightarrow> string" where
  "ClassifyForProvider r provider meth path =
     (case map_of r provider of None \<Rightarrow> ''unknown'' | Some c \<Rightarrow> rc_Classify c meth path)"

section \<open>The paths of the GitHub rules\<close>

definition repo_path :: "string \<Rightarrow> string \<Rightarrow> bool" where
  "repo_path path tail \<longleftrightarrow>
     (\<exists>owner repo. owner \<noteq> [] \<and> repo \<noteq> [] \<and> CHR ''/'' \<notin> set owner \<and> CHR ''/'' \<notin> set repo \<and>
        path = ''/repos/'' @ owner @ ''/'' @ repo @ tail)"

definition all_digits :: "string \<Rightarrow> bool" where
  "all_digits n \<longleftrightarrow> n \<noteq> [] \<and> list_all (\<lambda>c. 48 \<le> byte_of c \<and> byte_of c \<le> 57) n"

lemma byte_of_slash: "byte_of c = 47 \<longleftrightarrow> c = CHR ''/''"
proof -
  have "byte_of c = byte_of (CHR ''/'') \<longleftrightarrow> c = CHR ''/''" by (simp only: byte_of_def of_char_eq_iff)
  then show ?thesis by (simp add: byte_of_def)
qed

lemma in_ranges_single: "in_ranges [(a, a)] n \<longleftrightarrow> n = a"
  by (auto simp: in_ranges_def)

lemma spans_segment: "spans rx_segment l w r \<longleftrightarrow> w \<noteq> [] \<and> CHR ''/'' \<notin> set w"
  unfolding rx_segment_def spans_plus_cls in_ranges_single byte_of_slash by blast

lemma spans_repo: "spans rx_repo l w r \<longleftrightarrow> l = [] \<and> repo_path w []"
  unfolding rx_repo_def repo_path_def by (auto simp: spans_segment)

lemma repo_path_split: "repo_path path t \<longleftrightarrow> (\<exists>w. path = w @ t \<and> repo_path w [])"
proof
  assume "repo_path path t"
  then obtain a b where "a \<noteq> []" "b \<noteq> []" "CHR ''/'' \<notin> set a" "CHR ''/'' \<notin> set b"
    "path = (''/repos/'' @ a @ ''/'' @ b) @ t" by (auto simp: repo_path_def)
  moreover from this have "repo_path (''/repos/'' @ a @ ''/'' @ b) []" unfolding repo_path_def by blast
  ultimately show "\<exists>w. path = w @ t \<and> repo_path w []" by blast
qed (auto simp: repo_path_def)

lemma match_repo:
  "MatchString (rx_seq (rx_repo # ps)) path \<longleftrightarrow>
    (\<exists>w v r. path = w @ v @ r \<and> repo_path w [] \<and> spans (rx_seq ps) (rev w) v r)"
proof
  assume "MatchString (rx_seq (rx_repo # ps)) path"
  then obtain u x r where "path = u @ x @ r" "spans (rx_seq (rx_repo # ps)) (rev u) x r"
    unfolding MatchString_spans by blast
  moreover from this obtain w v where "x = w @ v" "u = []" "repo_path w []" "spans (rx_seq ps) (rev w) v r"
    unfolding spans_seq_Cons spans_repo by auto
  ultimately show "\<exists>w v r. path = w @ v @ r \<and> repo_path w [] \<and> spans (rx_seq ps) (rev w) v r"
    by (intro exI [of _ w] exI [of _ v] exI [of _ r]) simp
next
  assume "\<exists>w v r. path = w @ v @ r \<and> repo_path w [] \<and> spans (rx_seq ps) (rev w) v r"
  then obtain w v r where w: "path = [] @ (w @ v) @ r" "repo_path w []" "spans (rx_seq ps) (rev w @ rev []) v r" by auto
  from w(2,3) have "spans (rx_seq (rx_repo # ps)) (rev []) (w @ v) r"
    unfolding spans_seq_Cons spans_repo by blast
  with w(1) show "MatchString (rx_seq (rx_repo # ps)) path" unfolding MatchString_spans by blast
qed

lemma match_repo_eol: "MatchString (rx_seq [rx_repo, REol]) path \<longleftrightarrow> repo_path path []"
  unfolding match_repo by simp

lemma match_repo_tail: "MatchString (rx_seq [rx_repo, rx_lit t, REol]) path \<longleftrightarrow> repo_path path t"
  unfolding match_repo repo_path_split [of path t] by auto

lemma match_repo_below:
  "MatchString (rx_seq [rx_repo, rx_lit t, rx_below]) path \<longleftrightarrow>
     repo_path path t \<or> (\<exists>x. repo_path path (t @ ''/'' @ x))"
proof -
  have "MatchString (rx_seq [rx_repo, rx_lit t, rx_below]) path \<longleftrightarrow>
      (\<exists>w r. path = w @ t @ ''/'' @ r \<and> repo_path w []) \<or> (\<exists>w. path = w @ t \<and> repo_path w [])"
    unfolding match_repo rx_below_def by (simp add: ex_disj_distrib conj_disj_distribL)
  then show ?thesis unfolding repo_path_split [of path] by blast
qed

lemma spans_number: "spans rx_number l w r \<longleftrightarrow> r = [] \<and> (\<exists>n. all_digits n \<and> w = ''/'' @ n)"
  by (auto simp: rx_number_def rx_digit_def in_ranges_def all_digits_def list_all_iff)

lemma match_repo_number:
  "MatchString (rx_seq [rx_repo, rx_lit t, rx_number]) path \<longleftrightarrow>
     (\<exists>n. all_digits n \<and> repo_path path (t @ ''/'' @ n))"
  unfolding match_repo repo_path_split [of path] by (simp add: spans_number) blast

text \<open>A path has one tail.\<close>

lemma slash_split:
  assumes "CHR ''/'' \<notin> set a" "CHR ''/'' \<notin> set b" "a @ x = b @ y"
    and "x = [] \<or> hd x = CHR ''/''" "y = [] \<or> hd y = CHR ''/''"
  shows "a = b \<and> x = y"
proof -
  have tw: "takeWhile (\<lambda>c. c \<noteq> CHR ''/'') (a @ x) = a"
    if "CHR ''/'' \<notin> set a" "x = [] \<or> hd x = CHR ''/''" for a x :: string
    using that by (cases x) (auto simp: takeWhile_tail takeWhile_eq_all_conv)
  from tw [OF assms(1,4)] tw [OF assms(2,5)] assms(3) show ?thesis by auto
qed

lemma repo_path_unique:
  assumes "repo_path p t" "repo_path p t'" "t = [] \<or> hd t = CHR ''/''" "t' = [] \<or> hd t' = CHR ''/''"
  shows "t = t'"
proof -
  from assms(1) obtain a b where 1: "CHR ''/'' \<notin> set a" "CHR ''/'' \<notin> set b" "p = ''/repos/'' @ a @ ''/'' @ b @ t"
    by (auto simp: repo_path_def)
  from assms(2) obtain a' b' where 2: "CHR ''/'' \<notin> set a'" "CHR ''/'' \<notin> set b'" "p = ''/repos/'' @ a' @ ''/'' @ b' @ t'"
    by (auto simp: repo_path_def)
  from 1(3) 2(3) have "a @ (''/'' @ b @ t) = a' @ (''/'' @ b' @ t')" by simp
  from slash_split [OF 1(1) 2(1) this] have "b @ t = b' @ t'" by simp
  from slash_split [OF 1(2) 2(2) this assms(3,4)] show ?thesis by simp
qed

section \<open>The providers keep their contract\<close>

lemma rule_class_Some_iff:
  "rule_class meth path (rm, pat, class) = Some c \<longleftrightarrow>
     (rm = ''*'' \<or> rm = meth) \<and> MatchString pat path \<and> c = class"
  by (auto simp: rule_class_def)

lemma rule_class_None_iff:
  "rule_class meth path (rm, pat, class) = None \<longleftrightarrow> \<not> ((rm = ''*'' \<or> rm = meth) \<and> MatchString pat path)"
  by (simp add: rule_class_def)

interpretation github: route_classifier github_Classifier
proof
  show "rc_Classify github_Classifier meth path \<in> insert (rc_UnknownClass github_Classifier) (set (rc_RouteClasses github_Classifier))"
    for meth path
    by (auto simp: github_Classifier_def github_Classify_def github_rules_def rule_class_Some_iff
        dest!: find_first_in_set split: option.splits)
qed (simp add: github_Classifier_def)

interpretation linear: route_classifier linear_Classifier
  by unfold_locales (auto simp: linear_Classifier_def linear_Classify_def Let_def)

lemma namespace_class_Some_iff:
  "namespace_class m (pre, rd, wr) = Some c \<longleftrightarrow> HasPrefix m pre \<and> c = (if isReadMethod m then rd else wr)"
  by (auto simp: namespace_class_def)

interpretation slack: route_classifier slack_Classifier
proof
  show "rc_Classify slack_Classifier meth path \<in> insert (rc_UnknownClass slack_Classifier) (set (rc_RouteClasses slack_Classifier))"
    for meth path
    by (auto simp: slack_Classifier_def slack_Classify_def slack_Classify_in_def namespaceMap_def Let_def
        namespace_class_Some_iff dest!: find_first_in_set split: option.splits)
qed (simp add: slack_Classifier_def)

text \<open>A registry built from providers that keep the contract keeps it, and fails closed.\<close>

definition lawful_registry :: "Registry \<Rightarrow> bool" where
  "lawful_registry r \<longleftrightarrow> (\<forall>(n, c) \<in> set r. route_classifier c \<and> n = rc_Provider c)"

lemma lawful_NewRegistry [inv_intros]: "lawful_registry NewRegistry"
  by (simp add: lawful_registry_def NewRegistry_def)

lemma lawful_Register [inv_intros]: "lawful_registry r \<Longrightarrow> route_classifier c \<Longrightarrow> lawful_registry (Register c r)"
proof -
  have "set (AList.update k v xs) \<subseteq> insert (k, v) (set xs)" for k :: string and v :: RouteClassifier and xs
    by (induction xs) auto
  then show "lawful_registry r \<Longrightarrow> route_classifier c \<Longrightarrow> lawful_registry (Register c r)"
    unfolding lawful_registry_def Register_def by fast
qed

lemma ClassifyForProvider_listed:
  assumes "lawful_registry r" "ClassifyForProvider r provider meth path \<noteq> ''unknown''"
  obtains c where "map_of r provider = Some c" "rc_Provider c = provider"
    "ClassifyForProvider r provider meth path \<in> set (rc_RouteClasses c)"
proof -
  from assms(2) obtain c where c: "map_of r provider = Some c"
    "ClassifyForProvider r provider meth path = rc_Classify c meth path"
    by (auto simp: ClassifyForProvider_def split: option.splits)
  from c(1) assms(1) have "route_classifier c" "rc_Provider c = provider"
    by (auto simp: lawful_registry_def dest!: map_of_SomeD)
  with c assms(2) route_classifier.classified [of c meth path] show thesis by (intro that [of c]) simp_all
qed

text \<open>The registry of the program: it has GitHub's classifier alone.\<close>

definition main_registry :: Registry where
  "main_registry = Register github_Classifier NewRegistry"

section \<open>What GitHub's rules say\<close>

inductive github_route :: "string \<Rightarrow> string \<Rightarrow> string \<Rightarrow> bool" where
  delete_repo: "repo_path p [] \<Longrightarrow> github_route ''DELETE'' p ''admin''"
| read_repo: "repo_path p [] \<Longrightarrow> github_route ''GET'' p ''repo_metadata_read''"
| list_issues: "repo_path p ''/issues'' \<Longrightarrow> github_route ''GET'' p ''issues_read''"
| read_issue: "repo_path p (''/issues'' @ ''/'' @ x) \<Longrightarrow> github_route ''GET'' p ''issues_read''"
| new_issue: "repo_path p ''/issues'' \<Longrightarrow> github_route ''POST'' p ''issues_write''"
| edit_issue: "repo_path p (''/issues'' @ ''/'' @ n) \<Longrightarrow> all_digits n \<Longrightarrow> github_route ''PATCH'' p ''issues_write''"
| list_pulls: "repo_path p ''/pulls'' \<Longrightarrow> github_route ''GET'' p ''pulls_read''"
| read_pull: "repo_path p (''/pulls'' @ ''/'' @ x) \<Longrightarrow> github_route ''GET'' p ''pulls_read''"
| new_pull: "repo_path p ''/pulls'' \<Longrightarrow> github_route ''POST'' p ''pulls_write''"
| edit_pull: "repo_path p (''/pulls'' @ ''/'' @ n) \<Longrightarrow> all_digits n \<Longrightarrow> github_route ''PATCH'' p ''pulls_write''"

lemmas github_route_intros = github_route.intros [simplified]

text \<open>The class follows from the method and the tail of the path.\<close>

definition tail_class :: "string \<Rightarrow> string \<Rightarrow> string" where
  "tail_class m t =
     (if t = [] then (if m = ''DELETE'' then ''admin'' else ''repo_metadata_read'')
      else if HasPrefix t ''/issues'' then (if m = ''GET'' then ''issues_read'' else ''issues_write'')
      else (if m = ''GET'' then ''pulls_read'' else ''pulls_write''))"

lemma github_route_tail:
  "github_route m p c \<Longrightarrow> \<exists>t. repo_path p t \<and> (t = [] \<or> hd t = CHR ''/'') \<and> c = tail_class m t"
  by (erule github_route.cases) (fastforce simp: tail_class_def HasPrefix_def)+

lemma github_route_unique: "github_route m p c \<Longrightarrow> github_route m p c' \<Longrightarrow> c = c'"
  by (metis github_route_tail repo_path_unique)

lemmas match_github = match_repo_eol match_repo_tail match_repo_below match_repo_number

lemma rule_gives_route: "r \<in> set github_rules \<Longrightarrow> rule_class m p r = Some c \<Longrightarrow> github_route m p c"
  unfolding github_rules_def
  by (auto simp: rule_class_Some_iff match_github intro: github_route_intros)

text \<open>A rule for the method whose pattern matches is a hit.\<close>

definition rule_hit :: "string \<Rightarrow> string \<Rightarrow> bool" where
  "rule_hit m p \<longleftrightarrow> (\<exists>r \<in> set github_rules. rule_class m p r \<noteq> None)"

lemma rule_hitI: "MatchString pat p \<Longrightarrow> (m, pat, c) \<in> set github_rules \<Longrightarrow> rule_hit m p"
  by (force simp: rule_hit_def rule_class_def)

lemmas hit_eol = rule_hitI [OF match_repo_eol [THEN iffD2]]
lemmas hit_tail = rule_hitI [OF match_repo_tail [THEN iffD2]]
lemmas hit_list = rule_hitI [OF match_repo_below [THEN iffD2, OF disjI1]]
lemmas hit_below = rule_hitI [OF match_repo_below [THEN iffD2, OF disjI2, OF exI]]
lemmas hit_number = rule_hitI [OF match_repo_number [THEN iffD2, OF exI, OF conjI]]

lemma route_has_rule:
  assumes "github_route m p c" shows "rule_hit m p"
  using assms
proof cases
  case delete_repo
  then show ?thesis by (intro hit_eol [where c = c]) (simp_all add: github_rules_def)
next
  case read_repo
  then show ?thesis by (intro hit_eol [where c = c]) (simp_all add: github_rules_def)
next
  case list_issues
  then show ?thesis by (intro hit_list [where c = c and t = "''/issues''"]) (simp_all add: github_rules_def)
next
  case (read_issue x)
  then show ?thesis by (intro hit_below [where c = c and t = "''/issues''"]) (simp_all add: github_rules_def)
next
  case new_issue
  then show ?thesis by (intro hit_tail [where c = c and t = "''/issues''"]) (simp_all add: github_rules_def)
next
  case (edit_issue n)
  then show ?thesis by (intro hit_number [where c = c and t = "''/issues''"]) (simp_all add: github_rules_def)
next
  case list_pulls
  then show ?thesis by (intro hit_list [where c = c and t = "''/pulls''"]) (simp_all add: github_rules_def)
next
  case (read_pull x)
  then show ?thesis by (intro hit_below [where c = c and t = "''/pulls''"]) (simp_all add: github_rules_def)
next
  case new_pull
  then show ?thesis by (intro hit_tail [where c = c and t = "''/pulls''"]) (simp_all add: github_rules_def)
next
  case (edit_pull n)
  then show ?thesis by (intro hit_number [where c = c and t = "''/pulls''"]) (simp_all add: github_rules_def)
qed

section \<open>What Slack's namespaces say\<close>

lemma find_first_unique:
  assumes "\<And>e e'. e \<in> set xs \<Longrightarrow> e' \<in> set xs \<Longrightarrow> f e \<noteq> None \<Longrightarrow> f e' \<noteq> None \<Longrightarrow> e = e'"
  shows "find_first f xs = Some c \<longleftrightarrow> (\<exists>e \<in> set xs. f e = Some c)"
proof
  assume "\<exists>e \<in> set xs. f e = Some c"
  then obtain e where e: "e \<in> set xs" "f e = Some c" by blast
  then obtain d where "find_first f xs = Some d" using find_first_None_iff [of f xs] by force
  moreover from this obtain e' where "e' \<in> set xs" "f e' = Some d" using find_first_in_set by fast
  ultimately show "find_first f xs = Some c" using assms [of e e'] e by simp
qed (rule find_first_in_set)

lemma namespaces_disjoint:
  assumes "e \<in> set namespaceMap" "e' \<in> set namespaceMap" "HasPrefix m (fst e)" "HasPrefix m (fst e')"
  shows "e = e'"
proof -
  have "list_all (\<lambda>e. list_all (\<lambda>e'. HasPrefix (fst e) (fst e') \<longrightarrow> e = e') namespaceMap) namespaceMap" by code_simp
  moreover from assms(3,4) have "HasPrefix (fst e) (fst e') \<or> HasPrefix (fst e') (fst e)"
    by (auto simp: HasPrefix_iff_prefix prefix_same_cases)
  ultimately show ?thesis using assms(1,2) by (auto simp: list_all_iff)
qed

lemma slack_class_iff:
  assumes "set ns = set namespaceMap"
  shows "find_first (namespace_class m) ns = Some c \<longleftrightarrow> (\<exists>e \<in> set namespaceMap. namespace_class m e = Some c)"
proof -
  have "e = e'" if "e \<in> set ns" "e' \<in> set ns" "namespace_class m e \<noteq> None" "namespace_class m e' \<noteq> None" for e e'
    using that assms by (intro namespaces_disjoint [of _ _ m]) (auto simp: namespace_class_def split: prod.splits if_splits)
  then have "find_first (namespace_class m) ns = Some c \<longleftrightarrow> (\<exists>e \<in> set ns. namespace_class m e = Some c)"
    by (intro find_first_unique) blast
  then show ?thesis unfolding assms .
qed

section \<open>Properties\<close>

text \<open>
  GitHub's rules mean what the table of routes says: a request gets a class exactly when the table
  gives it, and the unknown class exactly when the table gives none; so reading classes need the
  method GET and nothing but the listed paths is known.
\<close>

theorem github_Classify_routes:
  "github_Classify m p = c \<longleftrightarrow> github_route m p c \<or> (c = ''unknown'' \<and> (\<nexists>c'. github_route m p c'))"
proof (cases "find_first (rule_class m p) github_rules")
  case None
  then have "\<nexists>c'. github_route m p c'" using route_has_rule by (metis find_first_None_iff rule_hit_def)
  with None show ?thesis by (auto simp: github_Classify_def)
next
  case (Some d)
  then have "github_route m p d" using rule_gives_route find_first_in_set by fastforce
  with Some github_route_unique show ?thesis by (auto simp: github_Classify_def)
qed

text \<open>
  Slack's classification does not depend on the order in which Go visits the namespace map; a
  reading class is given only to methods with a reading suffix, with one exception: every method
  of the namespace \<open>users\<close> is classified as reading, also those that write.
\<close>

theorem slack_Classify_classes:
  assumes "set ns = set namespaceMap"
  shows "slack_Classify_in ns meth path = slack_Classify meth path \<and>
    (HasSuffix (slack_Classify meth path) ''_read'' \<and> slack_Classify meth path \<noteq> ''users_read'' \<longrightarrow>
       isReadMethod (extractMethod path)) \<and>
    (HasPrefix (extractMethod path) ''users.'' \<longrightarrow> slack_Classify meth path = ''users_read'')"
proof (intro conjI impI)
  let ?m = "extractMethod path"
  have "find_first (namespace_class ?m) ns = find_first (namespace_class ?m) namespaceMap"
    using slack_class_iff [OF assms, of ?m] slack_class_iff [OF refl, of ?m] by (metis not_Some_eq)
  then show "slack_Classify_in ns meth path = slack_Classify meth path"
    by (simp add: slack_Classify_def slack_Classify_in_def Let_def)
next
  assume "HasPrefix (extractMethod path) ''users.''"
  then have "namespace_class (extractMethod path) (''users.'', ''users_read'', ''users_read'') = Some ''users_read''"
    and ne: "extractMethod path \<noteq> []" by (auto simp: namespace_class_def HasPrefix_def)
  moreover have "(''users.'', ''users_read'', ''users_read'') \<in> set namespaceMap" by (simp add: namespaceMap_def)
  ultimately have "find_first (namespace_class (extractMethod path)) namespaceMap = Some ''users_read''"
    using slack_class_iff [OF refl] by blast
  with ne show "slack_Classify meth path = ''users_read''"
    by (simp add: slack_Classify_def slack_Classify_in_def Let_def)
next
  let ?c = "slack_Classify meth path"
  assume c: "HasSuffix ?c ''_read'' \<and> ?c \<noteq> ''users_read''"
  then have "?c \<noteq> ''unknown''" by (auto simp: HasSuffix_def)
  then obtain e where e: "e \<in> set namespaceMap" "namespace_class (extractMethod path) e = Some ?c"
    using find_first_in_set by (fastforce simp: slack_Classify_def slack_Classify_in_def Let_def split: if_splits option.splits)
  have "list_all (\<lambda>(pre, rd, wr). HasSuffix wr ''_read'' \<longrightarrow> wr = ''users_read'') namespaceMap" by code_simp
  with e c show "isReadMethod (extractMethod path)"
    by (auto simp: namespace_class_def list_all_iff split: if_splits)
qed

theorem slack_Classify_classes_witness:
  "slack_Classify_in (rev namespaceMap) ''POST'' ''/api/users.profile.set'' = ''users_read'' \<and>
   \<not> isReadMethod (extractMethod ''/api/users.profile.set'')"
proof -
  have "HasPrefix (extractMethod ''/api/users.profile.set'') ''users.''" "\<not> isReadMethod (extractMethod ''/api/users.profile.set'')"
    by code_simp+
  then show ?thesis using slack_Classify_classes [of "rev namespaceMap" "''POST''" "''/api/users.profile.set''"] by simp
qed

end
