(* ===== verification/Broker.thy ===== *)
theory Broker
  imports Config Http Json "HOL-Library.Word" "HOL-Library.AList"
begin

text \<open>
  The credential broker (internal/broker: types.go, matcher.go, injector.go, broker.go, pro_client.go):
  which hosts are managed, which credential a request gets, and the headers that are stripped and set.

  What the gateway relies on of a broker is the locale \<open>credential_broker\<close>: a result that says
  \<open>credential_injected\<close> has a credential, and is about the integration and route class asked for. The
  three brokers are interpretations; a broker without state of its own has the unit state.
\<close>

section \<open>Types\<close>

record MatchResult =
  mr_Integration :: string
  mr_Host :: string
  mr_Provider :: string

datatype BrokerDecision = DecisionCredentialInjected | DecisionDeny | DecisionUnavailable | DecisionAllow

primrec decision_text :: "BrokerDecision \<Rightarrow> string" where
  "decision_text DecisionCredentialInjected = ''credential_injected''"
| "decision_text DecisionDeny = ''deny''"
| "decision_text DecisionUnavailable = ''credential_unavailable''"
| "decision_text DecisionAllow = ''allow''"

record Credential =
  cd_HeaderName :: string
  cd_HeaderValue :: string

record BrokerRequest =
  bq_Integration :: string
  bq_RouteClass :: string
  bq_AgentID :: string
  bq_Method :: string
  bq_Path :: string

record BrokerResult =
  br_Decision :: BrokerDecision
  br_Credential :: "Credential option"
  br_Reason :: string
  br_Integration :: string
  br_RouteClass :: string

section \<open>The matcher\<close>

record IntegrationDef =
  id_Name :: string
  id_Hosts :: "string list"
  id_Provider :: string

record IntegrationMatcher =
  im_hostMap :: "(string \<times> string) list"
  im_providerMap :: "(string \<times> string) list"

definition add_def :: "IntegrationDef \<Rightarrow> IntegrationMatcher \<Rightarrow> IntegrationMatcher" where
  "add_def d m =
     m\<lparr>im_hostMap := fold (\<lambda>h. AList.update (ToLower h) (id_Name d)) (id_Hosts d) (im_hostMap m),
       im_providerMap := (if id_Provider d \<noteq> [] then AList.update (id_Name d) (id_Provider d) (im_providerMap m)
                          else im_providerMap m)\<rparr>"

definition NewMatcher :: "IntegrationDef list \<Rightarrow> IntegrationMatcher" where
  "NewMatcher defs = fold add_def defs \<lparr>im_hostMap = [], im_providerMap = []\<rparr>"

text \<open>A missing key of a Go map of strings reads as the empty string.\<close>

definition map_string :: "(string \<times> string) list \<Rightarrow> string \<Rightarrow> string" where
  "map_string m k = (case map_of m k of Some v \<Rightarrow> v | None \<Rightarrow> [])"

definition ProviderForIntegration :: "IntegrationMatcher \<Rightarrow> string \<Rightarrow> string" where
  "ProviderForIntegration m integration = map_string (im_providerMap m) integration"

definition Match :: "IntegrationMatcher \<Rightarrow> string \<Rightarrow> MatchResult option" where
  "Match m hostname =
     (let h = cut_last (CHR '':'') (ToLower hostname) in
      map_option (\<lambda>name. \<lparr>mr_Integration = name, mr_Host = h, mr_Provider = ProviderForIntegration m name\<rparr>)
        (map_of (im_hostMap m) h))"

text \<open>The loops over the host map, in the order \<open>hosts\<close> in which Go visits it.\<close>

definition Integrations :: "(string \<times> string) list \<Rightarrow> string list" where
  "Integrations hosts = dedupe_from {} (map snd hosts)"

definition HostForIntegration :: "(string \<times> string) list \<Rightarrow> string \<Rightarrow> string" where
  "HostForIntegration hosts integration =
     (case find (\<lambda>(h, name). name = integration) hosts of Some (h, name) \<Rightarrow> h | None \<Rightarrow> [])"

section \<open>Headers\<close>

definition authHeaders :: "string list" where
  "authHeaders = [''Authorization'', ''X-Auth-Token'', ''Private-Token'']"

definition StripAuth :: "headers \<Rightarrow> headers" where
  "StripAuth hs = fold header_del authHeaders hs"

definition StripAndInject :: "Credential option \<Rightarrow> headers \<Rightarrow> headers" where
  "StripAndInject cred hs =
     (case cred of None \<Rightarrow> hs
      | Some c \<Rightarrow> header_set (cd_HeaderName c) (cd_HeaderValue c) (fold header_del authHeaders hs))"

section \<open>The brokers\<close>

definition result_for :: "BrokerRequest \<Rightarrow> BrokerDecision \<Rightarrow> Credential option \<Rightarrow> string \<Rightarrow> BrokerResult" where
  "result_for req d c reason =
     \<lparr>br_Decision = d, br_Credential = c, br_Reason = reason, br_Integration = bq_Integration req,
      br_RouteClass = bq_RouteClass req\<rparr>"

type_synonym 's resolver = "BrokerRequest \<Rightarrow> 's \<Rightarrow> (string + BrokerResult) \<times> 's"

definition NoopBroker_Resolve :: "unit resolver" where
  "NoopBroker_Resolve req s = (Inr (result_for req DecisionAllow None ''broker disabled or no credential source''), s)"

record DevStaticConfig =
  ds_TokenEnv :: string
  ds_HeaderName :: string
  ds_Prefix :: string
  ds_NoPrefix :: bool

record staticSource =
  ss_envVar :: string
  ss_headerName :: string
  ss_prefix :: string

definition static_source :: "DevStaticConfig \<Rightarrow> staticSource" where
  "static_source cfg =
     \<lparr>ss_envVar = ds_TokenEnv cfg,
      ss_headerName = (if ds_HeaderName cfg = [] then ''Authorization'' else ds_HeaderName cfg),
      ss_prefix = (if ds_Prefix cfg = [] \<and> \<not> ds_NoPrefix cfg then ''Bearer '' else ds_Prefix cfg)\<rparr>"

definition NewDevStaticBroker :: "(string \<times> DevStaticConfig) list \<Rightarrow> (string \<times> staticSource) list" where
  "NewDevStaticBroker sources = map (\<lambda>(name, cfg). (name, static_source cfg)) sources"

definition DevStaticBroker_Resolve ::
  "(string \<Rightarrow> string) \<Rightarrow> (string \<times> staticSource) list \<Rightarrow> unit resolver" where
  "DevStaticBroker_Resolve getenv sources req s =
     (case map_of sources (bq_Integration req) of
        None \<Rightarrow> (Inr (result_for req DecisionUnavailable None
                  (''no static credential configured for '' @ bq_Integration req)), s)
      | Some src \<Rightarrow>
          (let token = getenv (ss_envVar src) in
           if token = [] then
             (Inr (result_for req DecisionUnavailable None (''env var '' @ ss_envVar src @ '' is empty'')), s)
           else (Inr (result_for req DecisionCredentialInjected
                  (Some \<lparr>cd_HeaderName = ss_headerName src, cd_HeaderValue = ss_prefix src @ token\<rparr>) []), s)))"

section \<open>The Pro client\<close>

record cachedResponse =
  ca_result :: BrokerResult
  ca_expiresAt :: int

record ProBroker =
  pb_proURL :: string
  pb_apiKey :: string
  pb_cache :: "(string \<times> cachedResponse) list"
  pb_calls :: nat   \<comment> \<open>how many requests went to the control plane\<close>

definition NewProBroker :: "(string \<Rightarrow> string) \<Rightarrow> string \<Rightarrow> string \<Rightarrow> ProBroker" where
  "NewProBroker getenv proURL apiKeyEnv =
     \<lparr>pb_proURL = proURL, pb_apiKey = getenv apiKeyEnv, pb_cache = [], pb_calls = 0\<rparr>"

text \<open>The answer of the control plane, after JSON decoding: of the credential its value.\<close>

record ProResponse =
  pr_decision :: string
  pr_credential :: "string option"
  pr_ttl :: int
  pr_reason :: string

text \<open>
  What may happen on the way: \<^verbatim>\<open>http.NewRequest\<close> fails, no answer comes, the body cannot be
  read, the status is not 200, the body does not decode.
\<close>

datatype pro_outcome =
    RequestFailed string
  | Unreachable string
  | BodyFailed string
  | BadStatus nat
  | BadBody string
  | Answered ProResponse

definition second :: int where "second = 1000000000"

definition getCached :: "int \<Rightarrow> string \<Rightarrow> ProBroker \<Rightarrow> BrokerResult option" where
  "getCached now key pb =
     (case map_of (pb_cache pb) key of
        None \<Rightarrow> None
      | Some e \<Rightarrow> if now > ca_expiresAt e then None else Some (ca_result e))"

definition setCached :: "int \<Rightarrow> string \<Rightarrow> BrokerResult \<Rightarrow> int \<Rightarrow> ProBroker \<Rightarrow> ProBroker" where
  "setCached now key result ttl pb =
     pb\<lparr>pb_cache := AList.update key \<lparr>ca_result = result, ca_expiresAt = now + ttl\<rparr> (pb_cache pb)\<rparr>"

definition cache_key :: "BrokerRequest \<Rightarrow> string" where
  "cache_key req = bq_Integration req @ '':'' @ bq_RouteClass req"

definition map_response :: "BrokerRequest \<Rightarrow> ProResponse \<Rightarrow> BrokerResult" where
  "map_response req r =
     (if pr_decision r = ''allow'' then
        (case pr_credential r of
           Some v \<Rightarrow> result_for req DecisionCredentialInjected
                      (Some \<lparr>cd_HeaderName = ''Authorization'', cd_HeaderValue = v\<rparr>) (pr_reason r)
         | None \<Rightarrow> result_for req DecisionAllow None (pr_reason r))
      else if pr_decision r = ''deny'' then result_for req DecisionDeny None (pr_reason r)
      else result_for req DecisionUnavailable None (pr_reason r))"

text \<open>\<^verbatim>\<open>time.Duration(proResp.TTL) * time.Second\<close>, a product of 64-bit integers that may wrap.\<close>

definition cache_ttl :: "ProResponse \<Rightarrow> int" where
  "cache_ttl r =
     (let ttl = sint (word_of_int (pr_ttl r * second) :: 64 word) in if ttl \<le> 0 then 5 * 60 * second else ttl)"

text \<open>\<open>call\<close> is the exchange with the control plane, given the URL, the key and the request.\<close>

definition ProBroker_Resolve ::
  "(string \<Rightarrow> string \<Rightarrow> BrokerRequest \<Rightarrow> pro_outcome) \<Rightarrow> int \<Rightarrow> ProBroker resolver" where
  "ProBroker_Resolve call now req pb =
     (case getCached now (cache_key req) pb of
        Some r \<Rightarrow> (Inr r, pb)
      | None \<Rightarrow>
          (let pb1 = pb\<lparr>pb_calls := pb_calls pb + 1\<rparr> in
           case call (pb_proURL pb @ ''/v1/broker/credential'') (pb_apiKey pb) req of
             RequestFailed e \<Rightarrow> (Inl (''creating request: '' @ e), pb)
           | Unreachable e \<Rightarrow>
               (Inr (result_for req DecisionUnavailable None (''Pro control plane unreachable: '' @ e)), pb1)
           | BodyFailed e \<Rightarrow> (Inl (''reading response: '' @ e), pb1)
           | BadStatus n \<Rightarrow>
               (Inr (result_for req DecisionUnavailable None (''Pro returned status '' @ nat_dec n)), pb1)
           | BadBody e \<Rightarrow> (Inl (''parsing response: '' @ e), pb1)
           | Answered r \<Rightarrow>
               (let result = map_response req r in
                (Inr result, setCached now (cache_key req) result (cache_ttl r) pb1))))"

section \<open>The contract of a broker\<close>

definition lawful_result :: "BrokerResult \<Rightarrow> bool" where
  "lawful_result r \<longleftrightarrow> (br_Decision r = DecisionCredentialInjected \<longleftrightarrow> br_Credential r \<noteq> None)"

text \<open>\<open>asks\<close> are the requests that the client makes.\<close>

locale credential_broker =
  fixes resolve :: "'s resolver" and inv :: "'s \<Rightarrow> bool" and asks :: "BrokerRequest \<Rightarrow> bool"
  assumes resolve_inv: "inv s \<Longrightarrow> asks req \<Longrightarrow> inv (snd (resolve req s))"
    and resolve_lawful: "inv s \<Longrightarrow> asks req \<Longrightarrow> fst (resolve req s) = Inr r \<Longrightarrow> lawful_result r"
    and resolve_subject: "inv s \<Longrightarrow> asks req \<Longrightarrow> fst (resolve req s) = Inr r \<Longrightarrow>
      br_Integration r = bq_Integration req \<and> br_RouteClass r = bq_RouteClass req"
begin

lemma resolve_fold_inv:
  "inv s \<Longrightarrow> \<forall>req \<in> set reqs. asks req \<Longrightarrow> inv (fold (\<lambda>req s. snd (resolve req s)) reqs s)"
  by (induction reqs arbitrary: s) (simp_all add: resolve_inv)

lemma injected_has_credential:
  "inv s \<Longrightarrow> asks req \<Longrightarrow> fst (resolve req s) = Inr r \<Longrightarrow>
   br_Decision r = DecisionCredentialInjected \<Longrightarrow> \<exists>c. br_Credential r = Some c"
  using resolve_lawful [of s req r] by (auto simp: lawful_result_def)

end

lemma result_for_simps [simp]:
  "br_Decision (result_for req d c reason) = d" "br_Credential (result_for req d c reason) = c"
  "br_Integration (result_for req d c reason) = bq_Integration req"
  "br_RouteClass (result_for req d c reason) = bq_RouteClass req"
  by (simp_all add: result_for_def)

interpretation noop: credential_broker NoopBroker_Resolve "\<lambda>_. True" "\<lambda>_. True"
  by unfold_locales (auto simp: NoopBroker_Resolve_def lawful_result_def)

interpretation static: credential_broker "DevStaticBroker_Resolve getenv sources" "\<lambda>_. True" "\<lambda>_. True"
  for getenv sources
  by unfold_locales (auto simp: DevStaticBroker_Resolve_def lawful_result_def Let_def split: option.splits if_splits)

text \<open>
  The Pro client: a route class has no colon (those of the classifiers have none), so a cache key tells
  the integration and the class; and every entry of the cache is what the control plane answered to a
  request with that key.
\<close>

definition plain_class :: "BrokerRequest \<Rightarrow> bool" where
  "plain_class req \<longleftrightarrow> CHR '':'' \<notin> set (bq_RouteClass req)"

definition pro_answered ::
  "(string \<Rightarrow> string \<Rightarrow> BrokerRequest \<Rightarrow> pro_outcome) \<Rightarrow> ProBroker \<Rightarrow> string \<Rightarrow> BrokerResult \<Rightarrow> bool" where
  "pro_answered call pb key r \<longleftrightarrow>
     (\<exists>req a. plain_class req \<and> key = cache_key req \<and>
        call (pb_proURL pb @ ''/v1/broker/credential'') (pb_apiKey pb) req = Answered a \<and> r = map_response req a)"

definition pro_inv :: "(string \<Rightarrow> string \<Rightarrow> BrokerRequest \<Rightarrow> pro_outcome) \<Rightarrow> ProBroker \<Rightarrow> bool" where
  "pro_inv call pb \<longleftrightarrow> (\<forall>key e. map_of (pb_cache pb) key = Some e \<longrightarrow> pro_answered call pb key (ca_result e))"

lemma map_response_simps [simp]:
  "br_Integration (map_response req r) = bq_Integration req" "br_RouteClass (map_response req r) = bq_RouteClass req"
  by (simp_all add: map_response_def split: option.splits)

lemma map_response_lawful: "lawful_result (map_response req r)"
  by (simp add: map_response_def lawful_result_def split: option.splits)

lemma pro_inv_New [inv_intros]: "pro_inv call (NewProBroker getenv url e)"
  by (simp add: pro_inv_def NewProBroker_def)

lemma cache_key_inj:
  assumes "plain_class req" "plain_class req'" "cache_key req = cache_key req'"
  shows "bq_Integration req = bq_Integration req' \<and> bq_RouteClass req = bq_RouteClass req'"
proof -
  have "cut_last (CHR '':'') (cache_key r) = bq_Integration r" if "plain_class r" for r
    using that by (simp add: cache_key_def plain_class_def)
  with assms show ?thesis by (metis append_same_eq cache_key_def same_append_eq)
qed

lemma pro_answered_frame [simp]:
  "pro_answered call (pb\<lparr>pb_cache := c\<rparr>) = pro_answered call pb"
  "pro_answered call (pb\<lparr>pb_calls := n\<rparr>) = pro_answered call pb"
  by (auto simp: pro_answered_def fun_eq_iff)

text \<open>Whether from the cache or from the control plane, a result is the answer to a request of the same key.\<close>

lemma ProBroker_Resolve_cases:
  assumes "pro_inv call pb" "plain_class req" "fst (ProBroker_Resolve call now req pb) = Inr r"
  obtains (answered) "pro_answered call pb (cache_key req) r"
  | (unavailable) reason where "r = result_for req DecisionUnavailable None reason"
proof (cases "getCached now (cache_key req) pb")
  case (Some r')
  with assms(3) have "r' = r" by (simp add: ProBroker_Resolve_def)
  with Some assms(1) show ?thesis
    by (intro answered) (auto simp: getCached_def pro_inv_def split: option.splits if_splits)
next
  case None
  show ?thesis
  proof (cases "call (pb_proURL pb @ ''/v1/broker/credential'') (pb_apiKey pb) req")
    case (Answered a)
    with None assms(2,3) have "pro_answered call pb (cache_key req) r"
      by (auto simp: ProBroker_Resolve_def Let_def pro_answered_def)
    then show ?thesis by (rule answered)
  qed (use None assms(3) in \<open>auto simp: ProBroker_Resolve_def Let_def intro: unavailable\<close>)
qed

lemma ProBroker_Resolve_inv:
  assumes "pro_inv call pb" "plain_class req"
  shows "pro_inv call (snd (ProBroker_Resolve call now req pb))"
proof (cases "getCached now (cache_key req) pb")
  case (Some r)
  with assms(1) show ?thesis by (simp add: ProBroker_Resolve_def)
next
  case None
  show ?thesis
  proof (cases "call (pb_proURL pb @ ''/v1/broker/credential'') (pb_apiKey pb) req")
    case (Answered a)
    with assms(2) have "pro_answered call pb (cache_key req) (map_response req a)"
      by (auto simp: pro_answered_def)
    with None Answered assms(1) show ?thesis
      by (auto simp: ProBroker_Resolve_def Let_def setCached_def pro_inv_def update_conv'
          split: if_splits)
  qed (use None assms(1) in \<open>auto simp: ProBroker_Resolve_def Let_def pro_inv_def\<close>)
qed

interpretation pro: credential_broker "ProBroker_Resolve call now" "pro_inv call" plain_class for call now
proof
  fix s req r
  assume inv: "pro_inv call s" and asks: "plain_class req"
  then show "pro_inv call (snd (ProBroker_Resolve call now req s))" by (rule ProBroker_Resolve_inv)
  assume r: "fst (ProBroker_Resolve call now req s) = Inr r"
  from ProBroker_Resolve_cases [OF inv asks r] show "lawful_result r"
    by cases (auto simp: pro_answered_def map_response_lawful, simp add: lawful_result_def)
  from ProBroker_Resolve_cases [OF inv asks r]
  show "br_Integration r = bq_Integration req \<and> br_RouteClass r = bq_RouteClass req"
    by cases (auto simp: pro_answered_def dest: cache_key_inj [OF asks])
qed

section \<open>Which hosts are managed\<close>

lemma map_of_add_hosts:
  "map_of (fold (\<lambda>h. AList.update (ToLower h) name) hs m) k =
     (if k \<in> ToLower ` set hs then Some name else map_of m k)"
  by (induction hs arbitrary: m) (auto simp: update_conv')

definition defines_host :: "string \<Rightarrow> IntegrationDef \<Rightarrow> bool" where
  "defines_host h d \<longleftrightarrow> h \<in> ToLower ` set (id_Hosts d)"

lemma map_of_add_def:
  "map_of (im_hostMap (add_def d m)) h = (if defines_host h d then Some (id_Name d) else map_of (im_hostMap m) h)"
  by (simp add: add_def_def map_of_add_hosts defines_host_def)

text \<open>The last definition that has a host owns it.\<close>

lemma map_of_hostMap:
  "map_of (im_hostMap (fold add_def defs m)) h =
     (case find (defines_host h) (rev defs) of Some d \<Rightarrow> Some (id_Name d) | None \<Rightarrow> map_of (im_hostMap m) h)"
  by (induction defs arbitrary: m) (simp_all add: find_append map_of_add_def split: option.splits)

lemma Match_Integration:
  "map_option mr_Integration (Match m hostname) = map_of (im_hostMap m) (cut_last (CHR '':'') (ToLower hostname))"
  by (cases "map_of (im_hostMap m) (cut_last (CHR '':'') (ToLower hostname))") (simp_all add: Match_def Let_def)

lemma Match_NewMatcher:
  "map_option mr_Integration (Match (NewMatcher defs) hostname) =
     map_option id_Name (find (defines_host (cut_last (CHR '':'') (ToLower hostname))) (rev defs))"
  unfolding Match_Integration NewMatcher_def map_of_hostMap by (simp split: option.split)

lemma HostForIntegration_nonempty:
  "HostForIntegration hosts i \<noteq> [] \<Longrightarrow> (HostForIntegration hosts i, i) \<in> set hosts"
  unfolding HostForIntegration_def by (induction hosts) (auto split: if_splits)

section \<open>Properties\<close>

text \<open>
  A managed host is recognised in any spelling and with any port: a request for a name without a
  colon, with or without a port, is matched exactly when some definition has that host, in whatever
  case, and then to the last that has it. But a host defined with its port is not matched at all, not
  by a request for that very name.
\<close>

theorem Match_managed:
  assumes "CHR '':'' \<notin> set name" "CHR '':'' \<notin> set port"
  shows "map_option mr_Integration (Match (NewMatcher defs) name) =
      map_option id_Name (find (defines_host (ToLower name)) (rev defs)) \<and>
    Match (NewMatcher defs) (name @ '':'' @ port) = Match (NewMatcher defs) name \<and>
    Match (NewMatcher [\<lparr>id_Name = i, id_Hosts = [name @ '':'' @ port], id_Provider = pr\<rparr>]) (name @ '':'' @ port) = None"
proof -
  have colon: "byte_of (CHR '':'') = 58" by (simp add: byte_of_def)
  have low: "ToLower '':'' = '':''" by code_simp
  have c: "CHR '':'' \<notin> set (ToLower name)" "CHR '':'' \<notin> set (ToLower port)"
    using assms in_set_ToLower [of "CHR '':''"] colon by simp_all
  have cut: "cut_last (CHR '':'') (ToLower name) = ToLower name"
    "cut_last (CHR '':'') (ToLower (name @ '':'' @ port)) = ToLower name"
    unfolding ToLower_append low using c by simp_all
  have "\<not> defines_host (ToLower name) \<lparr>id_Name = i, id_Hosts = [name @ '':'' @ port], id_Provider = pr\<rparr>"
    unfolding defines_host_def using ToLower_append [of name "'':'' @ port"] low by (auto simp del: ToLower_append) 
  with cut(2) have "map_option mr_Integration (Match (NewMatcher [\<lparr>id_Name = i, id_Hosts = [name @ '':'' @ port],
      id_Provider = pr\<rparr>]) (name @ '':'' @ port)) = None"
    unfolding Match_NewMatcher by simp
  then show ?thesis using Match_NewMatcher [of defs name] cut by (simp add: Match_def)
qed

definition github_def :: IntegrationDef where
  "github_def = \<lparr>id_Name = ''github'', id_Hosts = [''api.GitHub.com''], id_Provider = ''github''\<rparr>"

theorem Match_managed_witness:
  "map_option mr_Integration (Match (NewMatcher [github_def]) (''API.github.com'' @ '':'' @ ''443'')) = Some ''github''"
proof -
  have "map_option id_Name (find (defines_host (ToLower ''API.github.com'')) (rev [github_def])) = Some ''github''" by code_simp
  then show ?thesis using Match_managed [of "''API.github.com''" "''443''" "[github_def]" "[]" "[]"] by simp
qed

lemma ProBroker_Resolve_frame [simp]:
  "pb_proURL (snd (ProBroker_Resolve call now req pb)) = pb_proURL pb"
  "pb_apiKey (snd (ProBroker_Resolve call now req pb)) = pb_apiKey pb"
  by (simp_all add: ProBroker_Resolve_def setCached_def Let_def split: option.splits pro_outcome.splits)

text \<open>The Pro client after earlier requests, each at its time.\<close>

definition pro_after ::
  "(string \<Rightarrow> string \<Rightarrow> BrokerRequest \<Rightarrow> pro_outcome) \<Rightarrow> (int \<times> BrokerRequest) list \<Rightarrow> ProBroker \<Rightarrow> ProBroker" where
  "pro_after call earlier pb = fold (\<lambda>(now, req) s. snd (ProBroker_Resolve call now req s)) earlier pb"

lemma pro_after_frame [simp]:
  "pb_proURL (pro_after call earlier pb) = pb_proURL pb" "pb_apiKey (pro_after call earlier pb) = pb_apiKey pb"
  unfolding pro_after_def by (induction earlier arbitrary: pb) auto

lemma pro_after_inv:
  "pro_inv call pb \<Longrightarrow> \<forall>(now, req) \<in> set earlier. plain_class req \<Longrightarrow> pro_inv call (pro_after call earlier pb)"
  unfolding pro_after_def by (induction earlier arbitrary: pb) (auto intro: pro.resolve_inv)

text \<open>
  C35. Where a credential comes from: whatever was asked before and whenever, a credential that the Pro
  client gives for a request is one that the control plane allowed for a request of the same
  integration and the same route class, and goes into the header \<open>Authorization\<close>.
\<close>

theorem pro_credential_origin:
  assumes "\<forall>(t, q) \<in> set earlier. plain_class q" "plain_class req"
    and "fst (ProBroker_Resolve call now req (pro_after call earlier (NewProBroker getenv url e))) = Inr r"
    and "br_Credential r = Some c"
  shows "\<exists>req' a. bq_Integration req' = bq_Integration req \<and> bq_RouteClass req' = bq_RouteClass req \<and>
    call (url @ ''/v1/broker/credential'') (getenv e) req' = Answered a \<and> pr_decision a = ''allow'' \<and>
    pr_credential a = Some (cd_HeaderValue c) \<and> cd_HeaderName c = ''Authorization''"
proof -
  have inv: "pro_inv call (pro_after call earlier (NewProBroker getenv url e))"
    by (rule pro_after_inv [OF pro_inv_New assms(1)])
  consider (answered) "pro_answered call (pro_after call earlier (NewProBroker getenv url e)) (cache_key req) r"
    | (unavailable) reason where "r = result_for req DecisionUnavailable None reason"
    using ProBroker_Resolve_cases [OF inv assms(2,3)] by blast
  then show ?thesis
  proof cases
    case answered
    then obtain req' a where req': "plain_class req'" "cache_key req = cache_key req'"
      "call (url @ ''/v1/broker/credential'') (getenv e) req' = Answered a" "r = map_response req' a"
      by (auto simp: pro_answered_def) (auto simp: NewProBroker_def)
    from cache_key_inj [OF assms(2) req'(1,2)] req' assms(4) show ?thesis
      by (intro exI [of _ req'] exI [of _ a]) (auto simp: map_response_def split: if_splits option.splits)
  qed (use assms(4) in simp)
qed

definition always_allow :: "string \<Rightarrow> string \<Rightarrow> BrokerRequest \<Rightarrow> pro_outcome" where
  "always_allow url key req =
     Answered \<lparr>pr_decision = ''allow'', pr_credential = Some (''token '' @ bq_Path req), pr_ttl = 60, pr_reason = []\<rparr>"

definition ask :: "string \<Rightarrow> string \<Rightarrow> BrokerRequest" where
  "ask meth path = \<lparr>bq_Integration = ''github'', bq_RouteClass = ''unknown'', bq_AgentID = [], bq_Method = meth, bq_Path = path\<rparr>"

theorem pro_credential_origin_witness:
  "\<exists>req' a. bq_Integration req' = ''github'' \<and> bq_RouteClass req' = ''unknown'' \<and>
    always_allow (''u'' @ ''/v1/broker/credential'') ''k'' req' = Answered a \<and> pr_decision a = ''allow'' \<and>
    pr_credential a = Some ''token /a'' \<and> ''Authorization'' = ''Authorization''"
proof -
  have "fst (ProBroker_Resolve always_allow 1 (ask ''DELETE'' ''/b'')
      (pro_after always_allow [(0, ask ''GET'' ''/a'')] (NewProBroker (\<lambda>_. ''k'') ''u'' ''E''))) =
      Inr (map_response (ask ''GET'' ''/a'') \<lparr>pr_decision = ''allow'', pr_credential = Some ''token /a'', pr_ttl = 60, pr_reason = []\<rparr>)"
    by code_simp
  from pro_credential_origin [OF _ _ this, of "\<lparr>cd_HeaderName = ''Authorization'', cd_HeaderValue = ''token /a''\<rparr>"]
  show ?thesis by (simp add: plain_class_def ask_def map_response_def)
qed

text \<open>
  The cache ignores what is asked for: once the control plane has answered one request, every
  request of the same integration and route class, whatever its method and its path, gets that answer
  until it runs out, and the control plane is not asked. All routes the classifier does not know are
  one such class.
\<close>

theorem pro_cache_reuse:
  assumes "getCached now (cache_key req) pb = None"
    and "call (pb_proURL pb @ ''/v1/broker/credential'') (pb_apiKey pb) req = Answered a"
    and "bq_Integration req' = bq_Integration req" "bq_RouteClass req' = bq_RouteClass req"
    and "now' \<le> now + cache_ttl a"
  shows "let pb' = snd (ProBroker_Resolve call now req pb) in
    ProBroker_Resolve call now' req' pb' = (Inr (map_response req a), pb')"
proof -
  have key: "cache_key req' = cache_key req" using assms(3,4) by (simp add: cache_key_def)
  from assms(1,2) have "snd (ProBroker_Resolve call now req pb) =
      setCached now (cache_key req) (map_response req a) (cache_ttl a) (pb\<lparr>pb_calls := pb_calls pb + 1\<rparr>)"
    by (simp add: ProBroker_Resolve_def Let_def)
  moreover have "getCached now' (cache_key req')
      (setCached now (cache_key req) (map_response req a) (cache_ttl a) (pb\<lparr>pb_calls := pb_calls pb + 1\<rparr>))
      = Some (map_response req a)"
    using assms(5) by (simp add: getCached_def setCached_def key update_conv')
  ultimately show ?thesis by (simp add: ProBroker_Resolve_def Let_def)
qed

theorem pro_cache_reuse_witness:
  "let pb' = snd (ProBroker_Resolve always_allow 0 (ask ''GET'' ''/user'') (NewProBroker (\<lambda>_. ''k'') ''u'' ''E'')) in
    ProBroker_Resolve always_allow 5 (ask ''DELETE'' ''/orgs/o'') pb' =
      (Inr (map_response (ask ''GET'' ''/user'')
         \<lparr>pr_decision = ''allow'', pr_credential = Some ''token /user'', pr_ttl = 60, pr_reason = []\<rparr>), pb')"
proof (rule pro_cache_reuse)
  show "5 \<le> 0 + cache_ttl \<lparr>pr_decision = ''allow'', pr_credential = Some ''token /user'', pr_ttl = 60, pr_reason = []\<rparr>"
    by code_simp
qed (simp_all add: getCached_def NewProBroker_def always_allow_def ask_def)

end
