(* ===== verification/Upstream.thy ===== *)
theory Upstream
  imports Http Json
begin

text \<open>
  What the three forwarding handlers (gateway, reverse proxy, forward proxy) share: a request as it is
  sent on, the HTTP client, and the copying of headers.

  The client is the record \<open>http_client\<close>: \<^verbatim>\<open>http.NewRequest\<close>, which may refuse a method and
  a URL, and the exchange, which fails or gives a response whose body may fail to be read. Header
  names keep their spelling; setting and deleting ignore case.
\<close>

record Outgoing =
  og_Method :: string
  og_URL :: string
  og_Headers :: headers
  og_Body :: string

record HttpResponse =
  hr_Status :: nat
  hr_Headers :: headers
  hr_Body :: "string + string"

record http_client =
  hc_new :: "string \<Rightarrow> string \<Rightarrow> string option"
  hc_do :: "Outgoing \<Rightarrow> string + HttpResponse"

datatype answer_body = JsonBody gomap | Bytes string

record answer =
  an_Status :: nat
  an_Headers :: headers
  an_Body :: answer_body

definition json_answer :: "nat \<Rightarrow> gomap \<Rightarrow> answer" where
  "json_answer status m = \<lparr>an_Status = status, an_Headers = [], an_Body = JsonBody m\<rparr>"

definition error_answer :: "nat \<Rightarrow> string \<Rightarrow> answer" where
  "error_answer status e = json_answer status [(''error'', JStr e)]"

section \<open>Copying headers\<close>

definition hop_by_hop :: "string list" where
  "hop_by_hop =
     [''Connection'', ''Keep-Alive'', ''Proxy-Authenticate'', ''Proxy-Authorization'', ''Te'', ''Trailers'',
      ''Transfer-Encoding'', ''Upgrade'']"

text \<open>
  The loop that sets every header that is not skipped, on top of those that are there. With several
  values under one name the last one stays.
\<close>

definition copy_headers :: "(string \<Rightarrow> bool) \<Rightarrow> headers \<Rightarrow> headers \<Rightarrow> headers" where
  "copy_headers skip hs acc = fold (\<lambda>(k, v) acc. if skip k then acc else header_set k v acc) hs acc"

lemma has_header_copy:
  "has_header (copy_headers skip hs acc) k \<longleftrightarrow> has_header acc k \<or> (\<exists>(k', v) \<in> set hs. \<not> skip k' \<and> same_name k' k)"
  unfolding copy_headers_def by (induction hs arbitrary: acc) (auto split: if_splits prod.splits)

text \<open>The last value of a name among the headers that are copied.\<close>

definition last_value :: "(string \<Rightarrow> bool) \<Rightarrow> headers \<Rightarrow> string \<Rightarrow> string option" where
  "last_value skip hs k = map_option snd (find (\<lambda>(k', v). \<not> skip k' \<and> same_name k' k) (rev hs))"

lemma header_get_set_other: "\<not> same_name k k' \<Longrightarrow> header_get (header_set k v hs) k' = header_get hs k'"
proof -
  assume k: "\<not> same_name k k'"
  have "header_get (header_del k hs) k' = header_get hs k'"
  proof (induction hs)
    case (Cons h hs)
    have "\<not> (same_name (fst h) k \<and> same_name (fst h) k')"
      using k same_name_trans [of k "fst h" k'] same_name_sym [of k "fst h"] by blast
    with Cons show ?case by (auto simp: header_get_def header_del_def split: option.splits prod.splits)
  qed (simp add: header_get_def header_del_def)
  with k show ?thesis
    by (simp add: header_set_def header_get_append header_get_none)
qed

lemma header_get_set_same: "same_name k k' \<Longrightarrow> header_get (header_set k v hs) k' = v"
proof -
  assume k: "same_name k k'"
  then have "header_get hs' k' = header_get hs' k" for hs'
    by (simp add: header_get_def same_name_def)
  then show ?thesis by simp
qed

lemma header_get_copy:
  "header_get (copy_headers skip hs acc) k =
     (case last_value skip hs k of Some v \<Rightarrow> v | None \<Rightarrow> header_get acc k)"
proof (induction hs arbitrary: acc)
  case (Cons h hs)
  obtain k' v where h: "h = (k', v)" by (cases h)
  have last: "last_value skip (h # hs) k =
      (case last_value skip hs k of Some w \<Rightarrow> Some w | None \<Rightarrow> if \<not> skip k' \<and> same_name k' k then Some v else None)"
    by (simp add: last_value_def find_append h split: option.splits)
  have "copy_headers skip (h # hs) acc = copy_headers skip hs (if skip k' then acc else header_set k' v acc)"
    by (simp add: copy_headers_def h)
  then show ?case
    by (simp add: Cons.IH last header_get_set_same header_get_set_other split: option.splits)
qed (simp add: copy_headers_def last_value_def)

end
