(* ===== verification/Gateway.thy ===== *)
theory Gateway
  imports Broker Integrations Upstream
begin

text \<open>
  The broker gateway (internal/broker/gateway.go): a request under \<open>/broker/<integration>/<path>\<close>, from
  the lookup of the integration through the classification and the broker's decision to the request
  that is sent on and the answer.

  The broker is a parameter, a resolver with its state, of which the locale \<open>credential_broker\<close> is all
  that is used; so are the HTTP client and the order \<open>hosts\<close> in which Go visits the host map.
\<close>

section \<open>State and events\<close>

record Gateway =
  gw_matcher :: IntegrationMatcher
  gw_registry :: Registry
  gw_mode :: string
  gw_failBeh :: string
  gw_onEvent :: bool
  gw_agentID :: string
  gw_correlationID :: string

definition NewGateway ::
  "IntegrationMatcher \<Rightarrow> Registry \<Rightarrow> string \<Rightarrow> string \<Rightarrow> bool \<Rightarrow> string \<Rightarrow> string \<Rightarrow> Gateway" where
  "NewGateway matcher registry mode failBeh onEvent agentID correlationID =
     \<lparr>gw_matcher = matcher, gw_registry = registry, gw_mode = mode, gw_failBeh = failBeh, gw_onEvent = onEvent,
      gw_agentID = agentID, gw_correlationID = correlationID\<rparr>"

record gateway_event =
  ge_actionType :: string
  ge_target :: string
  ge_decision :: string
  ge_rulePath :: string
  ge_mode :: string
  ge_params :: "(string \<times> string) list"

text \<open>What one request comes to; the panic is the nil dereference of a missing credential.\<close>

record 's handled =
  gh_state :: 's
  gh_events :: "gateway_event list"
  gh_sent :: "Outgoing option"
  gh_answer :: answer

datatype 's gateway_result = Panic | Handled "'s handled"

definition gateway_emit ::
  "Gateway \<Rightarrow> string \<Rightarrow> string \<Rightarrow> string \<Rightarrow> string \<Rightarrow> string \<Rightarrow> string \<Rightarrow> gateway_event list" where
  "gateway_emit g target integration routeClass decision rulePath credSource =
     (if \<not> gw_onEvent g then []
      else [\<lparr>ge_actionType = ''broker_request'', ge_target = target, ge_decision = decision,
             ge_rulePath = rulePath, ge_mode = gw_mode g,
             ge_params = [(''integration'', integration), (''route_class'', routeClass),
                          (''credential_source'', credSource)] @
               (if gw_correlationID g \<noteq> [] then [(''correlation_id'', gw_correlationID g)] else [])\<rparr>])"

section \<open>The request sent on\<close>

definition gateway_hop_by_hop :: "string list" where
  "gateway_hop_by_hop = hop_by_hop @ [''Proxy-Connection'']"

definition upstream_url :: "string \<Rightarrow> string \<Rightarrow> string \<Rightarrow> string" where
  "upstream_url host path queryString =
     (let scheme = (case LastIndexByte host (CHR '':'') of
                      None \<Rightarrow> ''https''
                    | Some i \<Rightarrow> if drop (i + 1) host \<noteq> ''443'' then ''http'' else ''https'')
      in scheme @ ''://'' @ host @ path @ (if queryString \<noteq> [] then CHR ''?'' # queryString else []))"

definition upstream_request :: "string \<Rightarrow> string \<Rightarrow> Credential option \<Rightarrow> Request \<Rightarrow> Outgoing" where
  "upstream_request host path cred r =
     (let copied = copy_headers (\<lambda>k. k \<in> set gateway_hop_by_hop \<or> k = ''Host'') (rq_Headers r) []
      in \<lparr>og_Method = rq_Method r, og_URL = upstream_url host path (rq_Query r),
          og_Headers = (case cred of Some c \<Rightarrow> StripAndInject (Some c) copied | None \<Rightarrow> StripAuth copied),
          og_Body = rq_Body r\<rparr>)"

definition forwardRequest ::
  "http_client \<Rightarrow> string \<Rightarrow> string \<Rightarrow> Credential option \<Rightarrow> Request \<Rightarrow> Outgoing option \<times> answer" where
  "forwardRequest hc host path cred r =
     (case hc_new hc (rq_Method r) (upstream_url host path (rq_Query r)) of
        Some e \<Rightarrow> (None, error_answer 502 ''failed to create upstream request'')
      | None \<Rightarrow>
          (let out = upstream_request host path cred r in
           case hc_do hc out of
             Inl e \<Rightarrow> (Some out, error_answer 502 ''upstream request failed'')
           | Inr resp \<Rightarrow>
               (let hs = copy_headers (\<lambda>k. k \<in> set gateway_hop_by_hop) (hr_Headers resp) [] in
                case hr_Body resp of
                  Inl e \<Rightarrow>
                    (Some out, (error_answer 502 ''failed to read upstream response'')\<lparr>an_Headers := hs\<rparr>)
                | Inr b \<Rightarrow>
                    (Some out, \<lparr>an_Status = hr_Status resp, an_Headers = hs, an_Body = Bytes b\<rparr>))))"

section \<open>The handler\<close>

definition refused :: "'s \<Rightarrow> gateway_event list \<Rightarrow> answer \<Rightarrow> 's gateway_result" where
  "refused s evs a = Handled \<lparr>gh_state = s, gh_events = evs, gh_sent = None, gh_answer = a\<rparr>"

definition forwarded :: "'s \<Rightarrow> gateway_event list \<Rightarrow> Outgoing option \<times> answer \<Rightarrow> 's gateway_result" where
  "forwarded s evs f = Handled \<lparr>gh_state = s, gh_events = evs, gh_sent = fst f, gh_answer = snd f\<rparr>"

text \<open>\<^verbatim>\<open>c.Params("*")\<close> with a leading slash.\<close>

definition gateway_path :: "string \<Rightarrow> string" where
  "gateway_path star = (if star = [] then ''/'' else if \<not> HasPrefix star ''/'' then CHR ''/'' # star else star)"

definition broker_request :: "Gateway \<Rightarrow> string \<Rightarrow> string \<Rightarrow> string \<Rightarrow> BrokerRequest" where
  "broker_request g integration meth path =
     \<lparr>bq_Integration = integration,
      bq_RouteClass = ClassifyForProvider (gw_registry g) (ProviderForIntegration (gw_matcher g) integration) meth path,
      bq_AgentID = gw_agentID g, bq_Method = meth, bq_Path = path\<rparr>"

definition Gateway_Handler ::
  "http_client \<Rightarrow> 's resolver \<Rightarrow> (string \<times> string) list \<Rightarrow> Gateway \<Rightarrow> string \<Rightarrow> string \<Rightarrow> Request \<Rightarrow> 's \<Rightarrow>
   's gateway_result" where
  "Gateway_Handler hc resolve hosts g integration star r s =
     (if integration = [] then refused s [] (error_answer 400 ''missing integration name in path'')
      else
        (let path = gateway_path star; host = HostForIntegration hosts integration in
         if host = [] then refused s [] (error_answer 404 (''unknown integration: '' @ integration))
         else
           (let req = broker_request g integration (rq_Method r) path;
                (res, s') = resolve req s;
                emit = (\<lambda>d rule cred. gateway_emit g path integration (bq_RouteClass req) (decision_text d)
                          (''broker/'' @ integration @ rule) cred);
                closed = (gw_failBeh g = ''closed'' \<and> gw_mode g = ''enforce'')
            in case res of
                 Inl e \<Rightarrow>
                   (let evs = emit DecisionUnavailable ''/error'' [] in
                    if closed then refused s' evs (json_answer 403
                        [(''error'', JStr ''credential broker error (fail-closed)''), (''detail'', JStr e)])
                    else forwarded s' evs (forwardRequest hc host path None r))
               | Inr result \<Rightarrow>
                   (case br_Decision result of
                      DecisionCredentialInjected \<Rightarrow>
                        (case br_Credential result of
                           None \<Rightarrow> Panic
                         | Some c \<Rightarrow> forwarded s' (emit DecisionCredentialInjected ''/injected'' (cd_HeaderName c))
                                      (forwardRequest hc host path (Some c) r))
                    | DecisionDeny \<Rightarrow>
                        (let evs = emit DecisionDeny ''/deny'' [] in
                         if gw_mode g = ''enforce'' then refused s' evs (json_answer 403
                             [(''error'', JStr ''broker denied request''), (''reason'', JStr (br_Reason result))])
                         else forwarded s' evs (forwardRequest hc host path None r))
                    | DecisionUnavailable \<Rightarrow>
                        (let evs = emit DecisionUnavailable ''/unavailable'' [] in
                         if closed then refused s' evs (json_answer 403
                             [(''error'', JStr ''no credential available for managed integration''),
                              (''reason'', JStr (br_Reason result))])
                         else forwarded s' evs (forwardRequest hc host path None r))
                    | DecisionAllow \<Rightarrow>
                        forwarded s' (emit DecisionAllow ''/passthrough'' []) (forwardRequest hc host path None r)))))"

section \<open>What is sent\<close>

lemma has_header_StripAuth: "has_header (StripAuth hs) k \<longleftrightarrow> has_header hs k \<and> \<not> list_ex (\<lambda>a. same_name a k) authHeaders"
  unfolding StripAuth_def by (rule has_header_fold_del)

lemma has_header_StripAndInject:
  "has_header (StripAndInject (Some c) hs) k \<longleftrightarrow>
     same_name (cd_HeaderName c) k \<or> (has_header hs k \<and> \<not> list_ex (\<lambda>a. same_name a k) authHeaders)"
  by (simp add: StripAndInject_def has_header_fold_del)

lemma header_get_StripAndInject:
  "same_name (cd_HeaderName c) k \<Longrightarrow> header_get (StripAndInject (Some c) hs) k = cd_HeaderValue c"
  by (simp add: StripAndInject_def header_get_set_same)

lemma forwardRequest_sent: "fst (forwardRequest hc host path cred r) \<in> {None, Some (upstream_request host path cred r)}"
  by (auto simp: forwardRequest_def Let_def split: option.splits sum.splits)

text \<open>
  What the handler sent and why: the request is built for the integration's host with the credential of
  the broker's result, or with none.
\<close>

definition broker_answer :: "'s resolver \<Rightarrow> Gateway \<Rightarrow> string \<Rightarrow> string \<Rightarrow> Request \<Rightarrow> 's \<Rightarrow> string + BrokerResult" where
  "broker_answer resolve g integration star r s =
     fst (resolve (broker_request g integration (rq_Method r) (gateway_path star)) s)"

definition may_send :: "Gateway \<Rightarrow> string + BrokerResult \<Rightarrow> Credential option \<Rightarrow> bool" where
  "may_send g res cred \<longleftrightarrow>
     (case res of
        Inl _ \<Rightarrow> cred = None \<and> \<not> (gw_failBeh g = ''closed'' \<and> gw_mode g = ''enforce'')
      | Inr result \<Rightarrow>
          (case br_Decision result of
             DecisionCredentialInjected \<Rightarrow> cred \<noteq> None \<and> br_Credential result = cred
           | DecisionDeny \<Rightarrow> cred = None \<and> gw_mode g \<noteq> ''enforce''
           | DecisionUnavailable \<Rightarrow> cred = None \<and> \<not> (gw_failBeh g = ''closed'' \<and> gw_mode g = ''enforce'')
           | DecisionAllow \<Rightarrow> cred = None))"

lemma forwarded_sent:
  "forwarded s evs (forwardRequest hc host path cred r) = Handled h \<Longrightarrow> gh_sent h = Some out \<Longrightarrow>
     out = upstream_request host path cred r"
  using forwardRequest_sent [of hc host path cred r] by (auto simp: forwarded_def)

lemma Gateway_sent:
  assumes "Gateway_Handler hc resolve hosts g integration star r s = Handled h" "gh_sent h = Some out"
  obtains cred where "out = upstream_request (HostForIntegration hosts integration) (gateway_path star) cred r"
    "HostForIntegration hosts integration \<noteq> []" "may_send g (broker_answer resolve g integration star r s) cred"
proof -
  obtain res s' where res: "resolve (broker_request g integration (rq_Method r) (gateway_path star)) s = (res, s')"
    by fastforce
  then have ans: "broker_answer resolve g integration star r s = res" by (simp add: broker_answer_def)
  have host: "integration \<noteq> []" "HostForIntegration hosts integration \<noteq> []"
    using assms by (auto simp: Gateway_Handler_def refused_def Let_def split: if_splits)
  note * = assms(1) [unfolded Gateway_Handler_def Let_def res]
  show thesis
  proof (cases res)
    case (Inl e)
    with * host assms(2) show thesis
      by (intro that [of None])
        (auto simp: refused_def ans may_send_def dest!: forwarded_sent split: if_splits)
  next
    case (Inr result)
    show thesis
    proof (cases "br_Decision result")
      case DecisionCredentialInjected
      with * host Inr assms(2) obtain c where "br_Credential result = Some c"
        "out = upstream_request (HostForIntegration hosts integration) (gateway_path star) (Some c) r"
        by (auto dest!: forwarded_sent split: option.splits)
      with host Inr DecisionCredentialInjected show thesis by (intro that [of "Some c"]) (simp_all add: ans may_send_def)
    next
      case DecisionDeny
      with * host Inr assms(2) show thesis
        by (intro that [of None]) (auto simp: refused_def ans may_send_def dest!: forwarded_sent split: if_splits)
    next
      case DecisionUnavailable
      with * host Inr assms(2) show thesis
        by (intro that [of None]) (auto simp: refused_def ans may_send_def dest!: forwarded_sent split: if_splits)
    next
      case DecisionAllow
      with * host Inr assms(2) show thesis
        by (intro that [of None]) (auto simp: ans may_send_def dest!: forwarded_sent)
    qed
  qed
qed

section \<open>The gateway against the contract of its broker\<close>

context credential_broker
begin

lemma gateway_safe:
  assumes "inv s" "asks (broker_request g integration (rq_Method r) (gateway_path star))"
  shows "\<exists>h. Gateway_Handler hc resolve hosts g integration star r s = Handled h \<and> inv (gh_state h)"
proof -
  let ?req = "broker_request g integration (rq_Method r) (gateway_path star)"
  obtain res s' where res: "resolve ?req s = (res, s')" by fastforce
  have inv': "inv s'" using resolve_inv [OF assms] res by simp
  have cred: "\<exists>c. br_Credential result = Some c"
    if "res = Inr result" "br_Decision result = DecisionCredentialInjected" for result
    using injected_has_credential [OF assms _ that(2)] that(1) res by simp
  show ?thesis
    unfolding Gateway_Handler_def Let_def res
    using assms(1) inv' by (auto simp: forwarded_def refused_def dest!: cred split: sum.split BrokerDecision.split)
qed

end

text \<open>The program's registry answers classes without a colon, which is what the Pro client needs.\<close>

lemma main_registry_plain:
  assumes "gw_registry g = main_registry"
  shows "plain_class (broker_request g integration meth path)"
proof -
  have "lawful_registry main_registry"
    unfolding main_registry_def by (intro inv_intros github.route_classifier_axioms)
  have "list_all (\<lambda>c. CHR '':'' \<notin> set c) (''unknown'' # rc_RouteClasses github_Classifier)" by code_simp
  moreover have "ClassifyForProvider main_registry p meth path \<in> set (''unknown'' # rc_RouteClasses github_Classifier)" for p
    using github.classified [of meth path]
    by (auto simp: ClassifyForProvider_def main_registry_def Register_def NewRegistry_def split: option.splits if_splits)
  ultimately show ?thesis
    unfolding plain_class_def broker_request_def assms list_all_iff by (metis BrokerRequest.simps(2) set_ConsD list.set_intros(1) list.set_intros(2))
qed

section \<open>Properties\<close>

text \<open>
  C5. No credential of an agent leaves through the gateway: whatever a request that is sent carries under
  the name of an authentication header, in any spelling, is the credential that the broker injected.
\<close>

theorem gateway_credentials:
  assumes "Gateway_Handler hc resolve hosts g integration star r s = Handled h" "gh_sent h = Some out"
    and "a \<in> set authHeaders" "same_name a k" "has_header (og_Headers out) k"
  shows "\<exists>result c. broker_answer resolve g integration star r s = Inr result \<and>
    br_Decision result = DecisionCredentialInjected \<and> br_Credential result = Some c \<and>
    same_name (cd_HeaderName c) k \<and> header_get (og_Headers out) k = cd_HeaderValue c"
proof -
  from Gateway_sent [OF assms(1,2)] obtain cred where
    out: "out = upstream_request (HostForIntegration hosts integration) (gateway_path star) cred r" and
    ms: "may_send g (broker_answer resolve g integration star r s) cred" by blast
  have auth: "list_ex (\<lambda>a. same_name a k) authHeaders" using assms(3,4) by (auto simp: list_ex_iff)
  show ?thesis
  proof (cases cred)
    case None
    with out auth assms(5) show ?thesis
      by (simp add: upstream_request_def Let_def has_header_StripAuth)
  next
    case (Some c)
    with out auth assms(5) have "same_name (cd_HeaderName c) k" "header_get (og_Headers out) k = cd_HeaderValue c"
      by (simp_all add: upstream_request_def Let_def has_header_StripAndInject header_get_StripAndInject)
    with ms Some show ?thesis by (auto simp: may_send_def split: sum.splits BrokerDecision.splits)
  qed
qed

definition demo_gateway :: Gateway where
  "demo_gateway =
     \<lparr>gw_matcher = NewMatcher [github_def], gw_registry = main_registry, gw_mode = ''enforce'',
      gw_failBeh = ''closed'', gw_onEvent = True, gw_agentID = ''a1'', gw_correlationID = []\<rparr>"

definition demo_client :: http_client where
  "demo_client = \<lparr>hc_new = (\<lambda>_ _. None), hc_do = (\<lambda>_. Inr \<lparr>hr_Status = 200, hr_Headers = [], hr_Body = Inr ''ok''\<rparr>)\<rparr>"

definition demo_sources :: "(string \<times> staticSource) list" where
  "demo_sources = [(''github'', \<lparr>ss_envVar = ''TOKEN'', ss_headerName = ''Authorization'', ss_prefix = ''Bearer ''\<rparr>)]"

definition demo_request :: Request where
  "demo_request =
     \<lparr>rq_Method = ''GET'', rq_Host = ''localhost'', rq_Path = ''/broker/github/user'', rq_Query = [],
      rq_IP = ''127.0.0.1'', rq_Headers = [(''authorization'', ''stolen''), (''Accept'', ''json'')], rq_Body = []\<rparr>"

definition demo_handled :: "unit handled" where
  "demo_handled =
     \<lparr>gh_state = (),
      gh_events = gateway_emit demo_gateway ''/user'' ''github'' ''unknown'' ''credential_injected''
        ''broker/github/injected'' ''Authorization'',
      gh_sent = Some \<lparr>og_Method = ''GET'', og_URL = ''https://api.github.com/user'',
        og_Headers = [(''Accept'', ''json''), (''Authorization'', ''Bearer t'')], og_Body = []\<rparr>,
      gh_answer = \<lparr>an_Status = 200, an_Headers = [], an_Body = Bytes ''ok''\<rparr>\<rparr>"

lemma demo_gateway_run:
  "Gateway_Handler demo_client (DevStaticBroker_Resolve (\<lambda>_. ''t'') demo_sources)
     (im_hostMap (gw_matcher demo_gateway)) demo_gateway ''github'' ''user'' demo_request () = Handled demo_handled"
  by code_simp

theorem gateway_credentials_witness:
  "\<exists>result c. broker_answer (DevStaticBroker_Resolve (\<lambda>_. ''t'') demo_sources) demo_gateway ''github'' ''user''
      demo_request () = Inr result \<and>
    br_Decision result = DecisionCredentialInjected \<and> br_Credential result = Some c \<and>
    same_name (cd_HeaderName c) ''AUTHORIZATION'' \<and>
    header_get [(''Accept'', ''json''), (''Authorization'', ''Bearer t'')] ''AUTHORIZATION'' = cd_HeaderValue c"
proof -
  have 1: "''Authorization'' \<in> set authHeaders" "same_name ''Authorization'' ''AUTHORIZATION''" by code_simp+
  have 2: "has_header [(''Accept'', ''json''), (''Authorization'', ''Bearer t'')] ''AUTHORIZATION''" by code_simp
  show ?thesis
    using gateway_credentials [OF demo_gateway_run _ 1,
      of "\<lparr>og_Method = ''GET'', og_URL = ''https://api.github.com/user'',
        og_Headers = [(''Accept'', ''json''), (''Authorization'', ''Bearer t'')], og_Body = []\<rparr>"] 2
    by (simp add: demo_handled_def)
qed

text \<open>
  C19. In enforce mode the gateway enforces: a request the broker denied is not sent. With failure
  behaviour \<open>closed\<close> as well, a request is only sent when the broker answered, and injected a credential
  or let it pass. And a request is only ever sent to a host that the matcher has for the integration.
\<close>

theorem gateway_fail_closed:
  assumes "Gateway_Handler hc resolve hosts g integration star r s = Handled h" "gh_sent h = Some out"
    and "gw_mode g = ''enforce''"
  shows "(\<exists>host cred. (host, integration) \<in> set hosts \<and> out = upstream_request host (gateway_path star) cred r) \<and>
    (case broker_answer resolve g integration star r s of
       Inl e \<Rightarrow> gw_failBeh g \<noteq> ''closed''
     | Inr result \<Rightarrow> br_Decision result \<noteq> DecisionDeny \<and>
         (br_Decision result = DecisionUnavailable \<longrightarrow> gw_failBeh g \<noteq> ''closed''))"
proof -
  from Gateway_sent [OF assms(1,2)] obtain cred where
    out: "out = upstream_request (HostForIntegration hosts integration) (gateway_path star) cred r"
      "HostForIntegration hosts integration \<noteq> []" and
    ms: "may_send g (broker_answer resolve g integration star r s) cred" by blast
  from ms assms(3) show ?thesis
    using HostForIntegration_nonempty [OF out(2)] out(1)
    by (auto simp: may_send_def split: sum.splits BrokerDecision.splits)
qed

theorem gateway_fail_closed_witness:
  "(\<exists>host cred. (host, ''github'') \<in> set (im_hostMap (gw_matcher demo_gateway)) \<and>
    \<lparr>og_Method = ''GET'', og_URL = ''https://api.github.com/user'',
      og_Headers = [(''Accept'', ''json''), (''Authorization'', ''Bearer t'')], og_Body = []\<rparr>
    = upstream_request host (gateway_path ''user'') cred demo_request)"
  using gateway_fail_closed [OF demo_gateway_run,
      of "\<lparr>og_Method = ''GET'', og_URL = ''https://api.github.com/user'',
        og_Headers = [(''Accept'', ''json''), (''Authorization'', ''Bearer t'')], og_Body = []\<rparr>"]
  by (simp add: demo_handled_def demo_gateway_def)

end
