(* ===== verification/Reverse_Proxy.thy ===== *)
theory Reverse_Proxy
  imports Normalize Egress Approval Upstream
begin

text \<open>
  The reverse proxy in front of the agent (internal/proxy/proxy.go): the checks of a request, the wait
  for an operator, and what is sent to the upstream and answered.

  Parameters, in the record \<open>proxy_env\<close>: the HTTP client, decoding a body into a JSON object,
  \<^verbatim>\<open>websocket.IsWebSocketUpgrade\<close>, what the wait for an approval decides, the identifier of
  a new pending command, the store's write error, the clock, the correlation identifier made from it,
  which of the streamed lines the client still takes, and what a failing body gave before it failed.
  An upgrade gives the URL the WebSocket handler dials; its two pumps are over what the reads and
  writes of the connections give.
\<close>

section \<open>Data\<close>

record ReverseProxy =
  rv_upstream :: string
  rv_policy :: RiskPolicyConfig
  rv_egress :: EgressConfig
  rv_toolInterception :: bool

definition NewReverseProxy :: "Config \<Rightarrow> ReverseProxy" where
  "NewReverseProxy cfg =
     \<lparr>rv_upstream = cf_Upstream cfg, rv_policy = cf_RiskPolicy cfg, rv_egress = cf_Egress cfg,
      rv_toolInterception = cf_ToolInterception cfg\<rparr>"

record ProxyRequest = Request +
  rq_OriginalURL :: string

record proxy_env =
  pe_http :: http_client
  pe_decode :: "string \<Rightarrow> string + gomap"
  pe_upgrade :: "ProxyRequest \<Rightarrow> bool"
  pe_await :: "string \<Rightarrow> Queue \<Rightarrow> Decision \<times> Queue"
  pe_fresh_id :: string
  pe_store_io :: "string option"
  pe_now :: int
  pe_fresh_correlation :: string
  pe_takes :: "nat \<Rightarrow> bool"
  pe_partial :: "HttpResponse \<Rightarrow> string"

text \<open>What the handler changes: the queue, the notifications it sent, and the requests sent upstream.\<close>

record proxy_state =
  ps_queue :: Queue
  ps_notified :: "PendingCommand list"
  ps_sent :: "Outgoing list"

datatype reply = Answer answer | Streamed nat headers string | Tunnel string

section \<open>Helpers\<close>

definition isHopByHopHeader :: "string \<Rightarrow> bool" where
  "isHopByHopHeader header = (header \<in> set hop_by_hop)"

definition isStreamingRequest :: "headers \<Rightarrow> bool" where
  "isStreamingRequest hs =
     (let accept = header_get hs ''Accept'' in
      Contains accept ''text/event-stream'' \<or> Contains accept ''application/x-ndjson'' \<or>
      Contains accept ''application/stream+json'')"

definition truncateCommand :: "string \<Rightarrow> string" where
  "truncateCommand cmd = (if length cmd > 100 then take 100 cmd @ ''...'' else cmd)"

definition proxyCommandTools :: "string list" where
  "proxyCommandTools =
     [''bash'', ''shell'', ''terminal'', ''execute'', ''run'', ''execute_bash'', ''run_command'', ''command'',
      ''sh'', ''exec'', ''system'', ''subprocess'', ''cmd'']"

definition proxy_isCommandTool :: "string \<Rightarrow> bool" where
  "proxy_isCommandTool toolName =
     (let toolLower = ToLower toolName in
      list_ex (\<lambda>ct. toolLower = ct \<or> Contains toolLower ct) proxyCommandTools)"

definition extractCommandFromInput :: "gomap \<Rightarrow> string" where
  "extractCommandFromInput input =
     (case first_string [''command'', ''cmd'', ''script'', ''code'', ''input'', ''CommandLine'', ''shell_command''] input of
        Some s \<Rightarrow> s | None \<Rightarrow> [])"

definition HealthHandler :: "string \<Rightarrow> answer" where
  "HealthHandler now =
     json_answer 200 [(''status'', JStr ''ok''), (''service'', JStr ''parachute''), (''time'', JStr now)]"

definition VersionHandler :: "string \<Rightarrow> answer" where
  "VersionHandler version =
     json_answer 200 [(''version'', JStr version), (''service'', JStr ''parachute''), (''goVersion'', JStr ''go1.21+'')]"

section \<open>Forwarding\<close>

text \<open>The path sent on: without the prefix \<^verbatim>\<open>/proxy\<close>.\<close>

definition proxy_path :: "string \<Rightarrow> string" where
  "proxy_path path =
     (if HasPrefix path ''/proxy''
      then (let p = TrimPrefix path ''/proxy'' in if p = [] then ''/'' else p)
      else path)"

definition proxy_outgoing :: "ReverseProxy \<Rightarrow> ProxyRequest \<Rightarrow> Outgoing" where
  "proxy_outgoing p r =
     \<lparr>og_Method = rq_Method r, og_URL = rv_upstream p @ proxy_path (rq_OriginalURL r),
      og_Headers = copy_headers isHopByHopHeader (rq_Headers r) [], og_Body = rq_Body r\<rparr>"

definition sent :: "Outgoing \<Rightarrow> proxy_state \<Rightarrow> proxy_state" where
  "sent out s = s\<lparr>ps_sent := ps_sent s @ [out]\<rparr>"

definition handleStandardRequest ::
  "proxy_env \<Rightarrow> ReverseProxy \<Rightarrow> ProxyRequest \<Rightarrow> proxy_state \<Rightarrow> reply \<times> proxy_state" where
  "handleStandardRequest en p r s =
     (let out = proxy_outgoing p r in
      case hc_new (pe_http en) (og_Method out) (og_URL out) of
        Some e \<Rightarrow> (Answer (error_answer 500 ''failed to create upstream request''), s)
      | None \<Rightarrow>
          (case hc_do (pe_http en) out of
             Inl e \<Rightarrow> (Answer (error_answer 502 ''upstream request failed''), sent out s)
           | Inr resp \<Rightarrow>
               (case hr_Body resp of
                  Inl e \<Rightarrow> (Answer (error_answer 500 ''failed to read upstream response''), sent out s)
                | Inr b \<Rightarrow>
                    (Answer \<lparr>an_Status = hr_Status resp,
                       an_Headers = copy_headers isHopByHopHeader (hr_Headers resp) [], an_Body = Bytes b\<rparr>,
                     sent out s))))"

text \<open>\<^verbatim>\<open>reader.ReadBytes('\n')\<close>: a whole line with its end, or an error when the data ends first.\<close>

fun read_line :: "string \<Rightarrow> (string \<times> string) option" where
  "read_line [] = None"
| "read_line (c # s) =
     (if c = newline then Some ([c], s) else map_option (\<lambda>(l, rest). (c # l, rest)) (read_line s))"

lemma read_line_split: "read_line s = Some (l, rest) \<Longrightarrow> s = l @ rest \<and> l \<noteq> []"
  by (induction s arbitrary: l) (auto split: if_splits)

text \<open>
  The loop of the stream writer: an error of the reader ends it before what was read with the error is
  written; a line the client does not take ends it too.
\<close>

function stream_loop :: "(nat \<Rightarrow> bool) \<Rightarrow> nat \<Rightarrow> string \<Rightarrow> string" where
  "stream_loop takes i s =
     (case read_line s of
        None \<Rightarrow> []
      | Some (l, rest) \<Rightarrow> if takes i then l @ stream_loop takes (i + 1) rest else [])"
  by pat_completeness auto
termination
  by (relation "measure (\<lambda>(_, _, s). length s)") (auto dest!: read_line_split)

declare stream_loop.simps [simp del]

definition handleStreaming ::
  "proxy_env \<Rightarrow> ReverseProxy \<Rightarrow> ProxyRequest \<Rightarrow> proxy_state \<Rightarrow> reply \<times> proxy_state" where
  "handleStreaming en p r s =
     (let out = proxy_outgoing p r in
      case hc_new (pe_http en) (og_Method out) (og_URL out) of
        Some e \<Rightarrow> (Answer (error_answer 500 ''failed to create upstream request''), s)
      | None \<Rightarrow>
          (case hc_do (pe_http en) out of
             Inl e \<Rightarrow> (Answer (error_answer 502 ''upstream request failed''), sent out s)
           | Inr resp \<Rightarrow>
               (Streamed (hr_Status resp)
                  [(''Content-Type'', header_get (hr_Headers resp) ''Content-Type''),
                   (''Cache-Control'', ''no-cache''), (''Connection'', ''keep-alive'')]
                  (stream_loop (pe_takes en) 0
                     (case hr_Body resp of Inr b \<Rightarrow> b | Inl e \<Rightarrow> pe_partial en resp)),
                sent out s)))"

text \<open>\<^verbatim>\<open>strings.Replace(s, old, new, 1)\<close>\<close>

fun replace_first :: "string \<Rightarrow> string \<Rightarrow> string \<Rightarrow> string" where
  "replace_first [] old new = (if old = [] then new else [])"
| "replace_first (c # s) old new =
     (if HasPrefix (c # s) old then new @ drop (length old) (c # s) else c # replace_first s old new)"

definition websocket_url :: "ReverseProxy \<Rightarrow> string \<Rightarrow> string" where
  "websocket_url p path =
     (let path' = (if path = [] then ''/'' else path) in
      replace_first (replace_first (rv_upstream p @ path') ''http://'' ''ws://'') ''https://'' ''wss://'')"

definition handleWebSocket :: "ReverseProxy \<Rightarrow> ProxyRequest \<Rightarrow> proxy_state \<Rightarrow> reply \<times> proxy_state" where
  "handleWebSocket p r s = (Tunnel (websocket_url p (proxy_path (rq_OriginalURL r))), s)"

text \<open>
  One direction of an open WebSocket, over what the reads of its source give: an error of a read or of
  a write ends it, and the message of a failed write is lost. The result is what was written and
  whether the pump has ended.
\<close>

fun ws_pump :: "(nat \<Rightarrow> string option) \<Rightarrow> nat \<Rightarrow> (string + 'm) list \<Rightarrow> 'm list \<times> bool" where
  "ws_pump wr i [] = ([], False)"
| "ws_pump wr i (Inl e # _) = ([], True)"
| "ws_pump wr i (Inr m # reads) =
     (case wr i of
        Some e \<Rightarrow> ([], True)
      | None \<Rightarrow> (let (out, ended) = ws_pump wr (i + 1) reads in (m # out, ended)))"

text \<open>
  The handler after the upgrade: the upstream it dials and, when that works, what went to the upstream
  and to the client, and whether both pumps have ended, so that the connections are closed.
\<close>

definition WebSocketHandler ::
  "(string \<Rightarrow> string option) \<Rightarrow> (nat \<Rightarrow> string option) \<Rightarrow> (nat \<Rightarrow> string option) \<Rightarrow> ReverseProxy \<Rightarrow> string \<Rightarrow>
   (string + 'm) list \<Rightarrow> (string + 'm) list \<Rightarrow> string \<times> ('m list \<times> 'm list \<times> bool) option" where
  "WebSocketHandler dial up_write down_write p path from_client from_upstream =
     (let url = websocket_url p path in
      (url, case dial url of
              Some e \<Rightarrow> None
            | None \<Rightarrow>
                (let (up, e1) = ws_pump up_write 0 from_client; (down, e2) = ws_pump down_write 0 from_upstream
                 in Some (up, down, e1 \<and> e2))))"

lemma ws_pump_relays:
  "\<forall>i. wr i = None \<Longrightarrow> ws_pump wr i reads = (map projr (takeWhile (Not \<circ> isl) reads), list_ex isl reads)"
proof (induction reads arbitrary: i)
  case (Cons x reads)
  then show ?case by (cases x) auto
qed simp

text \<open>While the writes work, each side gets the other side's messages in order up to the first error of a read.\<close>

lemma WebSocketHandler_relays:
  assumes "\<forall>url. dial url = None" "\<forall>i. up_write i = None" "\<forall>i. down_write i = None"
  shows "snd (WebSocketHandler dial up_write down_write p path from_client from_upstream) =
    Some (map projr (takeWhile (Not \<circ> isl) from_client), map projr (takeWhile (Not \<circ> isl) from_upstream),
      list_ex isl from_client \<and> list_ex isl from_upstream)"
  using assms by (simp add: WebSocketHandler_def ws_pump_relays [OF assms(2)] ws_pump_relays [OF assms(3)] Let_def)

section \<open>Checks\<close>

text \<open>
  Adding a pending command, the notification (whose error is only logged) and the wait.
\<close>

definition ask_operator ::
  "proxy_env \<Rightarrow> string \<Rightarrow> string \<Rightarrow> string \<Rightarrow> gomap \<Rightarrow> proxy_state \<Rightarrow> Decision \<times> proxy_state" where
  "ask_operator en command tool reason args s =
     (let (i, q) = Queue_Add (pe_store_io en) (pe_fresh_id en) (pe_now en) command tool reason (Some (JObj args))
                     (ps_queue s);
          pc = q_heap q ! i;
          (d, q') = pe_await en (pc_ID pc) q
      in (d, s\<lparr>ps_queue := q', ps_notified := ps_notified s @ [pc]\<rparr>))"

definition checkToolCalls ::
  "proxy_env \<Rightarrow> ReverseProxy \<Rightarrow> string \<Rightarrow> proxy_state \<Rightarrow> (bool \<times> string option) \<times> proxy_state" where
  "checkToolCalls en p body s =
     (case pe_decode en body of
        Inl e \<Rightarrow> ((False, None), s)
      | Inr data \<Rightarrow>
          (case ParseToolCallFromJSON data of
             None \<Rightarrow> ((False, None), s)
           | Some tc0 \<Rightarrow>
               (let (tc, result) = Check (rv_policy p) tc0 in
                case rs_Action result of
                  ActionBlock \<Rightarrow> ((True, None), s)
                | ActionPending \<Rightarrow>
                    (let (d, s') = ask_operator en (tc_Command tc) (tc_Name tc) (rs_Reason result) (tc_Args tc) s in
                     case d of
                       DecisionApproved \<Rightarrow> ((False, None), s')
                     | DecisionDenied \<Rightarrow> ((True, None), s')
                     | _ \<Rightarrow> ((True, Some ''approval timed out''), s'))
                | ActionAllow \<Rightarrow> ((False, None), s))))"

definition tool_answer :: "nat \<Rightarrow> string \<Rightarrow> string \<Rightarrow> string \<Rightarrow> string \<Rightarrow> reply" where
  "tool_answer status e tool reason correlationID =
     Answer (json_answer status
       [(''error'', JStr e), (''tool'', JStr tool), (''reason'', JStr reason), (''blocked'', JBool True),
        (''correlation_id'', JStr correlationID)])"

definition handleOpenClawToolInvoke ::
  "proxy_env \<Rightarrow> ReverseProxy \<Rightarrow> ProxyRequest \<Rightarrow> proxy_state \<Rightarrow> reply \<times> proxy_state" where
  "handleOpenClawToolInvoke en p r s =
     (let given = header_get (rq_Headers r) ''X-Correlation-ID'';
          correlationID = (if given = [] then pe_fresh_correlation en else given)
      in case NormalizeToolInvoke (pe_decode en) (rq_Body r) of
           Inl e \<Rightarrow>
             (Answer (json_answer 400
                [(''error'', JStr ''unable to parse tool invocation request''),
                 (''reason'', JStr ''request does not match any known tool invocation format''),
                 (''blocked'', JBool True), (''correlation_id'', JStr correlationID),
                 (''hint'', JStr (''expected formats: {tool,input}, {tool,args}, {action,args}, {name,args}, '' @
                    ''{tool_name,tool_input}, or {type:'' @ [char_of (39 :: nat)] @ ''tool_use'' @
                    [char_of (39 :: nat)] @ '',name,input}''))]), s)
         | Inr n \<Rightarrow>
             (if IsCommandTool n \<and> ni_Command n \<noteq> [] then
                (let result = snd (Check (rv_policy p) (ToToolCall n)) in
                 case rs_Action result of
                   ActionBlock \<Rightarrow>
                     (tool_answer 403 ''tool invocation blocked by policy'' (ni_ToolName n) (rs_Reason result)
                        correlationID, s)
                 | ActionPending \<Rightarrow>
                     (let (d, s') = ask_operator en (ni_Command n) (ni_ToolName n) (rs_Reason result) (ni_Args n) s in
                      case d of
                        DecisionApproved \<Rightarrow> handleStandardRequest en p r s'
                      | DecisionDenied \<Rightarrow>
                          (tool_answer 403 ''tool invocation denied'' (ni_ToolName n)
                             ''request was denied by operator'' correlationID, s')
                      | _ \<Rightarrow>
                          (tool_answer 504 ''approval timed out'' (ni_ToolName n)
                             ''request was not approved in time'' correlationID, s'))
                 | ActionAllow \<Rightarrow> handleStandardRequest en p r s)
              else handleStandardRequest en p r s))"

section \<open>The handler\<close>

definition forward_request :: "proxy_env \<Rightarrow> ReverseProxy \<Rightarrow> ProxyRequest \<Rightarrow> proxy_state \<Rightarrow> reply \<times> proxy_state" where
  "forward_request en p r s =
     (if isStreamingRequest (rq_Headers r) then handleStreaming en p r s else handleStandardRequest en p r s)"

definition Proxy_Handler :: "proxy_env \<Rightarrow> ReverseProxy \<Rightarrow> ProxyRequest \<Rightarrow> proxy_state \<Rightarrow> reply \<times> proxy_state" where
  "Proxy_Handler en p r s =
     (if pe_upgrade en r then handleWebSocket p r s
      else
        (let body = rq_Body r; pii = CheckContent (rv_egress p) body in
         if body \<noteq> [] \<and> \<not> cr_Allowed pii then
           (Answer (json_answer 403
              [(''error'', JStr ''request blocked''), (''reason'', JStr (cr_Reason pii)),
               (''pattern'', JStr (cr_Pattern pii))]), s)
         else if rv_toolInterception p \<and>
             (HasSuffix (rq_Path r) ''/tools/invoke'' \<or> Contains (rq_Path r) ''/tools/invoke'') then
           handleOpenClawToolInvoke en p r s
         else if rv_toolInterception p \<and> body \<noteq> [] then
           (case checkToolCalls en p body s of
              ((_, Some e), s') \<Rightarrow> (Answer (error_answer 500 e), s')
            | ((True, None), s') \<Rightarrow>
                (Answer (json_answer 403
                   [(''error'', JStr ''command blocked by policy''),
                    (''reason'', JStr ''command matches block list or was denied'')]), s')
            | ((False, None), s') \<Rightarrow> forward_request en p r s')
         else forward_request en p r s))"

section \<open>What is sent\<close>

lemma ps_sent_sent [simp]: "ps_sent (sent out s) = ps_sent s @ [out]"
  by (simp add: sent_def)

lemma ask_operator_sent [simp]: "ps_sent (snd (ask_operator en command tool reason args s)) = ps_sent s"
  by (simp add: ask_operator_def Let_def split: prod.split)

lemma ask_operator_sentD: "ask_operator en command tool reason args s = (d, s') \<Longrightarrow> ps_sent s' = ps_sent s"
  by (metis ask_operator_sent snd_conv)

definition acceptable :: "proxy_env \<Rightarrow> ReverseProxy \<Rightarrow> ProxyRequest \<Rightarrow> bool" where
  "acceptable en p r \<longleftrightarrow> hc_new (pe_http en) (og_Method (proxy_outgoing p r)) (og_URL (proxy_outgoing p r)) = None"

lemma handleStandardRequest_state:
  "snd (handleStandardRequest en p r s) = (if acceptable en p r then sent (proxy_outgoing p r) s else s)"
  by (simp add: handleStandardRequest_def acceptable_def Let_def split: option.split sum.split)

lemma handleStandardRequest_sent:
  "ps_sent (snd (handleStandardRequest en p r s)) =
     ps_sent s @ (if acceptable en p r then [proxy_outgoing p r] else [])"
  by (simp add: handleStandardRequest_state)

lemma handleStreaming_sent:
  "ps_sent (snd (handleStreaming en p r s)) =
     ps_sent s @ (if acceptable en p r then [proxy_outgoing p r] else [])"
  by (simp add: handleStreaming_def acceptable_def Let_def split: option.split sum.split)

lemma forward_request_sent:
  "ps_sent (snd (forward_request en p r s)) =
     ps_sent s @ (if acceptable en p r then [proxy_outgoing p r] else [])"
  by (simp add: forward_request_def handleStreaming_sent handleStandardRequest_sent)

text \<open>The decision on a tool call: the interceptor's, and the operator's where it asks for one.\<close>

definition permitted :: "proxy_env \<Rightarrow> ReverseProxy \<Rightarrow> ToolCall \<Rightarrow> string \<Rightarrow> proxy_state \<Rightarrow> bool" where
  "permitted en p tc command s \<longleftrightarrow>
     (let result = snd (Check (rv_policy p) tc) in
      case rs_Action result of
        ActionAllow \<Rightarrow> True
      | ActionBlock \<Rightarrow> False
      | ActionPending \<Rightarrow>
          fst (ask_operator en command (tc_Name tc) (rs_Reason result) (tc_Args tc) s) = DecisionApproved)"

lemma Check_tool_call:
  "tc_Name (fst (Check policy tc)) = tc_Name tc" "tc_Args (fst (Check policy tc)) = tc_Args tc"
  "rs_Action (snd (Check policy tc)) = ActionPending \<Longrightarrow> tc_Command (fst (Check policy tc)) = extractCommand tc"
  by (auto simp: Check_eq decide_def allow_result_def)

lemma checkToolCalls_sent: "ps_sent (snd (checkToolCalls en p body s)) = ps_sent s"
  unfolding checkToolCalls_def Let_def
  by (auto split: sum.split option.split prod.splits Action.split Decision.split dest: ask_operator_sentD)

lemma checkToolCalls_passes:
  "fst (checkToolCalls en p body s) = (False, None) \<longleftrightarrow>
     (case pe_decode en body of
        Inl e \<Rightarrow> True
      | Inr data \<Rightarrow>
          (case ParseToolCallFromJSON data of
             None \<Rightarrow> True
           | Some tc \<Rightarrow> permitted en p tc (extractCommand tc) s))"
proof -
  have "fst (case Check policy tc of (tc', result) \<Rightarrow>
        (case rs_Action result of
           ActionBlock \<Rightarrow> ((True, None), s)
         | ActionPending \<Rightarrow>
             (let (d, s') = ask_operator en (tc_Command tc') (tc_Name tc') (rs_Reason result) (tc_Args tc') s in
              case d of
                DecisionApproved \<Rightarrow> ((False, None), s')
              | DecisionDenied \<Rightarrow> ((True, None), s')
              | _ \<Rightarrow> ((True, Some ''approval timed out''), s'))
         | ActionAllow \<Rightarrow> ((False, None), s))) = (False, None) \<longleftrightarrow>
      permitted en p tc (extractCommand tc) s" if "policy = rv_policy p" for tc policy
    using Check_tool_call [of policy tc] that
    by (cases "Check policy tc")
      (auto simp: permitted_def Let_def split: Action.splits Decision.splits prod.splits)
  then show ?thesis
    unfolding checkToolCalls_def Let_def by (simp split: sum.split option.split)
qed

lemma handleOpenClaw_sent:
  "ps_sent (snd (handleOpenClawToolInvoke en p r s)) =
     ps_sent s @
     (if acceptable en p r \<and>
         (case NormalizeToolInvoke (pe_decode en) (rq_Body r) of
            Inl e \<Rightarrow> False
          | Inr n \<Rightarrow> IsCommandTool n \<and> ni_Command n \<noteq> [] \<longrightarrow> permitted en p (ToToolCall n) (ni_Command n) s)
      then [proxy_outgoing p r] else [])"
proof -
  have "ps_sent (snd (case rs_Action result of
        ActionBlock \<Rightarrow> (a, s)
      | ActionPending \<Rightarrow>
          (let (d, s') = ask_operator en (ni_Command n) (ni_ToolName n) (rs_Reason result) (ni_Args n) s in
           case d of DecisionApproved \<Rightarrow> handleStandardRequest en p r s'
           | DecisionDenied \<Rightarrow> (b, s') | _ \<Rightarrow> (c, s'))
      | ActionAllow \<Rightarrow> handleStandardRequest en p r s)) =
     ps_sent s @ (if acceptable en p r \<and> permitted en p (ToToolCall n) (ni_Command n) s
       then [proxy_outgoing p r] else [])"
    if "result = snd (Check (rv_policy p) (ToToolCall n))" for result n a b c
    using that
    by (auto simp: permitted_def Let_def ToToolCall_def handleStandardRequest_sent dest: ask_operator_sentD
        split: Action.split Decision.split prod.split)
  then show ?thesis
    unfolding handleOpenClawToolInvoke_def Let_def
    by (simp add: handleStandardRequest_sent split: sum.split)
qed

definition is_invoke :: "ProxyRequest \<Rightarrow> bool" where
  "is_invoke r \<longleftrightarrow> Contains (rq_Path r) ''/tools/invoke''"

lemma invoke_path: "HasSuffix (rq_Path r) ''/tools/invoke'' \<or> Contains (rq_Path r) ''/tools/invoke'' \<longleftrightarrow> is_invoke r"
  by (auto simp: is_invoke_def Contains_iff elim!: HasSuffixE)

definition lets_through :: "proxy_env \<Rightarrow> ReverseProxy \<Rightarrow> ProxyRequest \<Rightarrow> proxy_state \<Rightarrow> bool" where
  "lets_through en p r s \<longleftrightarrow>
     \<not> pe_upgrade en r \<and> (rq_Body r = [] \<or> \<not> fst (ContainsPII (rv_egress p) (rq_Body r))) \<and>
     (if \<not> rv_toolInterception p then True
      else if is_invoke r then
        (case NormalizeToolInvoke (pe_decode en) (rq_Body r) of
           Inl e \<Rightarrow> False
         | Inr n \<Rightarrow> IsCommandTool n \<and> ni_Command n \<noteq> [] \<longrightarrow> permitted en p (ToToolCall n) (ni_Command n) s)
      else if rq_Body r = [] then True
      else (case pe_decode en (rq_Body r) of
              Inl e \<Rightarrow> True
            | Inr data \<Rightarrow>
                (case ParseToolCallFromJSON data of
                   None \<Rightarrow> True
                 | Some tc \<Rightarrow> permitted en p tc (extractCommand tc) s)))"

lemma read_line_None: "read_line s = None \<longleftrightarrow> newline \<notin> set s"
  by (induction s) auto

lemma read_line_last: "read_line s = Some (l, rest) \<Longrightarrow> last l = newline"
proof (induction s arbitrary: l)
  case (Cons c s)
  then show ?case by (auto split: if_splits dest: read_line_split)
qed simp

text \<open>The stream writer gives the whole lines and leaves the rest.\<close>

lemma stream_loop_lines:
  "\<exists>tail. s = stream_loop (\<lambda>_. True) i s @ tail \<and> newline \<notin> set tail \<and>
     (stream_loop (\<lambda>_. True) i s = [] \<or> last (stream_loop (\<lambda>_. True) i s) = newline)"
proof (induction "\<lambda>_ :: nat. True" i s rule: stream_loop.induct)
  case (1 i s)
  show ?case
  proof (cases "read_line s")
    case None
    then have "stream_loop (\<lambda>_. True) i s = []" by (simp add: stream_loop.simps)
    with None show ?thesis by (simp add: read_line_None)
  next
    case (Some p)
    obtain l rest where p: "p = (l, rest)" by (cases p)
    let ?out = "stream_loop (\<lambda>_. True) (i + 1) rest"
    have out: "stream_loop (\<lambda>_. True) i s = l @ ?out" using Some p by (simp add: stream_loop.simps [of _ i])
    obtain tail where "rest = ?out @ tail" "newline \<notin> set tail" "?out = [] \<or> last ?out = newline"
      using 1 [OF Some p [symmetric]] by auto
    moreover have "s = l @ rest" "l \<noteq> []" "last l = newline"
      using Some p read_line_split read_line_last by blast+
    ultimately show ?thesis unfolding out by (intro exI [of _ tail]) (auto simp: last_append)
  qed
qed

lemma extractCommand_none:
  "extractCommand tc = [] \<longleftrightarrow>
     (tc_Name tc \<notin> set execToolNames \<and> ToLower (tc_Name tc) \<notin> set execToolNames) \<or>
     first_string cmdArgNames (tc_Args tc) \<in> {None, Some []}"
  by (auto simp: extractCommand_def split: option.splits)

section \<open>Properties\<close>


text \<open>
  C25. An invocation the normalizer recognises is not always checked: when the interceptor does not know
  the tool by its name, or the first of its own argument fields that is a string is empty or absent,
  the invocation is sent to the agent whatever the policy says and no operator is asked, although the
  normalizer has found a command in it.
\<close>

theorem invocation_unchecked:
  assumes "\<not> pe_upgrade en r" "is_invoke r" "\<not> fst (ContainsPII (rv_egress p) (rq_Body r))"
    and "rv_toolInterception p" "NormalizeToolInvoke (pe_decode en) (rq_Body r) = Inr n"
    and "ni_ToolName n \<notin> set execToolNames \<and> ToLower (ni_ToolName n) \<notin> set execToolNames \<or>
      first_string cmdArgNames (ni_Args n) \<in> {None, Some []}"
    and "acceptable en p r"
  shows "snd (Proxy_Handler en p r s) = sent (proxy_outgoing p r) s"
proof -
  have "extractCommand (ToToolCall n) = []"
    using assms(6) by (simp add: extractCommand_none ToToolCall_def)
  then have "rs_Action (snd (Check (rv_policy p) (ToToolCall n))) = ActionAllow"
    by (simp add: Check_eq decide_def allow_result_def)
  then have "snd (handleOpenClawToolInvoke en p r s) = sent (proxy_outgoing p r) s"
    using assms(5,7) by (simp add: handleOpenClawToolInvoke_def Let_def handleStandardRequest_state)
  moreover have "cr_Allowed (CheckContent (rv_egress p) (rq_Body r))"
    using assms(3) by (simp add: CheckContent_allowed)
  ultimately show ?thesis
    using assms(1,2,4) unfolding Proxy_Handler_def Let_def invoke_path by simp
qed

definition strict_proxy :: ReverseProxy where
  "strict_proxy =
     \<lparr>rv_upstream = ''http://openclaw:3000'', rv_policy = rx_policy [''rm''] [],
      rv_egress = \<lparr>eg_Mode = ''enforce'', eg_AllowDomains = [], eg_Rules = [], eg_PIIPatterns = [], eg_piiRegexes = []\<rparr>,
      rv_toolInterception = True\<rparr>"

definition body_env :: "gomap \<Rightarrow> proxy_env" where
  "body_env data =
     \<lparr>pe_http = \<lparr>hc_new = (\<lambda>_ _. None), hc_do = (\<lambda>_. Inr \<lparr>hr_Status = 200, hr_Headers = [], hr_Body = Inr ''ok''\<rparr>)\<rparr>,
      pe_decode = (\<lambda>_. Inr data), pe_upgrade = (\<lambda>_. False), pe_await = (\<lambda>_ q. (DecisionDenied, q)),
      pe_fresh_id = ''id'', pe_store_io = None, pe_now = 0, pe_fresh_correlation = ''req-1'',
      pe_takes = (\<lambda>_. True), pe_partial = (\<lambda>_. [])\<rparr>"

definition invoke_request :: "string \<Rightarrow> ProxyRequest" where
  "invoke_request path =
     \<lparr>rq_Method = ''POST'', rq_Host = ''localhost'', rq_Path = path, rq_Query = [], rq_IP = ''127.0.0.1'',
      rq_Headers = [], rq_Body = ''{...}'', rq_OriginalURL = path\<rparr>"

definition bypass_data :: gomap where
  "bypass_data = [(''tool'', JStr ''bash''), (''input'', JObj [(''command'', JStr []), (''cmd'', JStr ''rm -rf /'')])]"

theorem invocation_unchecked_witness:
  "snd (Proxy_Handler (body_env bypass_data) strict_proxy (invoke_request ''/proxy/tools/invoke'')
      \<lparr>ps_queue = NewQueue 60, ps_notified = [], ps_sent = []\<rparr>) =
   sent \<lparr>og_Method = ''POST'', og_URL = ''http://openclaw:3000/tools/invoke'', og_Headers = [], og_Body = ''{...}''\<rparr>
      \<lparr>ps_queue = NewQueue 60, ps_notified = [], ps_sent = []\<rparr>"
proof -
  let ?r = "invoke_request ''/proxy/tools/invoke''"
  let ?n = "case NormalizeToolInvoke (pe_decode (body_env bypass_data)) (rq_Body ?r) of Inr n \<Rightarrow> n"
  have 1: "\<not> pe_upgrade (body_env bypass_data) ?r" "rv_toolInterception strict_proxy"
    "acceptable (body_env bypass_data) strict_proxy ?r"
    by (simp_all add: body_env_def strict_proxy_def acceptable_def)
  have 2: "is_invoke ?r" "\<not> fst (ContainsPII (rv_egress strict_proxy) (rq_Body ?r))" by code_simp+
  have 3: "NormalizeToolInvoke (pe_decode (body_env bypass_data)) (rq_Body ?r) = Inr ?n" by code_simp
  have 4: "first_string cmdArgNames (ni_Args ?n) = Some []" by code_simp
  have 5: "proxy_outgoing strict_proxy ?r =
      \<lparr>og_Method = ''POST'', og_URL = ''http://openclaw:3000/tools/invoke'', og_Headers = [], og_Body = ''{...}''\<rparr>"
    by code_simp
  show ?thesis
    using invocation_unchecked [OF 1(1) 2 1(2) 3 disjI2 1(3), of "\<lparr>ps_queue = NewQueue 60, ps_notified = [], ps_sent = []\<rparr>"]
    unfolding 4 5 by blast
qed

text \<open>
  A streamed answer gives the client the whole lines of the upstream's body, in order, and drops
  what follows the last line end, also when the client takes everything.
\<close>

theorem streaming_drops_tail:
  assumes "acceptable en p r" "hc_do (pe_http en) (proxy_outgoing p r) = Inr resp" "hr_Body resp = Inr b"
    and "pe_takes en = (\<lambda>_. True)"
  shows "\<exists>hs out tail. fst (handleStreaming en p r s) = Streamed (hr_Status resp) hs out \<and> b = out @ tail \<and>
    newline \<notin> set tail \<and> (out = [] \<or> last out = newline)"
  using assms stream_loop_lines [of b 0] by (auto simp: handleStreaming_def acceptable_def Let_def)

theorem streaming_drops_tail_witness:
  "\<exists>hs out tail. fst (handleStreaming (body_env []) strict_proxy (invoke_request ''/proxy/chat'')
      \<lparr>ps_queue = NewQueue 60, ps_notified = [], ps_sent = []\<rparr>) = Streamed 200 hs out \<and> ''ok'' = out @ tail \<and>
    newline \<notin> set tail \<and> (out = [] \<or> last out = newline)"
proof -
  have "acceptable (body_env []) strict_proxy (invoke_request ''/proxy/chat'')"
    "hc_do (pe_http (body_env [])) (proxy_outgoing strict_proxy (invoke_request ''/proxy/chat'')) =
      Inr \<lparr>hr_Status = 200, hr_Headers = [], hr_Body = Inr ''ok''\<rparr>"
    "pe_takes (body_env []) = (\<lambda>_. True)"
    by (simp_all add: acceptable_def body_env_def)
  from streaming_drops_tail [OF this(1,2) _ this(3), of "''ok''" "\<lparr>ps_queue = NewQueue 60, ps_notified = [], ps_sent = []\<rparr>"]
  show ?thesis by simp
qed

end
