(* ===== verification/Forward_Proxy.thy ===== *)
theory Forward_Proxy
  imports Egress Broker Upstream
begin

text \<open>
  The forward proxy of the agent's outbound traffic (internal/proxy/forward.go): the checks of a
  destination and of a body, the Fiber handler, the tunnels of \<^verbatim>\<open>CONNECT\<close>, and the standalone
  server with its own handling of plain requests.

  Parameters: the parsing of a URL to its host (\<open>hostname\<close>), the HTTP client, dialing, what
  \<^verbatim>\<open>http.ReadRequest\<close> reads from a connection, and what \<^verbatim>\<open>Accept\<close> gives. The two
  copies of an open tunnel are left out.
\<close>

section \<open>State and events\<close>

record ForwardProxy =
  fp_egress :: EgressConfig
  fp_broker :: BrokerConfig
  fp_matcher :: "IntegrationMatcher option"
  fp_onEvent :: bool

definition NewForwardProxy :: "Config \<Rightarrow> IntegrationMatcher option \<Rightarrow> bool \<Rightarrow> ForwardProxy" where
  "NewForwardProxy cfg matcher onEvent =
     \<lparr>fp_egress = cf_Egress cfg, fp_broker = cf_Broker cfg, fp_matcher = matcher, fp_onEvent = onEvent\<rparr>"

record egress_event =
  ee_actionType :: string
  ee_target :: string
  ee_decision :: string
  ee_rulePath :: string
  ee_mode :: string

definition emitEvent :: "ForwardProxy \<Rightarrow> string \<Rightarrow> string \<Rightarrow> string \<Rightarrow> string \<Rightarrow> egress_event list" where
  "emitEvent fp actionType target decision rulePath =
     (if fp_onEvent fp
      then [\<lparr>ee_actionType = actionType, ee_target = target, ee_decision = decision, ee_rulePath = rulePath,
             ee_mode = eg_Mode (fp_egress fp)\<rparr>]
      else [])"

definition isRecordMode :: "ForwardProxy \<Rightarrow> bool" where
  "isRecordMode fp = (eg_Mode (fp_egress fp) = ''record'')"

section \<open>Checks\<close>

text \<open>The integration, whether the request is blocked, and the events.\<close>

definition checkManagedHost :: "ForwardProxy \<Rightarrow> string \<Rightarrow> (string \<times> bool) \<times> egress_event list" where
  "checkManagedHost fp hostname =
     (case fp_matcher fp of
        None \<Rightarrow> (([], False), [])
      | Some m \<Rightarrow>
          (if bc_Mode (fp_broker fp) \<noteq> ''enforce'' \<and> bc_Mode (fp_broker fp) \<noteq> ''record'' then (([], False), [])
           else (case Match m hostname of
                   None \<Rightarrow> (([], False), [])
                 | Some match \<Rightarrow>
                     ((mr_Integration match, bc_Mode (fp_broker fp) \<noteq> ''record''),
                      emitEvent fp ''broker_egress_block'' hostname ''deny''
                        (''broker/'' @ mr_Integration match @ ''/direct_access_blocked'')))))"

definition crlf :: string where "crlf = [char_of (13 :: nat), char_of (10 :: nat)]"

definition managedHostGuidance :: "ForwardProxy \<Rightarrow> string \<Rightarrow> string" where
  "managedHostGuidance fp integration =
     (let listen = bc_Listen (fp_broker fp) in
      ''Direct access to managed integration '' @ go_quote integration @ '' is blocked.'' @ nl @
      ''Configure your agent to use: http://parachute'' @ listen @ ''/broker/'' @ integration @ ''/'' @ nl @
      ''Example: Set GITHUB_API_URL=http://parachute'' @ listen @ ''/broker/'' @ integration @
      '' in agent container.'' @ nl)"

text \<open>The check of a destination: the refusal, if the mode enforces it, and the event.\<close>

definition check_destination ::
  "(string \<Rightarrow> string + string) \<Rightarrow> ForwardProxy \<Rightarrow> string \<Rightarrow> string \<Rightarrow> CheckResult option \<times> egress_event list" where
  "check_destination hostname fp url target =
     (let result = CheckURL hostname (fp_egress fp) url in
      if \<not> cr_Allowed result
      then ((if isRecordMode fp then None else Some result), emitEvent fp ''egress'' target ''deny'' (cr_RulePath result))
      else (None, emitEvent fp ''egress'' target ''allow'' (cr_RulePath result)))"

definition check_body :: "ForwardProxy \<Rightarrow> string \<Rightarrow> string \<Rightarrow> CheckResult option \<times> egress_event list" where
  "check_body fp target body =
     (if body = [] then (None, [])
      else (let pii = CheckContent (fp_egress fp) body in
            if \<not> cr_Allowed pii
            then ((if isRecordMode fp then None else Some pii), emitEvent fp ''egress'' target ''deny'' ''egress/pii'')
            else (None, [])))"

section \<open>The Fiber handler\<close>

record ForwardRequest = Request +
  fr_URI :: string
  fr_URIHost :: string

record forward_result =
  fw_events :: "egress_event list"
  fw_sent :: "Outgoing option"
  fw_answer :: answer

definition forward_refused :: "egress_event list \<Rightarrow> (string \<times> json) list \<Rightarrow> forward_result" where
  "forward_refused evs m = \<lparr>fw_events = evs, fw_sent = None, fw_answer = json_answer 403 m\<rparr>"

definition forward_outgoing :: "ForwardRequest \<Rightarrow> Outgoing" where
  "forward_outgoing r =
     \<lparr>og_Method = rq_Method r, og_URL = fr_URI r,
      og_Headers = copy_headers (\<lambda>k. k \<in> set hop_by_hop \<or> k = ''Host'') (rq_Headers r) [], og_Body = rq_Body r\<rparr>"

definition forward_upstream_request :: "http_client \<Rightarrow> ForwardRequest \<Rightarrow> Outgoing option \<times> answer" where
  "forward_upstream_request hc r =
     (let out = forward_outgoing r in
      case hc_new hc (og_Method out) (og_URL out) of
        Some e \<Rightarrow> (None, error_answer 502 ''failed to create request'')
      | None \<Rightarrow>
          (case hc_do hc out of
             Inl e \<Rightarrow> (Some out, error_answer 502 ''upstream request failed'')
           | Inr resp \<Rightarrow>
               (let hs = copy_headers (\<lambda>k. k \<in> set hop_by_hop) (hr_Headers resp) [] in
                case hr_Body resp of
                  Inl e \<Rightarrow> (Some out, (error_answer 502 ''failed to read response'')\<lparr>an_Headers := hs\<rparr>)
                | Inr b \<Rightarrow> (Some out, \<lparr>an_Status = hr_Status resp, an_Headers = hs, an_Body = Bytes b\<rparr>))))"

definition Forward_Handler ::
  "(string \<Rightarrow> string + string) \<Rightarrow> http_client \<Rightarrow> ForwardProxy \<Rightarrow> ForwardRequest \<Rightarrow> forward_result" where
  "Forward_Handler hostname hc fp r =
     (let ((integration, blocked), evs1) = checkManagedHost fp (cut_last (CHR '':'') (fr_URIHost r)) in
      if blocked then forward_refused evs1
        [(''error'', JStr ''direct access to managed integration blocked''),
         (''message'', JStr (managedHostGuidance fp integration))]
      else
        (let (refusal, evs2) = check_destination hostname fp (fr_URI r) (fr_URI r) in
         case refusal of
           Some result \<Rightarrow> forward_refused (evs1 @ evs2)
             [(''error'', JStr ''egress blocked''), (''reason'', JStr (cr_Reason result)), (''url'', JStr (fr_URI r))]
         | None \<Rightarrow>
             (let (pii, evs3) = check_body fp (fr_URI r) (rq_Body r) in
              case pii of
                Some result \<Rightarrow> forward_refused (evs1 @ evs2 @ evs3)
                  [(''error'', JStr ''egress blocked''), (''reason'', JStr (cr_Reason result)),
                   (''pattern'', JStr (cr_Pattern result))]
              | None \<Rightarrow>
                  (let (out, answer) = forward_upstream_request hc r in
                   \<lparr>fw_events = evs1 @ evs2 @ evs3, fw_sent = out, fw_answer = answer\<rparr>))))"

section \<open>Tunnels\<close>

record tunnel_result =
  tn_events :: "egress_event list"
  tn_dialed :: "string option"
  tn_written :: "string list"
  tn_open :: bool

definition tunnel_refused :: "egress_event list \<Rightarrow> string \<Rightarrow> tunnel_result" where
  "tunnel_refused evs text = \<lparr>tn_events = evs, tn_dialed = None, tn_written = [text], tn_open = False\<rparr>"

definition HandleConnect ::
  "(string \<Rightarrow> string + string) \<Rightarrow> (string \<Rightarrow> string option) \<Rightarrow> ForwardProxy \<Rightarrow> string \<Rightarrow> tunnel_result" where
  "HandleConnect hostname dial fp host =
     (let name = cut_last (CHR '':'') host;
          ((integration, blocked), evs1) = checkManagedHost fp name in
      if blocked then tunnel_refused evs1
        (''HTTP/1.1 403 Forbidden'' @ crlf @ ''Content-Type: text/plain'' @ crlf @ crlf @
         managedHostGuidance fp integration)
      else
        (let (refusal, evs2) = check_destination hostname fp (''https://'' @ name) name in
         case refusal of
           Some result \<Rightarrow> tunnel_refused (evs1 @ evs2)
             (''HTTP/1.1 403 Forbidden'' @ crlf @ crlf @ ''Domain not allowed'' @ nl)
         | None \<Rightarrow>
             (case dial host of
                Some e \<Rightarrow> \<lparr>tn_events = evs1 @ evs2, tn_dialed = Some host,
                  tn_written = [''HTTP/1.1 502 Bad Gateway'' @ crlf @ crlf @ ''Connection failed'' @ nl],
                  tn_open = False\<rparr>
              | None \<Rightarrow> \<lparr>tn_events = evs1 @ evs2, tn_dialed = Some host,
                  tn_written = [''HTTP/1.1 200 Connection Established'' @ crlf @ crlf], tn_open = True\<rparr>)))"

text \<open>
  An open tunnel: pieces as they are read from either side, with whether their write to the other
  side worked, and the end of one side's data. The first end or failed write closes both sides. What
  the reader of the request had buffered behind it (\<open>early\<close>) stays in that reader.
\<close>

datatype tunnel_piece = From_client string bool | From_target string bool | Side_ends

record tunnel_traffic =
  tt_to_target :: string
  tt_to_client :: string
  tt_closed :: bool

fun tunnel_copy :: "tunnel_piece list \<Rightarrow> tunnel_traffic" where
  "tunnel_copy [] = \<lparr>tt_to_target = [], tt_to_client = [], tt_closed = False\<rparr>"
| "tunnel_copy (Side_ends # _) = \<lparr>tt_to_target = [], tt_to_client = [], tt_closed = True\<rparr>"
| "tunnel_copy (From_client x ok # ps) =
     (if ok then (let t = tunnel_copy ps in t\<lparr>tt_to_target := x @ tt_to_target t\<rparr>)
      else \<lparr>tt_to_target = [], tt_to_client = [], tt_closed = True\<rparr>)"
| "tunnel_copy (From_target x ok # ps) =
     (if ok then (let t = tunnel_copy ps in t\<lparr>tt_to_client := x @ tt_to_client t\<rparr>)
      else \<lparr>tt_to_target = [], tt_to_client = [], tt_closed = True\<rparr>)"

definition tunnel_session :: "string \<Rightarrow> tunnel_result \<Rightarrow> tunnel_piece list \<Rightarrow> tunnel_traffic option" where
  "tunnel_session early tn ps = (if tn_open tn then Some (tunnel_copy ps) else None)"

section \<open>The standalone server\<close>

text \<open>
  A request as \<^verbatim>\<open>http.ReadRequest\<close> reads it. A body that cannot be read to its end gives what a
  second reading of it gives.
\<close>

record RawRequest =
  rr_Method :: string
  rr_Host :: string
  rr_URL :: string
  rr_IsAbs :: bool
  rr_RequestURI :: string
  rr_Header :: headers
  rr_Body :: "string + string"

datatype written = Nothing | Wrote nat headers string | Relayed HttpResponse

record server_result =
  sr_events :: "egress_event list"
  sr_sent :: "Outgoing option"
  sr_written :: written

definition server_refused :: "egress_event list \<Rightarrow> headers \<Rightarrow> string \<Rightarrow> server_result" where
  "server_refused evs hs text = \<lparr>sr_events = evs, sr_sent = None, sr_written = Wrote 403 hs text\<rparr>"

definition target_url :: "RawRequest \<Rightarrow> string" where
  "target_url req = (if rr_IsAbs req then rr_URL req else ''http://'' @ rr_Host req @ rr_RequestURI req)"

definition server_outgoing :: "RawRequest \<Rightarrow> Outgoing" where
  "server_outgoing req =
     \<lparr>og_Method = rr_Method req, og_URL = target_url req,
      og_Headers = filter (\<lambda>(k, _). k \<notin> set hop_by_hop \<and> k \<noteq> ''Proxy-Connection'') (rr_Header req),
      og_Body = (case rr_Body req of Inr b \<Rightarrow> b | Inl rest \<Rightarrow> rest)\<rparr>"

text \<open>Only a body that could be read is checked.\<close>

definition readable :: "RawRequest \<Rightarrow> string" where
  "readable req = (case rr_Body req of Inr b \<Rightarrow> b | Inl _ \<Rightarrow> [])"

definition handleHTTPRequest ::
  "(string \<Rightarrow> string + string) \<Rightarrow> http_client \<Rightarrow> ForwardProxy \<Rightarrow> RawRequest \<Rightarrow> server_result" where
  "handleHTTPRequest hostname hc fp req =
     (let target = target_url req;
          plain = [(''Content-Type'', ''text/plain'')];
          ((integration, blocked), evs1) = checkManagedHost fp (cut_last (CHR '':'') (rr_Host req)) in
      if blocked then server_refused evs1 plain (managedHostGuidance fp integration)
      else
        (let (refusal, evs2) = check_destination hostname fp target target in
         case refusal of
           Some result \<Rightarrow> server_refused (evs1 @ evs2) plain (''Domain not allowed'' @ nl)
         | None \<Rightarrow>
             (let (pii, evs3) = check_body fp target (readable req) in
              case pii of
                Some result \<Rightarrow> server_refused (evs1 @ evs2 @ evs3) [] (''PII detected in request'' @ nl)
              | None \<Rightarrow>
                  (let evs = evs1 @ evs2 @ evs3; out = server_outgoing req in
                   case hc_new hc (og_Method out) (og_URL out) of
                     Some e \<Rightarrow> \<lparr>sr_events = evs, sr_sent = None, sr_written = Nothing\<rparr>
                   | None \<Rightarrow>
                       (case hc_do hc out of
                          Inl e \<Rightarrow> \<lparr>sr_events = evs, sr_sent = Some out,
                                    sr_written = Wrote 502 [] (''Upstream request failed'' @ nl)\<rparr>
                        | Inr resp \<Rightarrow> \<lparr>sr_events = evs, sr_sent = Some out, sr_written = Relayed resp\<rparr>)))))"

datatype connection_result = Unread | Tunnelled tunnel_result | Served server_result

definition handleConnection ::
  "(string \<Rightarrow> string + string) \<Rightarrow> (string \<Rightarrow> string option) \<Rightarrow> http_client \<Rightarrow> ForwardProxy \<Rightarrow>
   string + RawRequest \<Rightarrow> connection_result" where
  "handleConnection hostname dial hc fp read =
     (case read of
        Inl e \<Rightarrow> Unread
      | Inr req \<Rightarrow>
          if rr_Method req = ''CONNECT'' then Tunnelled (HandleConnect hostname dial fp (rr_Host req))
          else Served (handleHTTPRequest hostname hc fp req))"

text \<open>
  The accept loop over what the listener gives, an error or a connection: the connections handed to a
  handler, and whether the loop has returned.
\<close>

fun accept_loop :: "(string + 'c) list \<Rightarrow> 'c list \<times> bool" where
  "accept_loop [] = ([], False)"
| "accept_loop (Inl e # rest) =
     (if Contains e ''use of closed network connection'' then ([], True) else accept_loop rest)"
| "accept_loop (Inr conn # rest) = (let (conns, ended) = accept_loop rest in (conn # conns, ended))"

text \<open>The server; \<open>pv_listens\<close> says whether it has a listener.\<close>

record ProxyServer =
  pv_fp :: ForwardProxy
  pv_listens :: bool

definition NewProxyServer :: "Config \<Rightarrow> IntegrationMatcher option \<Rightarrow> bool \<Rightarrow> ProxyServer" where
  "NewProxyServer cfg matcher onEvent = \<lparr>pv_fp = NewForwardProxy cfg matcher onEvent, pv_listens = False\<rparr>"

definition ProxyServer_Close :: "string option \<Rightarrow> ProxyServer \<Rightarrow> string option" where
  "ProxyServer_Close close_error ps = (if pv_listens ps then close_error else None)"

definition ListenAndServe :: "string option \<Rightarrow> string \<Rightarrow> (string + 'c) list \<Rightarrow> string + 'c list \<times> bool" where
  "ListenAndServe listen_error addr accepts =
     (case listen_error of
        Some e \<Rightarrow> Inl (''failed to listen on '' @ addr @ '': '' @ e)
      | None \<Rightarrow> Inr (accept_loop accepts))"

section \<open>What leaves\<close>

definition managed :: "ForwardProxy \<Rightarrow> string \<Rightarrow> bool" where
  "managed fp host \<longleftrightarrow> (\<exists>m. fp_matcher fp = Some m \<and> Match m (cut_last (CHR '':'') host) \<noteq> None)"

text \<open>The policy of the proxy on a request to a host, with the URL that is checked and the readable body.\<close>

definition may_leave :: "(string \<Rightarrow> string + string) \<Rightarrow> ForwardProxy \<Rightarrow> string \<Rightarrow> string \<Rightarrow> string \<Rightarrow> bool" where
  "may_leave hostname fp host url body \<longleftrightarrow>
     \<not> (bc_Mode (fp_broker fp) = ''enforce'' \<and> managed fp host) \<and>
     (isRecordMode fp \<or>
      cr_Allowed (CheckURL hostname (fp_egress fp) url) \<and> (body = [] \<or> \<not> fst (ContainsPII (fp_egress fp) body)))"

lemma checkManagedHost_blocked:
  "snd (fst (checkManagedHost fp (cut_last (CHR '':'') host))) \<longleftrightarrow>
     bc_Mode (fp_broker fp) = ''enforce'' \<and> managed fp host"
  by (auto simp: checkManagedHost_def managed_def split: option.splits)

lemma check_destination_refusal:
  "fst (check_destination hostname fp url target) = None \<longleftrightarrow>
     isRecordMode fp \<or> cr_Allowed (CheckURL hostname (fp_egress fp) url)"
  by (simp add: check_destination_def Let_def)

lemma check_body_refusal:
  "fst (check_body fp target body) = None \<longleftrightarrow>
     isRecordMode fp \<or> body = [] \<or> \<not> fst (ContainsPII (fp_egress fp) body)"
  by (simp add: check_body_def Let_def CheckContent_allowed)

text \<open>The three checks of a plain request, as one fact about what they give.\<close>

lemma checks_pass:
  assumes "checkManagedHost fp (cut_last (CHR '':'') host) = ((i, b), e1)"
    and "check_destination hostname fp url target = (d, e2)" "check_body fp target' body = (p, e3)"
  shows "may_leave hostname fp host url body \<longleftrightarrow> \<not> b \<and> d = None \<and> p = None"
  using checkManagedHost_blocked [of fp host] check_destination_refusal [of hostname fp url target]
    check_body_refusal [of fp target' body] assms
  by (auto simp: may_leave_def)

lemma forward_upstream_request_sent:
  "fst (forward_upstream_request hc r) =
     (if hc_new hc (rq_Method r) (fr_URI r) = None then Some (forward_outgoing r) else None)"
  by (simp add: forward_upstream_request_def Let_def forward_outgoing_def split: option.split sum.split)

lemma Forward_Handler_sent:
  "fw_sent (Forward_Handler hostname hc fp r) =
     (if may_leave hostname fp (fr_URIHost r) (fr_URI r) (rq_Body r) \<and> hc_new hc (rq_Method r) (fr_URI r) = None
      then Some (forward_outgoing r) else None)"
proof -
  obtain i b e1 d e2 p e3 where c: "checkManagedHost fp (cut_last (CHR '':'') (fr_URIHost r)) = ((i, b), e1)"
    "check_destination hostname fp (fr_URI r) (fr_URI r) = (d, e2)" "check_body fp (fr_URI r) (rq_Body r) = (p, e3)"
    by (metis surj_pair)
  show ?thesis
    using forward_upstream_request_sent [of hc r]
    unfolding Forward_Handler_def c checks_pass [OF c]
    by (cases "forward_upstream_request hc r") (simp add: forward_refused_def split: option.split)
qed

lemma handleHTTPRequest_sent:
  "sr_sent (handleHTTPRequest hostname hc fp req) =
     (if may_leave hostname fp (rr_Host req) (target_url req) (readable req) \<and>
        hc_new hc (rr_Method req) (target_url req) = None
      then Some (server_outgoing req) else None)"
proof -
  obtain i b e1 d e2 p e3 where c: "checkManagedHost fp (cut_last (CHR '':'') (rr_Host req)) = ((i, b), e1)"
    "check_destination hostname fp (target_url req) (target_url req) = (d, e2)"
    "check_body fp (target_url req) (readable req) = (p, e3)"
    by (metis surj_pair)
  show ?thesis
    unfolding handleHTTPRequest_def Let_def c checks_pass [OF c]
    by (simp add: server_refused_def server_outgoing_def split: option.split sum.split)
qed

lemma HandleConnect_dialed:
  "tn_dialed (HandleConnect hostname dial fp host) =
     (if may_leave hostname fp host (''https://'' @ cut_last (CHR '':'') host) [] then Some host else None)"
proof -
  obtain i b e1 d e2 where c: "checkManagedHost fp (cut_last (CHR '':'') host) = ((i, b), e1)"
    "check_destination hostname fp (''https://'' @ cut_last (CHR '':'') host) (cut_last (CHR '':'') host) = (d, e2)"
    by (metis surj_pair)
  have "check_body fp host [] = (None, [])" by (simp add: check_body_def)
  from checks_pass [OF c this] show ?thesis
    unfolding HandleConnect_def Let_def c by (simp add: tunnel_refused_def split: option.split)
qed

definition set_modes :: "string \<Rightarrow> ForwardProxy \<Rightarrow> ForwardProxy" where
  "set_modes m fp =
     fp\<lparr>fp_egress := (fp_egress fp)\<lparr>eg_Mode := m\<rparr>, fp_broker := (fp_broker fp)\<lparr>bc_Mode := m\<rparr>\<rparr>"

definition denies :: "egress_event list \<Rightarrow> bool" where
  "denies evs \<longleftrightarrow> list_ex (\<lambda>e. ee_decision e = ''deny'') evs"

lemma set_modes_fields [simp]:
  "isRecordMode (set_modes m fp) \<longleftrightarrow> m = ''record''" "managed (set_modes m fp) host = managed fp host"
  "bc_Mode (fp_broker (set_modes m fp)) = m" "fp_onEvent (set_modes m fp) = fp_onEvent fp"
  "fp_matcher (set_modes m fp) = fp_matcher fp"
  by (simp_all add: set_modes_def isRecordMode_def managed_def)

lemma set_modes_checks [simp]:
  "CheckURL hostname (fp_egress (set_modes m fp)) url = CheckURL hostname (fp_egress fp) url"
  "CheckContent (fp_egress (set_modes m fp)) body = CheckContent (fp_egress fp) body"
  "ContainsPII (fp_egress (set_modes m fp)) body = ContainsPII (fp_egress fp) body"
  by (simp_all add: set_modes_def CheckURL_def check_host_def IsDomainAllowed_def CheckContent_def ContainsPII_def
      split: sum.split)

lemma denies_simps [simp]: "denies (a @ b) \<longleftrightarrow> denies a \<or> denies b" "denies [] = False"
  by (simp_all add: denies_def)

lemma denies_emit [simp]: "denies (emitEvent fp t target d rule) \<longleftrightarrow> fp_onEvent fp \<and> d = ''deny''"
  by (simp add: denies_def emitEvent_def)

lemma record_events:
  assumes "fp_onEvent fp"
  shows "denies (snd (checkManagedHost (set_modes ''record'' fp) (cut_last (CHR '':'') host))) \<longleftrightarrow> managed fp host"
    and "denies (snd (check_destination hostname (set_modes ''record'' fp) url target)) \<longleftrightarrow>
      \<not> cr_Allowed (CheckURL hostname (fp_egress fp) url)"
    and "denies (snd (check_body (set_modes ''record'' fp) target body)) \<longleftrightarrow>
      body \<noteq> [] \<and> fst (ContainsPII (fp_egress fp) body)"
  using assms
  by (auto simp: checkManagedHost_def managed_def check_destination_def check_body_def Let_def CheckContent_allowed
      split: option.split)

lemma Forward_Handler_events:
  assumes "may_leave hostname fp (fr_URIHost r) (fr_URI r) (rq_Body r)"
  shows "fw_events (Forward_Handler hostname hc fp r) =
    snd (checkManagedHost fp (cut_last (CHR '':'') (fr_URIHost r))) @
    snd (check_destination hostname fp (fr_URI r) (fr_URI r)) @ snd (check_body fp (fr_URI r) (rq_Body r))"
proof -
  obtain i b e1 d e2 p e3 where c: "checkManagedHost fp (cut_last (CHR '':'') (fr_URIHost r)) = ((i, b), e1)"
    "check_destination hostname fp (fr_URI r) (fr_URI r) = (d, e2)" "check_body fp (fr_URI r) (rq_Body r) = (p, e3)"
    by (metis surj_pair)
  show ?thesis
    using assms unfolding checks_pass [OF c] Forward_Handler_def c
    by (simp split: prod.split)
qed

text \<open>The accept loop ends at the first error that says the listener is closed.\<close>

definition closing :: "string + 'c \<Rightarrow> bool" where
  "closing a \<longleftrightarrow> (case a of Inl e \<Rightarrow> Contains e ''use of closed network connection'' | Inr _ \<Rightarrow> False)"

definition conns :: "(string + 'c) list \<Rightarrow> 'c list" where
  "conns as = concat (map (\<lambda>a. case a of Inl _ \<Rightarrow> [] | Inr c \<Rightarrow> [c]) as)"

text \<open>A host of a definition, in any case and with any port, is managed.\<close>

lemma managed_host_unreachable:
  assumes "fp_matcher fp = Some (NewMatcher defs)" "bc_Mode (fp_broker fp) = ''enforce''"
    and "d \<in> set defs" "h \<in> set (id_Hosts d)" "ToLower name = ToLower h"
    and "CHR '':'' \<notin> set name" "CHR '':'' \<notin> set port"
    and "host = name \<or> host = name @ '':'' @ port"
    and "fr_URIHost r = host" "rr_Host req = host"
  shows "fw_sent (Forward_Handler hostname hc fp r) = None \<and> sr_sent (handleHTTPRequest hostname hc fp req) = None \<and>
    tn_dialed (HandleConnect hostname dial fp host) = None"
proof -
  have "byte_of (CHR '':'') = 58" by (simp add: byte_of_def)
  then have "cut_last (CHR '':'') (ToLower name) = ToLower name"
    using assms(6) in_set_ToLower [of "CHR '':''" name] by simp
  moreover have "find (defines_host (ToLower name)) (rev defs) \<noteq> None"
    using assms(3-5) by (auto simp: find_None_iff defines_host_def)
  ultimately have "Match (NewMatcher defs) name \<noteq> None"
    using Match_NewMatcher [of defs name] by auto
  moreover have "cut_last (CHR '':'') host = name"
    using assms(6-8) by auto
  ultimately have "managed fp host" using assms(1) by (simp add: managed_def)
  then have "\<not> may_leave hostname fp host url body" for url body
    using assms(2) by (simp add: may_leave_def)
  then show ?thesis
    using assms(9,10) by (simp add: Forward_Handler_sent handleHTTPRequest_sent HandleConnect_dialed)
qed

section \<open>Properties\<close>

text \<open>
  C7. The three ways out obey one policy: the handler, the standalone server and the tunnels let a
  request leave exactly when its host is not managed under an enforcing broker and, unless the egress
  mode only records, its destination is allowed and its body, where it could be read, holds no PII. A
  tunnel has no body to look at.
\<close>

theorem ways_out_agree:
  "fw_sent (Forward_Handler hostname hc fp r) =
     (if may_leave hostname fp (fr_URIHost r) (fr_URI r) (rq_Body r) \<and> hc_new hc (rq_Method r) (fr_URI r) = None
      then Some (forward_outgoing r) else None) \<and>
   sr_sent (handleHTTPRequest hostname hc fp req) =
     (if may_leave hostname fp (rr_Host req) (target_url req) (readable req) \<and>
        hc_new hc (rr_Method req) (target_url req) = None
      then Some (server_outgoing req) else None) \<and>
   tn_dialed (HandleConnect hostname dial fp host) =
     (if may_leave hostname fp host (''https://'' @ cut_last (CHR '':'') host) [] then Some host else None)"
  by (simp add: Forward_Handler_sent handleHTTPRequest_sent HandleConnect_dialed)

definition open_egress :: EgressConfig where
  "open_egress = \<lparr>eg_Mode = ''record'', eg_AllowDomains = [], eg_Rules = [], eg_PIIPatterns = [], eg_piiRegexes = []\<rparr>"

definition managed_proxy :: ForwardProxy where
  "managed_proxy =
     \<lparr>fp_egress = open_egress,
      fp_broker = \<lparr>bc_Enabled = True, bc_Listen = '':8081'', bc_Mode = ''enforce'', bc_FailBehavior = ''closed'',
        bc_Integrations = [], bc_ProURL = [], bc_APIKeyEnv = []\<rparr>,
      fp_matcher = Some (NewMatcher [github_def]), fp_onEvent = True\<rparr>"

definition plain_forward :: "string \<Rightarrow> string \<Rightarrow> ForwardRequest" where
  "plain_forward uri host =
     \<lparr>rq_Method = ''GET'', rq_Host = host, rq_Path = ''/'', rq_Query = [], rq_IP = ''127.0.0.1'', rq_Headers = [],
      rq_Body = [], fr_URI = uri, fr_URIHost = host\<rparr>"

definition plain_raw :: "string \<Rightarrow> RawRequest" where
  "plain_raw host =
     \<lparr>rr_Method = ''GET'', rr_Host = host, rr_URL = ''/'', rr_IsAbs = False, rr_RequestURI = ''/'', rr_Header = [],
      rr_Body = Inr []\<rparr>"

definition answering :: http_client where
  "answering = \<lparr>hc_new = (\<lambda>_ _. None), hc_do = (\<lambda>_. Inr \<lparr>hr_Status = 200, hr_Headers = [], hr_Body = Inr []\<rparr>)\<rparr>"

text \<open>
  Recording predicts enforcing: with the broker and the egress filter in record mode every request
  leaves, and the events of the run hold a denial exactly when the same request would be refused with
  both in enforce mode.
\<close>

theorem record_predicts_enforce:
  assumes "fp_onEvent fp" "hc_new hc (rq_Method r) (fr_URI r) = None"
  shows "fw_sent (Forward_Handler hostname hc (set_modes ''record'' fp) r) = Some (forward_outgoing r) \<and>
    (denies (fw_events (Forward_Handler hostname hc (set_modes ''record'' fp) r)) \<longleftrightarrow>
     fw_sent (Forward_Handler hostname hc (set_modes ''enforce'' fp) r) = None)"
proof -
  have "may_leave hostname (set_modes ''record'' fp) (fr_URIHost r) (fr_URI r) (rq_Body r)"
    by (simp add: may_leave_def)
  moreover from this have "denies (fw_events (Forward_Handler hostname hc (set_modes ''record'' fp) r)) \<longleftrightarrow>
      \<not> may_leave hostname (set_modes ''enforce'' fp) (fr_URIHost r) (fr_URI r) (rq_Body r)"
    by (simp add: Forward_Handler_events record_events [OF assms(1)] may_leave_def)
  ultimately show ?thesis using assms(2) by (simp add: Forward_Handler_sent)
qed

theorem record_predicts_enforce_witness:
  "fw_sent (Forward_Handler Inr answering (set_modes ''record'' managed_proxy) (plain_forward ''u'' ''api.github.com'')) =
     Some (forward_outgoing (plain_forward ''u'' ''api.github.com''))"
  using record_predicts_enforce [of managed_proxy answering "plain_forward ''u'' ''api.github.com''" Inr]
  by (simp add: managed_proxy_def answering_def)

text \<open>
  The standalone server serves every connection: whatever errors \<open>Accept\<close> gives in between, each
  connection that comes before the listener is closed is handed to a handler, in order and once, and
  the loop returns exactly when the listener is closed.
\<close>

theorem accept_loop_serves:
  "accept_loop as = (conns (takeWhile (\<lambda>a. \<not> closing a) as), list_ex closing as)"
  by (induction as rule: accept_loop.induct) (simp_all add: conns_def closing_def)

text \<open>
  A tunnel carries what comes before the first end of either side, and nothing after it: a client that
  closes its own direction after its request does not get the answer that is still on its way.
\<close>

definition goes_on :: "tunnel_piece \<Rightarrow> bool" where
  "goes_on p = (case p of From_client _ ok \<Rightarrow> ok | From_target _ ok \<Rightarrow> ok | Side_ends \<Rightarrow> False)"

definition client_bytes :: "tunnel_piece \<Rightarrow> string" where
  "client_bytes p = (case p of From_client x _ \<Rightarrow> x | _ \<Rightarrow> [])"

definition target_bytes :: "tunnel_piece \<Rightarrow> string" where
  "target_bytes p = (case p of From_target x _ \<Rightarrow> x | _ \<Rightarrow> [])"

theorem tunnel_first_end:
  "tunnel_copy ps =
     \<lparr>tt_to_target = concat (map client_bytes (takeWhile goes_on ps)),
      tt_to_client = concat (map target_bytes (takeWhile goes_on ps)), tt_closed = list_ex (Not \<circ> goes_on) ps\<rparr>"
  by (induction ps rule: tunnel_copy.induct) (simp_all add: goes_on_def client_bytes_def target_bytes_def Let_def)

end
