(* ===== verification/Sse.thy ===== *)
theory Sse
  imports Json Http "HOL-Library.AList"
begin

text \<open>
  The event stream of the MCP gateway (internal/mcp/sse.go): clients by correlation identifier, each
  with a channel, and the ring buffer from which a client that reconnects is served.

  Channels are a heap of their own, since a channel outlives its entry in the map of clients. An
  operation that would panic, a send on a closed channel or a second close, is \<open>None\<close>. \<open>Publish\<close>
  takes its identifier before it takes the lock, so it is two steps that others may come between.
  Identifiers are unbounded; the counter of the code wraps after \<^verbatim>\<open>2^63\<close> events.
  Encoding an event's data is a parameter.
\<close>

section \<open>State\<close>

record SSEEvent =
  se_ID :: int
  se_Type :: string
  se_Data :: json

record SSEChan =
  ec_queue :: "SSEEvent list"
  ec_closed :: bool

record SSEBroker =
  sb_clients :: "(string \<times> nat) list"
  sb_chans :: "SSEChan list"
  sb_buffer :: "SSEEvent list"
  sb_bufSize :: nat
  sb_nextID :: int

definition NewSSEBroker :: "int \<Rightarrow> SSEBroker" where
  "NewSSEBroker bufferSize =
     \<lparr>sb_clients = [], sb_chans = [], sb_buffer = [],
      sb_bufSize = (if bufferSize \<le> 0 then 100 else nat bufferSize), sb_nextID = 0\<rparr>"

definition chan_capacity :: nat where "chan_capacity = 100"

section \<open>Operations\<close>

definition publish_id :: "string \<Rightarrow> json \<Rightarrow> SSEBroker \<Rightarrow> SSEEvent \<times> SSEBroker" where
  "publish_id eventType data b =
     (let n = sb_nextID b + 1 in
      (\<lparr>se_ID = n, se_Type = eventType, se_Data = data\<rparr>, b\<lparr>sb_nextID := n\<rparr>))"

text \<open>The send with a default: an event for a full channel is dropped.\<close>

definition offer :: "SSEEvent \<Rightarrow> SSEChan \<Rightarrow> SSEChan option" where
  "offer event ch =
     (if ec_closed ch then None
      else Some (if length (ec_queue ch) < chan_capacity then ch\<lparr>ec_queue := ec_queue ch @ [event]\<rparr> else ch))"

definition publish_store :: "string \<Rightarrow> SSEEvent \<Rightarrow> SSEBroker \<Rightarrow> SSEBroker option" where
  "publish_store correlationID event b =
     (let kept = (if length (sb_buffer b) \<ge> sb_bufSize b then drop 1 (sb_buffer b) else sb_buffer b);
          b1 = b\<lparr>sb_buffer := kept @ [event]\<rparr>
      in case map_of (sb_clients b) correlationID of
           None \<Rightarrow> Some b1
         | Some i \<Rightarrow> map_option (\<lambda>ch. b1\<lparr>sb_chans := (sb_chans b)[i := ch]\<rparr>) (offer event (sb_chans b ! i)))"

definition Publish :: "string \<Rightarrow> string \<Rightarrow> json \<Rightarrow> SSEBroker \<Rightarrow> SSEBroker option" where
  "Publish correlationID eventType data b =
     (let (event, b1) = publish_id eventType data b in publish_store correlationID event b1)"

definition Subscribe :: "string \<Rightarrow> SSEBroker \<Rightarrow> nat \<times> SSEBroker" where
  "Subscribe correlationID b =
     (let i = length (sb_chans b) in
      (i, b\<lparr>sb_clients := AList.update correlationID i (sb_clients b),
            sb_chans := sb_chans b @ [\<lparr>ec_queue = [], ec_closed = False\<rparr>]\<rparr>))"

definition Unsubscribe :: "string \<Rightarrow> SSEBroker \<Rightarrow> SSEBroker option" where
  "Unsubscribe correlationID b =
     (case map_of (sb_clients b) correlationID of
        None \<Rightarrow> Some b
      | Some i \<Rightarrow>
          (if ec_closed (sb_chans b ! i) then None
           else Some (b\<lparr>sb_clients := AList.delete correlationID (sb_clients b),
                        sb_chans := (sb_chans b)[i := (sb_chans b ! i)\<lparr>ec_closed := True\<rparr>]\<rparr>)))"

definition EventsSince :: "int \<Rightarrow> SSEBroker \<Rightarrow> SSEEvent list" where
  "EventsSince lastID b = filter (\<lambda>e. se_ID e > lastID) (sb_buffer b)"

text \<open>What a receive gives: an event, the end of a closed channel, or nothing yet.\<close>

datatype received = Got SSEEvent | Ended | Waits

definition receive :: "nat \<Rightarrow> SSEBroker \<Rightarrow> received \<times> SSEBroker" where
  "receive i b =
     (let ch = sb_chans b ! i in
      case ec_queue ch of
        e # q \<Rightarrow> (Got e, b\<lparr>sb_chans := (sb_chans b)[i := ch\<lparr>ec_queue := q\<rparr>]\<rparr>)
      | [] \<Rightarrow> ((if ec_closed ch then Ended else Waits), b))"

section \<open>The handler\<close>

definition sse_headers :: headers where
  "sse_headers =
     [(''Content-Type'', ''text/event-stream''), (''Cache-Control'', ''no-cache''), (''Connection'', ''keep-alive'')]"

text \<open>\<open>query\<close> is \<^verbatim>\<open>c.Query("correlation_id", "default")\<close>; the result is the channel of the client and what is replayed to it.\<close>

definition HandleSSE :: "headers \<Rightarrow> string \<Rightarrow> SSEBroker \<Rightarrow> (string \<times> nat \<times> SSEEvent list) \<times> SSEBroker" where
  "HandleSSE hs query b =
     (let given = header_get hs ''X-Correlation-ID'';
          correlationID = (if given = [] then query else given);
          lastEventID = header_get hs ''Last-Event-ID'';
          replay = (if lastEventID = [] then []
                    else (case ParseInt64 lastEventID of Some n \<Rightarrow> EventsSince n b | None \<Rightarrow> []));
          (i, b') = Subscribe correlationID b
      in ((correlationID, i, replay), b'))"

definition writeSSEEventTo :: "(json \<Rightarrow> string) \<Rightarrow> SSEEvent \<Rightarrow> string" where
  "writeSSEEventTo marshal e =
     ''id: '' @ int_dec (se_ID e) @ nl @ ''event: '' @ se_Type e @ nl @
     ''data: '' @ marshal (se_Data e) @ nl @ nl"

definition keepalive :: string where "keepalive = '': keepalive'' @ nl @ nl"

text \<open>
  The stream writer: the replayed events, then round after round an event, a keepalive after a silence
  of 30 seconds (None), or the end; \<open>takes\<close> says which of the writes succeed. It ends in \<open>Unsubscribe\<close>.
\<close>

fun write_all :: "(nat \<Rightarrow> bool) \<Rightarrow> nat \<Rightarrow> string list \<Rightarrow> string list \<times> bool" where
  "write_all takes k [] = ([], True)"
| "write_all takes k (w # ws) =
     (if takes k then (let (out, ok) = write_all takes (k + 1) ws in (w # out, ok)) else ([], False))"

definition sse_stream ::
  "(json \<Rightarrow> string) \<Rightarrow> (nat \<Rightarrow> bool) \<Rightarrow> SSEEvent list \<Rightarrow> SSEEvent option list \<Rightarrow> string list" where
  "sse_stream marshal takes replay rounds =
     (let (out, ok) = write_all takes 0 (map (writeSSEEventTo marshal) replay) in
      if \<not> ok then out
      else out @ fst (write_all takes (length replay)
        (map (\<lambda>r. case r of Some e \<Rightarrow> writeSSEEventTo marshal e | None \<Rightarrow> keepalive) rounds)))"

section \<open>Runs\<close>

text \<open>What may happen, in any order and by any client; \<open>OpStore k\<close> is the second half of a publication.\<close>

datatype op =
    OpTake string string json
  | OpStore nat
  | OpSubscribe string
  | OpUnsubscribe string
  | OpReceive nat

type_synonym sse_state = "SSEBroker \<times> (string \<times> SSEEvent) list"

fun run_op :: "op \<Rightarrow> sse_state \<Rightarrow> sse_state option" where
  "run_op (OpTake c t d) (b, pend) = (let (e, b') = publish_id t d b in Some (b', pend @ [(c, e)]))"
| "run_op (OpStore k) (b, pend) =
     (if k < length pend
      then map_option (\<lambda>b'. (b', take k pend @ drop (Suc k) pend)) (publish_store (fst (pend ! k)) (snd (pend ! k)) b)
      else Some (b, pend))"
| "run_op (OpSubscribe c) (b, pend) = Some (snd (Subscribe c b), pend)"
| "run_op (OpUnsubscribe c) (b, pend) = map_option (\<lambda>b'. (b', pend)) (Unsubscribe c b)"
| "run_op (OpReceive i) (b, pend) = (if i < length (sb_chans b) then Some (snd (receive i b), pend) else Some (b, pend))"

fun run_ops :: "op list \<Rightarrow> sse_state \<Rightarrow> sse_state option" where
  "run_ops [] s = Some s"
| "run_ops (x # xs) s = (case run_op x s of None \<Rightarrow> None | Some s' \<Rightarrow> run_ops xs s')"

section \<open>The invariant\<close>

definition clients_ok :: "SSEBroker \<Rightarrow> bool" where
  "clients_ok b \<longleftrightarrow>
     (\<forall>c i. map_of (sb_clients b) c = Some i \<longrightarrow> i < length (sb_chans b) \<and> \<not> ec_closed (sb_chans b ! i)) \<and>
     (\<forall>c c' i. map_of (sb_clients b) c = Some i \<longrightarrow> map_of (sb_clients b) c' = Some i \<longrightarrow> c = c')"

definition bounded :: "SSEBroker \<Rightarrow> bool" where
  "bounded b \<longleftrightarrow> 0 < sb_bufSize b \<and> length (sb_buffer b) \<le> sb_bufSize b \<and>
     (\<forall>ch \<in> set (sb_chans b). length (ec_queue ch) \<le> chan_capacity)"

definition numbered :: "sse_state \<Rightarrow> bool" where
  "numbered s \<longleftrightarrow> (let ids = map se_ID (sb_buffer (fst s)) @ map (se_ID \<circ> snd) (snd s) in
     distinct ids \<and> (\<forall>n \<in> set ids. 0 < n \<and> n \<le> sb_nextID (fst s)) \<and> 0 \<le> sb_nextID (fst s))"

definition sse_inv :: "sse_state \<Rightarrow> bool" where
  "sse_inv s \<longleftrightarrow> clients_ok (fst s) \<and> bounded (fst s) \<and> numbered s"

lemma sse_inv_New [inv_intros]: "sse_inv (NewSSEBroker n, [])"
  by (simp add: sse_inv_def clients_ok_def bounded_def numbered_def NewSSEBroker_def)

lemma offer_open:
  "\<not> ec_closed ch \<Longrightarrow> \<exists>ch'. offer e ch = Some ch' \<and> \<not> ec_closed ch' \<and>
     (length (ec_queue ch) \<le> chan_capacity \<longrightarrow> length (ec_queue ch') \<le> chan_capacity)"
  by (auto simp: offer_def)

lemma clients_ok_set:
  "clients_ok b \<Longrightarrow> (i < length (sb_chans b) \<Longrightarrow> ec_closed ch = ec_closed (sb_chans b ! i)) \<Longrightarrow>
     clients_ok (b\<lparr>sb_chans := (sb_chans b)[i := ch]\<rparr>)"
  unfolding clients_ok_def by (cases "i < length (sb_chans b)") (auto simp: nth_list_update list_update_beyond)

lemma bounded_set:
  "bounded b \<Longrightarrow> length (ec_queue ch) \<le> chan_capacity \<Longrightarrow> bounded (b\<lparr>sb_chans := (sb_chans b)[i := ch]\<rparr>)"
  unfolding bounded_def by (auto dest!: set_update_subset_insert [THEN subsetD])

lemma clients_ok_frame [simp]:
  "clients_ok (b\<lparr>sb_buffer := x\<rparr>) = clients_ok b" "clients_ok (b\<lparr>sb_nextID := n\<rparr>) = clients_ok b"
  "bounded (b\<lparr>sb_nextID := n\<rparr>) = bounded b"
  by (simp_all add: clients_ok_def bounded_def)

lemma numbered_frame [simp]:
  "numbered (b\<lparr>sb_chans := x\<rparr>, pend) = numbered (b, pend)"
  "numbered (b\<lparr>sb_clients := y\<rparr>, pend) = numbered (b, pend)"
  "numbered (b\<lparr>sb_clients := y, sb_chans := x\<rparr>, pend) = numbered (b, pend)"
  by (simp_all add: numbered_def)

lemma publish_store_ok:
  assumes "clients_ok b" "bounded b"
  obtains b' where "publish_store c e b = Some b'" "clients_ok b'" "bounded b'"
    "sb_buffer b' = (if length (sb_buffer b) \<ge> sb_bufSize b then drop 1 (sb_buffer b) else sb_buffer b) @ [e]"
    "sb_nextID b' = sb_nextID b" "sb_bufSize b' = sb_bufSize b"
proof -
  let ?kept = "if length (sb_buffer b) \<ge> sb_bufSize b then drop 1 (sb_buffer b) else sb_buffer b"
  let ?b1 = "b\<lparr>sb_buffer := ?kept @ [e]\<rparr>"
  have b1: "clients_ok ?b1" "bounded ?b1" using assms by (auto simp: bounded_def)
  show thesis
  proof (cases "map_of (sb_clients b) c")
    case None
    with b1 show thesis by (intro that [of ?b1]) (simp_all add: publish_store_def Let_def)
  next
    case (Some i)
    with assms(1) have i: "i < length (sb_chans b)" "\<not> ec_closed (sb_chans b ! i)" by (auto simp: clients_ok_def)
    from offer_open [OF i(2), of e] obtain ch where ch: "offer e (sb_chans b ! i) = Some ch" "\<not> ec_closed ch"
      "length (ec_queue (sb_chans b ! i)) \<le> chan_capacity \<longrightarrow> length (ec_queue ch) \<le> chan_capacity" by blast
    with i assms(2) have "length (ec_queue ch) \<le> chan_capacity" by (auto simp: bounded_def)
    with b1 ch i have "clients_ok (?b1\<lparr>sb_chans := (sb_chans ?b1)[i := ch]\<rparr>)"
      "bounded (?b1\<lparr>sb_chans := (sb_chans ?b1)[i := ch]\<rparr>)"
      by (intro clients_ok_set bounded_set; simp)+
    with Some ch show thesis
      by (intro that [of "?b1\<lparr>sb_chans := (sb_chans b)[i := ch]\<rparr>"]) (simp_all add: publish_store_def Let_def)
  qed
qed

lemma Subscribe_ok:
  assumes "clients_ok b" "bounded b"
  shows "clients_ok (snd (Subscribe c b)) \<and> bounded (snd (Subscribe c b))"
proof -
  have fresh: "map_of (sb_clients b) c' \<noteq> Some (length (sb_chans b))" for c'
    using assms(1) by (auto simp: clients_ok_def)
  have "clients_ok (snd (Subscribe c b))"
    unfolding clients_ok_def
  proof (intro conjI allI impI)
    fix c' i assume "map_of (sb_clients (snd (Subscribe c b))) c' = Some i"
    with assms(1) show "i < length (sb_chans (snd (Subscribe c b)))" "\<not> ec_closed (sb_chans (snd (Subscribe c b)) ! i)"
      by (auto simp: Subscribe_def Let_def update_conv' clients_ok_def nth_append less_Suc_eq split: if_splits)
  next
    fix c1 c2 i assume "map_of (sb_clients (snd (Subscribe c b))) c1 = Some i"
      "map_of (sb_clients (snd (Subscribe c b))) c2 = Some i"
    with assms(1) fresh show "c1 = c2"
      by (auto simp: Subscribe_def Let_def update_conv' clients_ok_def split: if_splits)
  qed
  with assms(2) show ?thesis by (simp add: bounded_def Subscribe_def Let_def)
qed

lemma Unsubscribe_ok:
  assumes "clients_ok b" "bounded b"
  obtains b' where "Unsubscribe c b = Some b'" "clients_ok b'" "bounded b'"
    "sb_buffer b' = sb_buffer b" "sb_nextID b' = sb_nextID b"
proof (cases "map_of (sb_clients b) c")
  case None
  with assms show thesis by (intro that [of b]) (simp_all add: Unsubscribe_def)
next
  case (Some i)
  let ?ch = "(sb_chans b ! i)\<lparr>ec_closed := True\<rparr>"
  let ?b' = "b\<lparr>sb_clients := AList.delete c (sb_clients b), sb_chans := (sb_chans b)[i := ?ch]\<rparr>"
  from Some assms(1) have i: "i < length (sb_chans b)" "\<not> ec_closed (sb_chans b ! i)" by (auto simp: clients_ok_def)
  have "clients_ok ?b'"
    using assms(1) Some unfolding clients_ok_def
    by (auto simp: delete_conv' nth_list_update split: if_splits)
  moreover have "bounded ?b'"
    using bounded_set [OF assms(2), of ?ch i] assms(2) i by (auto simp: bounded_def)
  ultimately show thesis using Some i by (intro that [of ?b']) (simp_all add: Unsubscribe_def)
qed

lemma receive_ok:
  assumes "clients_ok b" "bounded b" "i < length (sb_chans b)"
  shows "clients_ok (snd (receive i b)) \<and> bounded (snd (receive i b)) \<and>
    sb_buffer (snd (receive i b)) = sb_buffer b \<and> sb_nextID (snd (receive i b)) = sb_nextID b"
proof (cases "ec_queue (sb_chans b ! i)")
  case Nil
  with assms show ?thesis by (simp add: receive_def)
next
  case (Cons e q)
  let ?ch = "(sb_chans b ! i)\<lparr>ec_queue := q\<rparr>"
  from assms(2,3) have "length (ec_queue (sb_chans b ! i)) \<le> chan_capacity" by (simp add: bounded_def)
  with Cons have "length (ec_queue ?ch) \<le> chan_capacity" by simp
  with assms clients_ok_set [OF assms(1), of i ?ch] bounded_set [OF assms(2), of ?ch i] Cons show ?thesis
    by (simp add: receive_def Let_def)
qed

lemma ids_store:
  "distinct (B @ L @ x # R) \<Longrightarrow> distinct ((if P then drop 1 B else B) @ [x] @ L @ R)"
  "set ((if P then drop 1 B else B) @ [x] @ L @ R) \<subseteq> set (B @ L @ x # R)"
  by (auto dest: in_set_dropD)

lemma numbered_store:
  assumes "numbered (b, pend)" "k < length pend"
    and "sb_buffer b' = (if P then drop 1 (sb_buffer b) else sb_buffer b) @ [snd (pend ! k)]"
    and "sb_nextID b' = sb_nextID b"
  shows "numbered (b', take k pend @ drop (Suc k) pend)"
proof -
  let ?f = "se_ID \<circ> snd" and ?B = "map se_ID (sb_buffer b)"
  let ?L = "map ?f (take k pend)" and ?R = "map ?f (drop (Suc k) pend)" and ?x = "?f (pend ! k)"
  have "map ?f pend = map ?f (take k pend @ pend ! k # drop (Suc k) pend)"
    by (simp only: id_take_nth_drop [OF assms(2), symmetric])
  then have old: "map se_ID (sb_buffer b) @ map ?f pend = ?B @ ?L @ ?x # ?R" by simp
  have "map se_ID (sb_buffer b') = (if P then drop 1 ?B else ?B) @ [?x]"
    using assms(3) by (simp add: drop_map)
  then have new: "map se_ID (sb_buffer b') @ map ?f (take k pend @ drop (Suc k) pend) =
      (if P then drop 1 ?B else ?B) @ [?x] @ ?L @ ?R" by simp
  from assms(1) have "distinct (?B @ ?L @ ?x # ?R)" "\<forall>n \<in> set (?B @ ?L @ ?x # ?R). 0 < n \<and> n \<le> sb_nextID b"
    "0 \<le> sb_nextID b" unfolding numbered_def Let_def fst_conv snd_conv old by blast+
  with ids_store [where B = ?B and L = ?L and x = ?x and R = ?R and P = P] show ?thesis
    unfolding numbered_def Let_def fst_conv snd_conv new assms(4) by blast
qed

lemma numbered_take:
  assumes "numbered (b, pend)"
  shows "numbered (b\<lparr>sb_nextID := sb_nextID b + 1\<rparr>, pend @ [(c, \<lparr>se_ID = sb_nextID b + 1, se_Type = t, se_Data = d\<rparr>)])"
proof -
  define ids where "ids = map se_ID (sb_buffer b) @ map (se_ID \<circ> snd) pend"
  from assms have "distinct ids" "\<forall>n \<in> set ids. 0 < n \<and> n \<le> sb_nextID b" "0 \<le> sb_nextID b"
    by (simp_all add: numbered_def ids_def Let_def)
  then have "distinct (ids @ [sb_nextID b + 1])" "\<forall>n \<in> set (ids @ [sb_nextID b + 1]). 0 < n \<and> n \<le> sb_nextID b + 1"
    by auto
  with \<open>0 \<le> sb_nextID b\<close> show ?thesis by (simp add: numbered_def ids_def Let_def)
qed

lemma run_op_inv: "sse_inv s \<Longrightarrow> \<exists>s'. run_op x s = Some s' \<and> sse_inv s'"
proof -
  assume inv: "sse_inv s"
  obtain b pend where s: "s = (b, pend)" by (cases s)
  with inv have ok: "clients_ok b" "bounded b" and num: "numbered (b, pend)" by (simp_all add: sse_inv_def)
  show ?thesis
  proof (cases x)
    case (OpTake c t d)
    with ok numbered_take [OF num, of c t d] show ?thesis by (simp add: s sse_inv_def publish_id_def Let_def)
  next
    case (OpStore k)
    show ?thesis
    proof (cases "k < length pend")
      case True
      obtain b' where b': "publish_store (fst (pend ! k)) (snd (pend ! k)) b = Some b'" "clients_ok b'" "bounded b'"
        "sb_buffer b' = (if length (sb_buffer b) \<ge> sb_bufSize b then drop 1 (sb_buffer b) else sb_buffer b) @ [snd (pend ! k)]"
        "sb_nextID b' = sb_nextID b" using publish_store_ok [OF ok] by metis
      from numbered_store [OF num True b'(4,5)] b'(1-3) True show ?thesis by (simp add: OpStore s sse_inv_def)
    qed (use inv in \<open>simp add: OpStore s\<close>)
  next
    case (OpSubscribe c)
    from Subscribe_ok [OF ok, of c] num show ?thesis
      by (simp add: OpSubscribe s sse_inv_def Subscribe_def Let_def)
  next
    case (OpUnsubscribe c)
    obtain b' where "Unsubscribe c b = Some b'" "clients_ok b'" "bounded b'"
      "sb_buffer b' = sb_buffer b" "sb_nextID b' = sb_nextID b" using Unsubscribe_ok [OF ok] by metis
    with num show ?thesis by (simp add: OpUnsubscribe s sse_inv_def numbered_def)
  next
    case (OpReceive i)
    from receive_ok [OF ok, of i] num inv show ?thesis
      by (simp add: OpReceive s sse_inv_def numbered_def)
  qed
qed

lemma run_ops_inv: "sse_inv s \<Longrightarrow> \<exists>s'. run_ops xs s = Some s' \<and> sse_inv s'"
proof (induction xs arbitrary: s)
  case (Cons x xs)
  from run_op_inv [OF Cons.prems] obtain s' where "run_op x s = Some s'" "sse_inv s'" by blast
  with Cons.IH show ?case by simp
qed simp

section \<open>Publishing in turn\<close>

definition publish_all :: "(string \<times> string \<times> json) list \<Rightarrow> SSEBroker \<Rightarrow> SSEBroker" where
  "publish_all ps b = fold (\<lambda>(c, t, d) b. the (Publish c t d b)) ps b"

fun number_from :: "int \<Rightarrow> (string \<times> string \<times> json) list \<Rightarrow> SSEEvent list" where
  "number_from n [] = []"
| "number_from n ((c, t, d) # ps) = \<lparr>se_ID = n + 1, se_Type = t, se_Data = d\<rparr> # number_from (n + 1) ps"

definition newest :: "nat \<Rightarrow> 'a list \<Rightarrow> 'a list" where
  "newest n xs = drop (length xs - n) xs"

lemma newest_step:
  "0 < n \<Longrightarrow> newest n ((if n \<le> length buf then drop 1 buf else buf) @ e # es) = newest n (buf @ e # es)"
proof (cases "n \<le> length buf")
  case True
  moreover assume "0 < n"
  ultimately obtain a l where "buf = a # l" by (cases buf) simp_all
  with True show ?thesis by (simp add: newest_def Suc_diff_le)
qed simp

lemma publish_all_buffer:
  "clients_ok b \<Longrightarrow> bounded b \<Longrightarrow>
     sb_buffer (publish_all ps b) = newest (sb_bufSize b) (sb_buffer b @ number_from (sb_nextID b) ps)"
proof (induction ps arbitrary: b)
  case Nil
  then show ?case by (simp add: publish_all_def newest_def bounded_def)
next
  case (Cons p ps)
  obtain c t d where p: "p = (c, t, d)" by (cases p)
  let ?e = "\<lparr>se_ID = sb_nextID b + 1, se_Type = t, se_Data = d\<rparr>"
  let ?b1 = "b\<lparr>sb_nextID := sb_nextID b + 1\<rparr>"
  have b1: "clients_ok ?b1" "bounded ?b1" using Cons.prems by simp_all
  obtain b' where b': "publish_store c ?e ?b1 = Some b'" "clients_ok b'" "bounded b'"
    "sb_buffer b' = (if length (sb_buffer ?b1) \<ge> sb_bufSize ?b1 then drop 1 (sb_buffer ?b1) else sb_buffer ?b1) @ [?e]"
    "sb_nextID b' = sb_nextID ?b1" "sb_bufSize b' = sb_bufSize ?b1"
    by (rule publish_store_ok [OF b1])
  from b'(1) have pub: "Publish c t d b = Some b'" by (simp add: Publish_def publish_id_def Let_def)
  have "sb_buffer (publish_all (p # ps) b) = sb_buffer (publish_all ps b')"
    by (simp add: publish_all_def p pub)
  also have "\<dots> = newest (sb_bufSize b)
      ((if sb_bufSize b \<le> length (sb_buffer b) then drop 1 (sb_buffer b) else sb_buffer b) @ ?e #
        number_from (sb_nextID b + 1) ps)"
    unfolding Cons.IH [OF b'(2,3)] b'(4-6) by simp
  also have "\<dots> = newest (sb_bufSize b) (sb_buffer b @ number_from (sb_nextID b) (p # ps))"
    using Cons.prems(2) by (subst newest_step) (simp_all add: bounded_def p)
  finally show ?case .
qed

section \<open>Properties\<close>

text \<open>
  C23. The event broker is safe: whatever clients and publishers do, in any order and however the two
  halves of publications interleave, no event is sent on a closed channel and no channel is closed
  twice; the replay buffer and every channel stay within their bounds; and no two events kept or on
  their way have the same identifier.
\<close>

theorem sse_safe:
  "\<exists>b pend. run_ops ops (NewSSEBroker n, []) = Some (b, pend) \<and>
     length (sb_buffer b) \<le> sb_bufSize b \<and> list_all (\<lambda>ch. length (ec_queue ch) \<le> 100) (sb_chans b) \<and>
     distinct (map se_ID (sb_buffer b) @ map (se_ID \<circ> snd) pend)"
proof -
  from run_ops_inv [OF sse_inv_New] obtain s' where s': "run_ops ops (NewSSEBroker n, []) = Some s'" "sse_inv s'" by blast
  obtain b pend where "s' = (b, pend)" by (cases s')
  with s' show ?thesis
    by (intro exI [of _ b] exI [of _ pend])
      (auto simp: sse_inv_def bounded_def numbered_def chan_capacity_def list_all_iff Let_def)
qed

text \<open>
  What a client that reconnects gets: of events published one after another, the newest that fit
  the buffer whose identifier is past the client's last. They are numbered in the order of publication
  without a gap; and they are the events of all clients, not of the one that asks.
\<close>

theorem EventsSince_replay:
  "EventsSince lastID (publish_all ps (NewSSEBroker n)) =
     filter (\<lambda>e. se_ID e > lastID) (newest (if n \<le> 0 then 100 else nat n) (number_from 0 ps))"
proof -
  have "clients_ok (NewSSEBroker n)" "bounded (NewSSEBroker n)"
    using sse_inv_New [of n] by (simp_all add: sse_inv_def)
  from publish_all_buffer [OF this, of ps] show ?thesis
    by (simp add: EventsSince_def NewSSEBroker_def)
qed

text \<open>
  A second subscription under an identifier takes the first over: the first client's channel stays
  open and gets nothing more, and when the first client leaves it is the second's channel that is
  closed, so that both are cut off.
\<close>

theorem second_subscription_cut_off:
  assumes "Subscribe c b = (i, b1)" "Subscribe c b1 = (j, b2)"
  shows "i \<noteq> j \<and> (\<exists>b3. Unsubscribe c b2 = Some b3 \<and> ec_closed (sb_chans b3 ! j) \<and>
    \<not> ec_closed (sb_chans b3 ! i) \<and> map_of (sb_clients b3) c = None)"
proof -
  from assms have ij: "i = length (sb_chans b)" "j = Suc i"
    "b2 = b1\<lparr>sb_clients := AList.update c j (sb_clients b1), sb_chans := sb_chans b1 @ [\<lparr>ec_queue = [], ec_closed = False\<rparr>]\<rparr>"
    "sb_chans b1 = sb_chans b @ [\<lparr>ec_queue = [], ec_closed = False\<rparr>]"
    by (auto simp: Subscribe_def Let_def)
  have j: "length (sb_chans b1) = j" using ij by simp
  then have "sb_chans b2 ! j = \<lparr>ec_queue = [], ec_closed = False\<rparr>" "sb_chans b2 ! i = \<lparr>ec_queue = [], ec_closed = False\<rparr>"
    "map_of (sb_clients b2) c = Some j" "length (sb_chans b2) = Suc j"
    using ij by (simp_all add: nth_append update_conv')
  with ij(2) show ?thesis by (simp add: Unsubscribe_def delete_conv')
qed

theorem second_subscription_cut_off_witness:
  "(0 :: nat) \<noteq> 1 \<and> (\<exists>b3. Unsubscribe ''c'' (snd (Subscribe ''c'' (snd (Subscribe ''c'' (NewSSEBroker 5))))) = Some b3 \<and>
    ec_closed (sb_chans b3 ! 1) \<and> \<not> ec_closed (sb_chans b3 ! 0) \<and> map_of (sb_clients b3) ''c'' = None)"
  by (rule second_subscription_cut_off [of _ "NewSSEBroker 5" _ "snd (Subscribe ''c'' (NewSSEBroker 5))"]) code_simp+

end
