(* ===== verification/Exporters.thy ===== *)
theory Exporters
  imports Sdr Upstream
begin

text \<open>
  The exporters of decision records (internal/telemetry/exporters: jsonl.go, http.go, heartbeat.go):
  the spool file with a record on each line, the uploader that reads it from an offset it keeps in a
  file of its own, and the heartbeat.

  Encoding and decoding a record are parameters, and so are the HTTP client, the errors of files and
  what a write leaves in the offset file. A record is of any type.
\<close>

section \<open>The spool\<close>

text \<open>
  The file and the buffer in front of it, which keeps an error for good. A buffer that fills is
  flushed early; the model writes everything at the flush. A write fails after some bytes.
\<close>

record JSONLExporter =
  je_file :: string
  je_buffered :: string
  je_error :: "string option"

definition NewJSONLExporter :: "string option \<Rightarrow> string option \<Rightarrow> string \<Rightarrow> string + JSONLExporter" where
  "NewJSONLExporter mkdir_error open_error existing =
     (case mkdir_error of Some e \<Rightarrow> Inl e
      | None \<Rightarrow> (case open_error of Some e \<Rightarrow> Inl e
                 | None \<Rightarrow> Inr \<lparr>je_file = existing, je_buffered = [], je_error = None\<rparr>))"

definition bufio_write :: "string \<Rightarrow> JSONLExporter \<Rightarrow> JSONLExporter" where
  "bufio_write data w = (if je_error w = None then w\<lparr>je_buffered := je_buffered w @ data\<rparr> else w)"

definition bufio_flush :: "(nat \<times> string) option \<Rightarrow> JSONLExporter \<Rightarrow> string option \<times> JSONLExporter" where
  "bufio_flush io w =
     (case je_error w of
        Some e \<Rightarrow> (Some e, w)
      | None \<Rightarrow>
          (case io of
             None \<Rightarrow> (None, w\<lparr>je_file := je_file w @ je_buffered w, je_buffered := []\<rparr>)
           | Some (n, e) \<Rightarrow>
               (Some e, w\<lparr>je_file := je_file w @ take n (je_buffered w), je_buffered := drop n (je_buffered w),
                          je_error := Some e\<rparr>)))"

definition JSONL_Export ::
  "('r \<Rightarrow> string option) \<Rightarrow> (nat \<times> string) option \<Rightarrow> 'r list \<Rightarrow> JSONLExporter \<Rightarrow> string option \<times> JSONLExporter" where
  "JSONL_Export marshal io records w =
     bufio_flush io
       (fold (\<lambda>r w. case marshal r of None \<Rightarrow> w | Some data \<Rightarrow> bufio_write nl (bufio_write data w)) records w)"

definition JSONL_Close ::
  "(nat \<times> string) option \<Rightarrow> string option \<Rightarrow> JSONLExporter \<Rightarrow> string option \<times> JSONLExporter" where
  "JSONL_Close io close_error w = (close_error, snd (bufio_flush io w))"

section \<open>The uploader\<close>

record HTTPBatchConfig =
  hb_ProURL :: string
  hb_APIKey :: string
  hb_SpoolPath :: string
  hb_OffsetPath :: string
  hb_BatchSize :: int
  hb_FlushInterval :: int

definition NewHTTPBatchExporter :: "HTTPBatchConfig \<Rightarrow> HTTPBatchConfig" where
  "NewHTTPBatchExporter cfg =
     cfg\<lparr>hb_BatchSize := (if hb_BatchSize cfg \<le> 0 then 50 else hb_BatchSize cfg),
         hb_FlushInterval := (if hb_FlushInterval cfg \<le> 0 then 10 * 1000000000 else hb_FlushInterval cfg)\<rparr>"

text \<open>
  What one run of the uploader depends on: the answer to the n-th batch that is sent, and what the
  offset file holds after a write.
\<close>

record 'r upload_env =
  ue_decode :: "string \<Rightarrow> 'r option"
  ue_encode :: "'r list \<Rightarrow> string + string"   \<comment> \<open>the batch, with a fresh identifier\<close>
  ue_http :: "nat \<Rightarrow> http_client"
  ue_write :: "string \<Rightarrow> string option"   \<comment> \<open>what the offset file holds after a write, if it can be read\<close>

record 'r uploader =
  up_offset :: "string option"   \<comment> \<open>the offset file, none when it cannot be read\<close>
  up_sent :: nat
  up_accepted :: "'r list list"

definition sendBatch :: "'r upload_env \<Rightarrow> HTTPBatchConfig \<Rightarrow> nat \<Rightarrow> 'r list \<Rightarrow> string option" where
  "sendBatch en cfg n records =
     (case ue_encode en records of
        Inl e \<Rightarrow> Some e
      | Inr data \<Rightarrow>
          (case hc_new (ue_http en n) ''POST'' (hb_ProURL cfg) of
             Some e \<Rightarrow> Some e
           | None \<Rightarrow>
               (case hc_do (ue_http en n) \<lparr>og_Method = ''POST'', og_URL = hb_ProURL cfg,
                   og_Headers = [(''Content-Type'', ''application/json'')] @
                     (if hb_APIKey cfg \<noteq> [] then [(''Authorization'', ''Bearer '' @ hb_APIKey cfg)] else []),
                   og_Body = data\<rparr> of
                  Inl e \<Rightarrow> Some e
                | Inr resp \<Rightarrow>
                    if hr_Status resp \<ge> 400 then Some (''ingest returned '' @ nat_dec (hr_Status resp)) else None)))"

definition loadOffset :: "'r uploader \<Rightarrow> int" where
  "loadOffset u =
     (case up_offset u of
        None \<Rightarrow> 0
      | Some data \<Rightarrow> (case ParseInt64 (TrimSpace data) of Some n \<Rightarrow> n | None \<Rightarrow> 0))"

definition saveOffset :: "'r upload_env \<Rightarrow> int \<Rightarrow> 'r uploader \<Rightarrow> 'r uploader" where
  "saveOffset en n u = u\<lparr>up_offset := ue_write en (int_dec n)\<rparr>"

text \<open>
  \<^verbatim>\<open>bufio.Scanner\<close> with its line splitting and a buffer of 1 MB: a line without its end and
  without a carriage return before it, or what is left at the end; it stops for good at a line that
  does not fit.
\<close>

definition line_limit :: nat where "line_limit = 1048576"

definition drop_cr :: "string \<Rightarrow> string" where
  "drop_cr s = (if s \<noteq> [] \<and> last s = char_of (13 :: nat) then butlast s else s)"

definition scan_line :: "string \<Rightarrow> (string \<times> string) option" where
  "scan_line s =
     (case IndexByte s newline of
        Some i \<Rightarrow> if i < line_limit then Some (drop_cr (take i s), drop (i + 1) s) else None
      | None \<Rightarrow> if s \<noteq> [] \<and> length s < line_limit then Some (drop_cr s, []) else None)"

lemma scan_line_shorter: "scan_line s = Some (l, rest) \<Longrightarrow> length rest < length s"
  by (auto simp: scan_line_def dest!: IndexByte_Some split: option.splits if_splits)

text \<open>Sending a batch, and on success the new offset.\<close>

definition upload_batch ::
  "'r upload_env \<Rightarrow> HTTPBatchConfig \<Rightarrow> 'r list \<Rightarrow> int \<Rightarrow> 'r uploader \<Rightarrow> bool \<times> 'r uploader" where
  "upload_batch en cfg batch offset u =
     (let u1 = u\<lparr>up_sent := up_sent u + 1\<rparr> in
      case sendBatch en cfg (up_sent u) batch of
        Some e \<Rightarrow> (False, u1)
      | None \<Rightarrow> (True, saveOffset en offset (u1\<lparr>up_accepted := up_accepted u1 @ [batch]\<rparr>)))"

function upload_loop ::
  "'r upload_env \<Rightarrow> HTTPBatchConfig \<Rightarrow> string \<Rightarrow> 'r list \<Rightarrow> int \<Rightarrow> int \<Rightarrow> 'r uploader \<Rightarrow> 'r uploader" where
  "upload_loop en cfg s batch bytesRead offset u =
     (case scan_line s of
        None \<Rightarrow> if batch \<noteq> [] then snd (upload_batch en cfg batch (offset + bytesRead) u) else u
      | Some (line, rest) \<Rightarrow>
          (let bytes = bytesRead + int (length line) + 1 in
           case ue_decode en line of
             None \<Rightarrow> upload_loop en cfg rest batch bytes offset u
           | Some r \<Rightarrow>
               (let batch' = batch @ [r] in
                if int (length batch') \<ge> hb_BatchSize cfg then
                  (let (ok, u') = upload_batch en cfg batch' (offset + bytes) u in
                   if ok then upload_loop en cfg rest [] 0 (offset + bytes) u' else u')
                else upload_loop en cfg rest batch' bytes offset u)))"
  by pat_completeness auto
termination
  by (relation "measure (\<lambda>(_, _, s, _). length s)") (auto dest: scan_line_shorter)

declare upload_loop.simps [simp del]

text \<open>A spool that cannot be opened is None. A negative offset does not seek.\<close>

definition uploadPending ::
  "'r upload_env \<Rightarrow> HTTPBatchConfig \<Rightarrow> string option \<Rightarrow> 'r uploader \<Rightarrow> 'r uploader" where
  "uploadPending en cfg spool u =
     (case spool of
        None \<Rightarrow> u
      | Some content \<Rightarrow>
          (let offset = loadOffset u in
           upload_loop en cfg (if offset > 0 then drop (nat offset) content else content) [] 0 offset u))"

text \<open>The loop of the uploader: ticks, each on what the spool then holds, until the context is done.\<close>

datatype upload_event = Tick "string option" | Done "string option"

fun uploadLoop ::
  "'r upload_env \<Rightarrow> HTTPBatchConfig \<Rightarrow> upload_event list \<Rightarrow> 'r uploader \<Rightarrow> 'r uploader \<times> bool" where
  "uploadLoop en cfg [] u = (u, False)"
| "uploadLoop en cfg (Tick spool # es) u = uploadLoop en cfg es (uploadPending en cfg spool u)"
| "uploadLoop en cfg (Done spool # es) u = (uploadPending en cfg spool u, True)"

section \<open>The heartbeat\<close>

record HeartbeatConfig =
  hc_ProURL :: string
  hc_APIKey :: string
  hc_AgentID :: string
  hc_TenantID :: string
  hc_CorrelationID :: string
  hc_Interval :: int
  hc_Version :: string

definition NewHeartbeatEmitter :: "HeartbeatConfig \<Rightarrow> HeartbeatConfig" where
  "NewHeartbeatEmitter cfg =
     cfg\<lparr>hc_Interval := (if hc_Interval cfg \<le> 0 then 30 * 1000000000 else hc_Interval cfg)\<rparr>"

text \<open>The fields that the emitter leaves out have their zero values.\<close>

record HeartbeatPayload =
  hp_AgentID :: string
  hp_TenantID :: string
  hp_CorrelationID :: string
  hp_Env :: string
  hp_Service :: string
  hp_Region :: string
  hp_SidecarVersion :: string
  hp_PolicyBundleHash :: string
  hp_ConfigHash :: string
  hp_PendingCount :: int
  hp_CommandsBlocked :: int
  hp_CommandsAllowed :: int
  hp_UptimeSeconds :: int
  hp_Metadata :: gomap

definition heartbeat_payload :: "HeartbeatConfig \<Rightarrow> HeartbeatPayload" where
  "heartbeat_payload cfg =
     \<lparr>hp_AgentID = hc_AgentID cfg, hp_TenantID = hc_TenantID cfg, hp_CorrelationID = hc_CorrelationID cfg,
      hp_Env = [], hp_Service = [], hp_Region = [], hp_SidecarVersion = hc_Version cfg, hp_PolicyBundleHash = [],
      hp_ConfigHash = [], hp_PendingCount = 0, hp_CommandsBlocked = 0, hp_CommandsAllowed = 0, hp_UptimeSeconds = 0,
      hp_Metadata = []\<rparr>"

datatype beat = NilRequest | Beat Outgoing

text \<open>The error of \<^verbatim>\<open>http.NewRequest\<close> is dropped, and the nil request is used.\<close>

definition heartbeat_send :: "(HeartbeatPayload \<Rightarrow> string) \<Rightarrow> http_client \<Rightarrow> HeartbeatConfig \<Rightarrow> beat" where
  "heartbeat_send encode hc cfg =
     (case hc_new hc ''POST'' (hc_ProURL cfg) of
        Some e \<Rightarrow> NilRequest
      | None \<Rightarrow> Beat \<lparr>og_Method = ''POST'', og_URL = hc_ProURL cfg,
          og_Headers = [(''Content-Type'', ''application/json'')] @
            (if hc_APIKey cfg \<noteq> [] then [(''Authorization'', ''Bearer '' @ hc_APIKey cfg)] else []),
          og_Body = encode (heartbeat_payload cfg)\<rparr>)"

text \<open>The loop: a beat for each tick, until the context is done or the process is gone.\<close>

fun heartbeat_loop ::
  "(HeartbeatPayload \<Rightarrow> string) \<Rightarrow> http_client \<Rightarrow> HeartbeatConfig \<Rightarrow> nat \<Rightarrow> Outgoing list \<times> bool" where
  "heartbeat_loop payload hc cfg 0 = ([], False)"
| "heartbeat_loop payload hc cfg (Suc ticks) =
     (case heartbeat_send payload hc cfg of
        NilRequest \<Rightarrow> ([], True)
      | Beat out \<Rightarrow> (let (outs, crashed) = heartbeat_loop payload hc cfg ticks in (out # outs, crashed)))"

section \<open>Facts\<close>

text \<open>The spool of some records.\<close>

definition spool_text :: "('r \<Rightarrow> string) \<Rightarrow> 'r list \<Rightarrow> string" where
  "spool_text enc rs = concat (map (\<lambda>r. enc r @ nl) rs)"

lemma spool_text_simps [simp]:
  "spool_text enc [] = []" "spool_text enc (r # rs) = enc r @ nl @ spool_text enc rs"
  "spool_text enc (rs @ rs') = spool_text enc rs @ spool_text enc rs'"
  by (simp_all add: spool_text_def)

lemma length_nl [simp]: "length nl = 1"
  by (simp add: nl_def)

text \<open>A record that survives the spool: one line, not too long, that decodes to it.\<close>

definition spoolable :: "(string \<Rightarrow> 'r option) \<Rightarrow> ('r \<Rightarrow> string) \<Rightarrow> 'r \<Rightarrow> bool" where
  "spoolable decode enc r \<longleftrightarrow>
     decode (enc r) = Some r \<and> newline \<notin> set (enc r) \<and> drop_cr (enc r) = enc r \<and> length (enc r) < line_limit"

lemma scan_line_record:
  "spoolable decode enc r \<Longrightarrow> scan_line (enc r @ nl @ rest) = Some (enc r, rest)"
  by (simp add: spoolable_def scan_line_def nl_def IndexByte_append)

lemma scan_line_Nil [simp]: "scan_line [] = None"
  by (simp add: scan_line_def)

lemma saveOffset_simps [simp]:
  "up_accepted (saveOffset en n u) = up_accepted u" "up_sent (saveOffset en n u) = up_sent u"
  by (simp_all add: saveOffset_def)

lemma load_saveOffset:
  fixes en :: "'r upload_env"
  shows "ue_write en = Some \<Longrightarrow> 0 \<le> n \<Longrightarrow> n < 2 ^ 63 \<Longrightarrow> loadOffset (saveOffset en n u) = n"
  using ParseInt64_nat_dec [of "nat n"]
  by (simp add: loadOffset_def saveOffset_def int_dec_def TrimSpace_nat_dec nat_less_iff)

lemma upload_batch_cases:
  assumes "upload_batch en cfg batch n u = (ok, u')"
  obtains (failed) "\<not> ok" "up_accepted u' = up_accepted u" "up_offset u' = up_offset u"
      "sendBatch en cfg (up_sent u) batch \<noteq> None"
  | (accepted) "ok" "up_accepted u' = up_accepted u @ [batch]" "up_offset u' = ue_write en (int_dec n)"
  using assms by (auto simp: upload_batch_def Let_def saveOffset_def split: option.splits)

lemma loadOffset_cong: "up_offset u' = up_offset u \<Longrightarrow> loadOffset u' = loadOffset u"
  by (simp add: loadOffset_def)

lemma loadOffset_Some:
  fixes en :: "'r upload_env" and u' :: "'r uploader"
  shows "ue_write en = Some \<Longrightarrow> 0 \<le> n \<Longrightarrow> n < 2 ^ 63 \<Longrightarrow> up_offset u' = ue_write en (int_dec n) \<Longrightarrow> loadOffset u' = n"
  using load_saveOffset [of en n u'] by (simp add: loadOffset_def saveOffset_def)

text \<open>
  The uploader on the records \<open>rs\<close> that it has not read yet, with a batch it has read: either nothing
  more is accepted, or the batch and the first \<open>m\<close> of them, and the offset is past them.
\<close>

definition uploads ::
  "('r \<Rightarrow> string) \<Rightarrow> 'r list \<Rightarrow> int \<Rightarrow> 'r list \<Rightarrow> nat \<Rightarrow> 'r uploader \<Rightarrow> 'r uploader \<Rightarrow> bool" where
  "uploads enc batch offset rs m u u' \<longleftrightarrow>
     concat (up_accepted u') = concat (up_accepted u) @ batch @ take m rs \<and> m \<le> length rs \<and>
     loadOffset u' = offset + int (length (spool_text enc (take m rs)))"

lemma uploads_Cons:
  "uploads enc [] (offset + int (length (enc r)) + 1) rs m u u' \<Longrightarrow>
   concat (up_accepted u) = concat (up_accepted u0) @ batch @ [r] \<Longrightarrow>
   uploads enc batch offset (r # rs) (Suc m) u0 u'"
  by (simp add: uploads_def)

lemma uploads_shift:
  "uploads enc (batch @ [r]) (offset + int (length (enc r)) + 1) rs m u u' \<Longrightarrow>
   uploads enc batch offset (r # rs) (Suc m) u u'"
  by (simp add: uploads_def)

text \<open>What a run of the loop may come to, and what it comes to when nothing is refused.\<close>

definition progress ::
  "'r upload_env \<Rightarrow> HTTPBatchConfig \<Rightarrow> ('r \<Rightarrow> string) \<Rightarrow> 'r list \<Rightarrow> int \<Rightarrow> int \<Rightarrow> 'r list \<Rightarrow> 'r uploader \<Rightarrow>
   'r uploader \<Rightarrow> bool" where
  "progress en cfg enc batch offset bytes rs u u' \<longleftrightarrow>
     (up_accepted u' = up_accepted u \<and> loadOffset u' = offset \<or> (\<exists>m. uploads enc batch (offset + bytes) rs m u u')) \<and>
     ((\<forall>n recs. sendBatch en cfg n recs = None) \<longrightarrow> uploads enc batch (offset + bytes) rs (length rs) u u')"

lemma progress_refused:
  "up_accepted u' = up_accepted u \<Longrightarrow> up_offset u' = up_offset u \<Longrightarrow> loadOffset u = offset \<Longrightarrow>
   sendBatch en cfg n recs \<noteq> None \<Longrightarrow> progress en cfg enc batch offset bytes rs u u'"
  by (auto simp: progress_def dest: loadOffset_cong)

lemma progress_shift:
  assumes "progress en cfg enc (batch @ [r]) offset (bytes + int (length (enc r)) + 1) rs u u'"
  shows "progress en cfg enc batch offset bytes (r # rs) u u'"
proof -
  have "offset + (bytes + int (length (enc r)) + 1) = offset + bytes + int (length (enc r)) + 1" by simp
  with assms show ?thesis unfolding progress_def by (auto dest: uploads_shift)
qed

lemma progress_accepted:
  assumes "progress en cfg enc [] (offset + (bytes + int (length (enc r)) + 1)) 0 rs u1 u'"
    and "concat (up_accepted u1) = concat (up_accepted u) @ batch @ [r]"
  shows "progress en cfg enc batch offset bytes (r # rs) u u'"
proof -
  have sum: "offset + (bytes + int (length (enc r)) + 1) + 0 = offset + bytes + int (length (enc r)) + 1" by simp
  have stay: "uploads enc batch (offset + bytes) (r # rs) 1 u u'"
    if "up_accepted u' = up_accepted u1" "loadOffset u' = offset + (bytes + int (length (enc r)) + 1)"
    using that assms(2) by (simp add: uploads_def)
  have more: "uploads enc batch (offset + bytes) (r # rs) (Suc m) u u'"
    if "uploads enc [] (offset + (bytes + int (length (enc r)) + 1) + 0) rs m u1 u'" for m
    using uploads_Cons [OF that [unfolded sum] assms(2)] .
  from assms(1) stay more show ?thesis unfolding progress_def by auto
qed

lemma upload_loop_end:
  assumes "ue_write en = Some" "loadOffset u = offset" "batch = [] \<longrightarrow> bytes = 0" "0 \<le> offset + bytes"
    and "offset + bytes < 2 ^ 63"
  shows "progress en cfg enc batch offset bytes [] u (upload_loop en cfg [] batch bytes offset u)"
proof (cases "batch = []")
  case True
  with assms show ?thesis by (simp add: upload_loop.simps uploads_def progress_def)
next
  case False
  obtain ok u1 where b: "upload_batch en cfg batch (offset + bytes) u = (ok, u1)" by fastforce
  with False have loop: "upload_loop en cfg [] batch bytes offset u = u1" by (simp add: upload_loop.simps)
  from b show ?thesis
  proof (cases rule: upload_batch_cases)
    case failed
    with loop assms(2) show ?thesis by (simp add: progress_refused)
  next
    case accepted
    with loop assms show ?thesis by (auto simp: progress_def uploads_def intro: loadOffset_Some)
  qed
qed

lemma upload_loop_record:
  assumes "spoolable (ue_decode en) enc r"
  shows "upload_loop en cfg (spool_text enc (r # rs)) batch bytes offset u =
    (let bytes' = bytes + int (length (enc r)) + 1; batch' = batch @ [r] in
     if int (length batch') \<ge> hb_BatchSize cfg
     then (let (ok, u') = upload_batch en cfg batch' (offset + bytes') u in
           if ok then upload_loop en cfg (spool_text enc rs) [] 0 (offset + bytes') u' else u')
     else upload_loop en cfg (spool_text enc rs) batch' bytes' offset u)"
  using assms by (subst upload_loop.simps) (simp add: scan_line_record spoolable_def Let_def)

lemma upload_loop_text:
  assumes "\<forall>r \<in> set rs. spoolable (ue_decode en) enc r" "ue_write en = Some"
    and "loadOffset u = offset" "batch = [] \<longrightarrow> bytes = 0" "0 \<le> offset" "0 \<le> bytes"
    and "offset + bytes + int (length (spool_text enc rs)) < 2 ^ 63"
  shows "progress en cfg enc batch offset bytes rs u (upload_loop en cfg (spool_text enc rs) batch bytes offset u)"
  using assms(1,3-7)
proof (induction rs arbitrary: batch bytes offset u)
  case Nil
  then show ?case using upload_loop_end [OF assms(2)] by simp
next
  case (Cons r rs)
  let ?bytes = "bytes + int (length (enc r)) + 1" and ?batch = "batch @ [r]"
  have rs: "\<forall>r \<in> set rs. spoolable (ue_decode en) enc r" using Cons.prems(1) by simp
  have "spoolable (ue_decode en) enc r" using Cons.prems(1) by simp
  note step = upload_loop_record [OF this, of cfg rs batch bytes offset u, unfolded Let_def]
  have bound: "offset + ?bytes + int (length (spool_text enc rs)) < 2 ^ 63" using Cons.prems(6) by simp
  show ?case
  proof (cases "int (length ?batch) \<ge> hb_BatchSize cfg")
    case False
    have "progress en cfg enc ?batch offset ?bytes rs u (upload_loop en cfg (spool_text enc rs) ?batch ?bytes offset u)"
      using Cons.prems bound by (intro Cons.IH [OF rs]) simp_all
    from progress_shift [OF this] False show ?thesis unfolding step by simp
  next
    case True
    obtain ok u1 where b: "upload_batch en cfg ?batch (offset + ?bytes) u = (ok, u1)" by fastforce
    from b show ?thesis
    proof (cases rule: upload_batch_cases)
      case failed
      with b True Cons.prems(2) show ?thesis unfolding step by (simp add: progress_refused)
    next
      case accepted
      have load: "loadOffset u1 = offset + ?bytes"
        using accepted(3) bound Cons.prems(4,5) assms(2) by (intro loadOffset_Some [of en]) simp_all
      have "progress en cfg enc [] (offset + ?bytes) 0 rs u1
          (upload_loop en cfg (spool_text enc rs) [] 0 (offset + ?bytes) u1)"
        using bound Cons.prems(4,5) by (intro Cons.IH [OF rs load]) simp_all
      from progress_accepted [OF this] accepted(1,2) b True show ?thesis unfolding step by simp
    qed
  qed
qed

text \<open>When every write of the offset is lost.\<close>

lemma upload_loop_resends:
  assumes "\<forall>r \<in> set rs. spoolable (ue_decode en) enc r" "ue_write en = (\<lambda>_. None)"
    and "\<forall>i recs. sendBatch en cfg i recs = None" "up_offset u = None"
  shows "concat (up_accepted (upload_loop en cfg (spool_text enc rs) batch bytes offset u)) =
      concat (up_accepted u) @ batch @ rs \<and>
    up_offset (upload_loop en cfg (spool_text enc rs) batch bytes offset u) = None"
  using assms(1,4)
proof (induction rs arbitrary: batch bytes offset u)
  case Nil
  with assms(2,3) show ?case
    by (simp add: upload_loop.simps upload_batch_def saveOffset_def Let_def)
next
  case (Cons r rs)
  from Cons.prems assms(2,3) show ?case
    by (subst (1 2) upload_loop.simps)
      (simp add: scan_line_record spoolable_def Let_def upload_batch_def saveOffset_def Cons.IH)
qed

lemma uploadLoop_resends:
  assumes "\<forall>r \<in> set rs. spoolable (ue_decode en) enc r" "ue_write en = (\<lambda>_. None)"
    and "\<forall>i recs. sendBatch en cfg i recs = None"
  shows "up_offset u = None \<Longrightarrow>
    concat (up_accepted (fst (uploadLoop en cfg (replicate n (Tick (Some (spool_text enc rs)))) u))) =
    concat (up_accepted u) @ concat (replicate n rs)"
proof (induction n arbitrary: u)
  case (Suc n)
  have "uploadPending en cfg (Some (spool_text enc rs)) u = upload_loop en cfg (spool_text enc rs) [] 0 0 u"
    using Suc.prems by (simp add: uploadPending_def loadOffset_def)
  with upload_loop_resends [OF assms(1-3) Suc.prems, of "[]" 0 0] Suc.IH show ?case by simp
qed simp

text \<open>The spool after exports without an error.\<close>

lemma fold_writes:
  assumes "\<forall>r \<in> set rs. marshal r = Some (enc r)" "je_error w = None"
  shows "fold (\<lambda>r w. case marshal r of None \<Rightarrow> w | Some data \<Rightarrow> bufio_write nl (bufio_write data w)) rs w =
    w\<lparr>je_buffered := je_buffered w @ spool_text enc rs\<rparr>"
  using assms by (induction rs arbitrary: w) (simp_all add: bufio_write_def)

lemma JSONL_Export_ok:
  assumes "\<forall>r \<in> set rs. marshal r = Some (enc r)" "je_error w = None" "je_buffered w = []"
  shows "JSONL_Export marshal None rs w = (None, w\<lparr>je_file := je_file w @ spool_text enc rs\<rparr>)"
  using assms by (simp add: JSONL_Export_def fold_writes [OF assms(1,2)] bufio_flush_def)

lemma JSONL_Export_all:
  "\<forall>r \<in> set (concat batches). marshal r = Some (enc r) \<Longrightarrow> je_error w = None \<Longrightarrow> je_buffered w = [] \<Longrightarrow>
     je_file (fold (\<lambda>rs w. snd (JSONL_Export marshal None rs w)) batches w) =
       je_file w @ spool_text enc (concat batches)"
proof (induction batches arbitrary: w)
  case (Cons rs batches)
  then have "JSONL_Export marshal None rs w = (None, w\<lparr>je_file := je_file w @ spool_text enc rs\<rparr>)"
    by (intro JSONL_Export_ok) auto
  with Cons show ?case by simp
qed simp

section \<open>Properties\<close>

text \<open>
  The ticks of the uploader on a spool that grows: it holds the first \<open>n\<close> records at each, for the
  numbers in \<open>ns\<close>.
\<close>

definition growing_ticks :: "('r \<Rightarrow> string) \<Rightarrow> 'r list \<Rightarrow> nat list \<Rightarrow> upload_event list" where
  "growing_ticks enc rs ns = map (\<lambda>n. Tick (Some (spool_text enc (take n rs)))) ns"

text \<open>The uploader has delivered the first \<open>k\<close> records, and its offset says so.\<close>

definition delivered :: "('r \<Rightarrow> string) \<Rightarrow> 'r list \<Rightarrow> nat \<Rightarrow> 'r uploader \<Rightarrow> bool" where
  "delivered enc rs k u \<longleftrightarrow> k \<le> length rs \<and> concat (up_accepted u) = take k rs \<and>
     loadOffset u = int (length (spool_text enc (take k rs)))"

lemma uploadPending_delivers:
  fixes en :: "'r upload_env"
  assumes "\<forall>r \<in> set rs. spoolable (ue_decode en) enc r" "ue_write en = Some" "0 < hb_BatchSize cfg"
    and "length (spool_text enc rs) < 2 ^ 63" "delivered enc rs k u" "k \<le> n" "n \<le> length rs"
  defines "u' \<equiv> uploadPending en cfg (Some (spool_text enc (take n rs))) u"
  shows "(\<exists>m. k \<le> m \<and> m \<le> n \<and> delivered enc rs m u') \<and>
    ((\<forall>i recs. sendBatch en cfg i recs = None) \<longrightarrow> delivered enc rs n u')"
proof -
  let ?t = "spool_text enc" and ?off = "int (length (spool_text enc (take k rs)))"
  let ?new = "drop k (take n rs)"
  have parts: "take n rs = take k rs @ ?new"
    using assms(6) by (metis append_take_drop_id min.absorb1 take_take)
  have k: "loadOffset u = ?off" "concat (up_accepted u) = take k rs" using assms(5) by (simp_all add: delivered_def)
  have "?t (take n rs) = ?t (take k rs) @ ?t ?new" by (metis parts spool_text_simps(3))
  then have "(if ?off > 0 then drop (nat ?off) (?t (take n rs)) else ?t (take n rs)) = ?t ?new" by simp
  then have loop: "u' = upload_loop en cfg (?t ?new) [] 0 ?off u"
    by (simp add: u'_def uploadPending_def k(1) Let_def)
  have "?t rs = ?t (take k rs) @ ?t ?new @ ?t (drop n rs)"
    by (metis append.assoc append_take_drop_id parts spool_text_simps(3))
  then have bound: "?off + 0 + int (length (?t ?new)) < 2 ^ 63"
    using assms(4) by simp
  have new: "\<forall>r \<in> set ?new. spoolable (ue_decode en) enc r"
    using assms(1) by (auto dest: in_set_dropD in_set_takeD)
  have up: "delivered enc rs (k + m) u' \<and> k + m \<le> n" if "uploads enc [] (?off + 0) ?new m u u'" for m
  proof -
    have m: "m \<le> n - k" using that assms(7) by (simp add: uploads_def)
    have le: "k + m \<le> n" using m assms(6) by linarith
    have "take (k + m) rs = take k rs @ take m ?new"
      using m assms(6) by (simp add: take_add drop_take min_def)
    with that le k(2) assms(7) show ?thesis by (simp add: uploads_def delivered_def)
  qed
  have len: "length ?new = n - k" using assms(7) by simp
  have loop_text: "(up_accepted u' = up_accepted u \<and> loadOffset u' = ?off \<or>
        (\<exists>m. uploads enc [] (?off + 0) ?new m u u')) \<and>
      ((\<forall>i recs. sendBatch en cfg i recs = None) \<longrightarrow> uploads enc [] (?off + 0) ?new (length ?new) u u')"
    unfolding loop by (rule upload_loop_text [OF new assms(2) k(1) _ _ _ bound, unfolded progress_def]) simp_all
  have all: "delivered enc rs n u'" if "\<forall>i recs. sendBatch en cfg i recs = None"
  proof -
    have "uploads enc [] (?off + 0) ?new (n - k) u u'" using loop_text that len by simp
    from up [OF this] assms(6) show ?thesis by simp
  qed
  have "delivered enc rs k u'" if "up_accepted u' = up_accepted u" "loadOffset u' = ?off"
    using that assms(5) by (simp add: delivered_def)
  moreover have "up_accepted u' = up_accepted u \<and> loadOffset u' = ?off \<or> (\<exists>m. uploads enc [] (?off + 0) ?new m u u')"
    using loop_text by simp
  ultimately have "\<exists>m. k \<le> m \<and> m \<le> n \<and> delivered enc rs m u'"
    using up assms(6) by (meson le_add1 order_refl)
  with all show ?thesis by blast
qed

lemma uploadLoop_delivers:
  fixes en :: "'r upload_env"
  assumes "\<forall>r \<in> set rs. spoolable (ue_decode en) enc r" "ue_write en = Some" "0 < hb_BatchSize cfg"
    and "length (spool_text enc rs) < 2 ^ 63"
  shows "sorted (k # ns) \<Longrightarrow> list_all (\<lambda>n. n \<le> length rs) ns \<Longrightarrow> delivered enc rs k u \<Longrightarrow>
    \<exists>m. m \<le> last (k # ns) \<and> delivered enc rs m (fst (uploadLoop en cfg (growing_ticks enc rs ns) u)) \<and>
      ((\<forall>i recs. sendBatch en cfg i recs = None) \<longrightarrow> m = last (k # ns))"
proof (induction ns arbitrary: k u)
  case Nil
  then show ?case by (auto simp: growing_ticks_def)
next
  case (Cons n ns)
  let ?u = "uploadPending en cfg (Some (spool_text enc (take n rs))) u"
  have "k \<le> n" "n \<le> length rs" using Cons.prems(1,2) by simp_all
  note one = uploadPending_delivers [OF assms Cons.prems(3) this]
  have loop: "fst (uploadLoop en cfg (growing_ticks enc rs (n # ns)) u) =
      fst (uploadLoop en cfg (growing_ticks enc rs ns) ?u)" by (simp add: growing_ticks_def)
  have same: "delivered enc rs m ?u \<Longrightarrow> delivered enc rs m' ?u \<Longrightarrow> m = m'" for m m'
    by (auto simp: delivered_def dest: arg_cong [of _ _ length])
  from one obtain m where m: "m \<le> n" "delivered enc rs m ?u"
    "(\<forall>i recs. sendBatch en cfg i recs = None) \<longrightarrow> m = n" using same by blast
  have "sorted (m # ns)" "list_all (\<lambda>n. n \<le> length rs) ns" using Cons.prems(1,2) m(1) by auto
  from Cons.IH [OF this m(2)] m(1,3) show ?case
    unfolding loop by (cases ns) (auto intro: order_trans)
qed


definition letters :: "string list" where "letters = [''a'', ''b'', ''c'']"

definition flaky :: "bool \<Rightarrow> string upload_env" where
  "flaky refuses =
     \<lparr>ue_decode = Some, ue_encode = (\<lambda>rs. Inr (concat rs)),
      ue_http = (\<lambda>n. \<lparr>hc_new = (\<lambda>_ _. None),
        hc_do = (\<lambda>_. Inr \<lparr>hr_Status = (if refuses \<and> n = 1 then 503 else 202), hr_Headers = [], hr_Body = Inr []\<rparr>)\<rparr>),
      ue_write = Some\<rparr>"

definition two_at_once :: HTTPBatchConfig where
  "two_at_once = \<lparr>hb_ProURL = ''https://pro'', hb_APIKey = ''k'', hb_SpoolPath = ''spool'',
     hb_OffsetPath = ''offset'', hb_BatchSize = 2, hb_FlushInterval = 1\<rparr>"

lemma letters_spoolable: "\<forall>r \<in> set letters. spoolable (ue_decode (flaky b)) (\<lambda>s. s) r"
proof -
  have "list_all (\<lambda>r. newline \<notin> set r \<and> drop_cr r = r) letters" by code_simp
  then show ?thesis by (simp add: letters_def spoolable_def flaky_def line_limit_def)
qed




text \<open>
  A record that is still being written when the spool is read is lost: the piece of its line that
  is there is counted as a whole line, so that with the batch before it the offset moves past it, and
  the next reading starts inside of the record.
\<close>

theorem partial_record_skipped:
  fixes en :: "'r upload_env"
  assumes "spoolable (ue_decode en) enc r" "ue_write en = Some" "1 < hb_BatchSize cfg"
    and "\<forall>i recs. sendBatch en cfg i recs = None"
    and "piece \<noteq> []" "newline \<notin> set piece" "drop_cr piece = piece" "length piece < line_limit"
    and "ue_decode en piece = None" "loadOffset u = 0"
  defines "u' \<equiv> uploadPending en cfg (Some (enc r @ nl @ piece)) u"
  shows "up_accepted u' = up_accepted u @ [[r]] \<and> loadOffset u' = int (length (enc r @ nl @ piece)) + 1"
proof -
  have piece: "scan_line piece = Some (piece, [])"
  proof -
    have "IndexByte piece newline = None" using assms(6) by simp
    with assms(5,7,8) show ?thesis by (simp only: scan_line_def option.case) simp
  qed
  define off where "off = int (length (enc r)) + 1 + int (length piece) + 1"
  have small: "length (enc r) < 1048576" "length piece < 1048576"
    using assms(1,8) by (simp_all add: spoolable_def line_limit_def)
  obtain ok u1 where b: "upload_batch en cfg [r] off u = (ok, u1)" by fastforce
  have dec: "ue_decode en (enc r) = Some r" using assms(1) by (simp add: spoolable_def)
  have "u' = upload_loop en cfg (enc r @ nl @ piece) [] 0 0 u"
    by (simp add: u'_def uploadPending_def assms(10))
  also have "\<dots> = upload_loop en cfg piece [r] (int (length (enc r)) + 1) 0 u"
    using assms(3) dec by (subst upload_loop.simps) (simp add: scan_line_record [OF assms(1)])
  also have "\<dots> = upload_loop en cfg [] [r] off 0 u"
    using assms(9) by (subst upload_loop.simps) (simp add: piece off_def)
  also have "\<dots> = u1" using b by (subst upload_loop.simps) simp
  finally have u': "u' = u1" .
  from b show ?thesis
  proof (cases rule: upload_batch_cases)
    case accepted
    have "loadOffset u1 = off"
      using accepted(3) assms(2) small by (intro loadOffset_Some [of en]) (simp_all add: off_def)
    with accepted(2) show ?thesis by (simp add: u' off_def)
  qed (use assms(4) in simp)
qed

theorem partial_record_skipped_witness:
  "let en = (flaky False)\<lparr>ue_decode := (\<lambda>s. if s = ''ab'' then Some s else None)\<rparr>;
       u' = uploadPending en two_at_once (Some (''ab'' @ nl @ ''a'')) \<lparr>up_offset = None, up_sent = 0, up_accepted = []\<rparr>
   in up_accepted u' = [] @ [[''ab'']] \<and> loadOffset u' = 5"
proof -
  let ?en = "(flaky False)\<lparr>ue_decode := (\<lambda>s. if s = ''ab'' then Some s else None)\<rparr>"
  have chars: "newline \<notin> set ''ab''" "drop_cr ''ab'' = ''ab''" "newline \<notin> set ''a''" "drop_cr ''a'' = ''a''"
    by code_simp+
  then have "spoolable (ue_decode ?en) (\<lambda>s. s) ''ab''"
    by (simp add: spoolable_def line_limit_def)
  moreover have "length ''a'' < line_limit" by (simp add: line_limit_def)
  moreover note chars(3,4)
  ultimately show ?thesis
    using partial_record_skipped [of ?en "\<lambda>s. s" "''ab''" two_at_once "''a''"
        "\<lparr>up_offset = None, up_sent = 0, up_accepted = []\<rparr>"]
    by (simp add: Let_def flaky_def two_at_once_def sendBatch_def loadOffset_def nl_def)
qed

text \<open>
  Without an offset file that can be kept everything is sent again: each tick uploads the spool
  from its beginning, so after \<open>n\<close> ticks the control plane has every record \<open>n\<close> times.
\<close>

theorem no_offset_resends:
  fixes en :: "'r upload_env"
  assumes "\<forall>r \<in> set rs. spoolable (ue_decode en) enc r" "ue_write en = (\<lambda>_. None)"
    and "\<forall>i recs. sendBatch en cfg i recs = None"
  shows "concat (up_accepted (fst (uploadLoop en cfg (replicate n (Tick (Some (spool_text enc rs))))
      \<lparr>up_offset = None, up_sent = 0, up_accepted = []\<rparr>))) = concat (replicate n rs)"
  using uploadLoop_resends [OF assms, of "\<lparr>up_offset = None, up_sent = 0, up_accepted = []\<rparr>" n] by simp

theorem no_offset_resends_witness:
  "concat (up_accepted (fst (uploadLoop ((flaky False)\<lparr>ue_write := \<lambda>_. None\<rparr>) two_at_once
      (replicate 2 (Tick (Some (spool_text (\<lambda>s. s) letters)))) \<lparr>up_offset = None, up_sent = 0, up_accepted = []\<rparr>))) =
    letters @ letters"
proof -
  have "\<forall>r \<in> set letters. spoolable (ue_decode ((flaky False)\<lparr>ue_write := \<lambda>_. None\<rparr>)) (\<lambda>s. s) r"
    using letters_spoolable [of False] by (simp add: flaky_def)
  moreover have "\<forall>i recs. sendBatch ((flaky False)\<lparr>ue_write := \<lambda>_. None\<rparr>) two_at_once i recs = None"
    by (simp add: sendBatch_def flaky_def two_at_once_def)
  ultimately show ?thesis
    using no_offset_resends [of letters "(flaky False)\<lparr>ue_write := \<lambda>_. None\<rparr>" "\<lambda>s. s" two_at_once 2]
    by (simp add: numeral_2_eq_2)
qed

text \<open>
  What is exported arrives: records written to a fresh spool in any number of batches, each of them
  without an error, are uploaded from it in one tick as they were, when the control plane takes them.
\<close>

theorem spool_roundtrip:
  fixes en :: "'r upload_env"
  assumes "\<forall>r \<in> set (concat batches). spoolable (ue_decode en) enc r \<and> marshal r = Some (enc r)" "ue_write en = Some"
    and "0 < hb_BatchSize cfg" "length (spool_text enc (concat batches)) < 2 ^ 63"
    and "\<forall>i recs. sendBatch en cfg i recs = None"
    and "NewJSONLExporter None None [] = Inr w"
  shows "concat (up_accepted (uploadPending en cfg
      (Some (je_file (fold (\<lambda>rs w. snd (JSONL_Export marshal None rs w)) batches w)))
      \<lparr>up_offset = None, up_sent = 0, up_accepted = []\<rparr>)) = concat batches"
proof -
  let ?rs = "concat batches"
  have w: "je_file w = []" "je_buffered w = []" "je_error w = None"
    using assms(6) by (auto simp: NewJSONLExporter_def)
  have "je_file (fold (\<lambda>rs w. snd (JSONL_Export marshal None rs w)) batches w) = spool_text enc ?rs"
    using assms(1) w by (subst JSONL_Export_all) auto
  moreover have "delivered enc ?rs 0 \<lparr>up_offset = None, up_sent = 0, up_accepted = []\<rparr>"
    by (simp add: delivered_def loadOffset_def)
  ultimately show ?thesis
    using uploadPending_delivers [of ?rs en enc cfg 0 _ "length ?rs"] assms(1-5)
    by (simp add: delivered_def)
qed

theorem spool_roundtrip_witness:
  "concat (up_accepted (uploadPending (flaky False) two_at_once
      (Some (je_file (fold (\<lambda>rs w. snd (JSONL_Export Some None rs w)) [[''a''], [''b'', ''c'']]
         \<lparr>je_file = [], je_buffered = [], je_error = None\<rparr>)))
      \<lparr>up_offset = None, up_sent = 0, up_accepted = []\<rparr>)) = concat [[''a''], [''b'', ''c'']]"
  using letters_spoolable [of False]
  by (intro spool_roundtrip [where enc = "\<lambda>s. s"])
    (simp_all add: letters_def flaky_def two_at_once_def sendBatch_def NewJSONLExporter_def)

text \<open>
  C40. The heartbeat brings the process down exactly when its URL is one that no request can be made
  for, at the first tick; otherwise every tick sends one beat, whatever becomes of it.
\<close>

theorem heartbeat_runs:
  "heartbeat_loop payload hc cfg (Suc ticks) =
     (if hc_new hc ''POST'' (hc_ProURL cfg) \<noteq> None then ([], True)
      else (replicate (Suc ticks) (case heartbeat_send payload hc cfg of Beat out \<Rightarrow> out), False))"
proof (cases "hc_new hc ''POST'' (hc_ProURL cfg)")
  case None
  then obtain out where out: "heartbeat_send payload hc cfg = Beat out" by (simp add: heartbeat_send_def)
  then have "heartbeat_loop payload hc cfg n = (replicate n out, False)" for n
    by (induction n) simp_all
  with None out show ?thesis by simp
qed (simp add: heartbeat_send_def)

end
