(* ===== verification/Policy_Engines.thy ===== *)
theory Policy_Engines
  imports Config Json
begin

text \<open>
  The policy engines (internal/policy: engine.go, regex.go, opa.go, composite.go) and the interface
  they share, as the locale \<open>engine\<close>: what an engine answers to an input without a command, and that a
  refusal gives a reason. The three engines are interpretations, and the composite of any two engines
  is an engine again.

  Reading the policy directory and encoding the input are parameters.
\<close>

section \<open>Types\<close>

datatype EngineAction = EngineAllow | EngineBlock | EnginePending

record PolicyInput =
  pi_Command :: string
  pi_ToolName :: string
  pi_Args :: gomap
  pi_ClientIP :: string
  pi_Method :: string
  pi_MCPServer :: string

record EngineResult =
  po_Action :: EngineAction
  po_Reason :: string
  po_Command :: string

definition engine_allow :: EngineResult where
  "engine_allow = \<lparr>po_Action = EngineAllow, po_Reason = [], po_Command = []\<rparr>"

type_synonym engine_check = "PolicyInput \<Rightarrow> string + EngineResult"

section \<open>The engines\<close>

definition RegexEngine_Check :: "RiskPolicyConfig \<Rightarrow> engine_check" where
  "RegexEngine_Check policy input =
     Inr (if pi_Command input = [] then engine_allow
          else if ShouldBlock policy (pi_Command input)
            then \<lparr>po_Action = EngineBlock, po_Reason = ''command matches block policy'', po_Command = pi_Command input\<rparr>
          else if RequiresApproval policy (pi_Command input)
            then \<lparr>po_Action = EnginePending, po_Reason = ''command requires approval'', po_Command = pi_Command input\<rparr>
          else engine_allow)"

record OPAEngine =
  oe_policyDir :: string
  oe_policies :: "(string \<times> string) list"

text \<open>What \<^verbatim>\<open>os.ReadDir\<close> gives: the entries with what reading them gives, or an error.\<close>

datatype dir_listing = NotExist | DirError string | Entries "(string \<times> bool \<times> (string + string)) list"

fun load_entries :: "(string \<times> bool \<times> (string + string)) list \<Rightarrow> (string \<times> string) list \<Rightarrow> string + (string \<times> string) list" where
  "load_entries [] ps = Inr ps"
| "load_entries ((name, is_dir, content) # es) ps =
     (if is_dir \<or> \<not> HasSuffix name ''.rego'' then load_entries es ps
      else (case content of
              Inl e \<Rightarrow> Inl (''reading policy '' @ name @ '': '' @ e)
            | Inr data \<Rightarrow> load_entries es ((name, data) # filter (\<lambda>p. fst p \<noteq> name) ps)))"

definition loadPolicies :: "string \<Rightarrow> dir_listing \<Rightarrow> string + (string \<times> string) list" where
  "loadPolicies dir listing =
     (if dir = [] then Inr []
      else (case listing of NotExist \<Rightarrow> Inr [] | DirError e \<Rightarrow> Inl e | Entries es \<Rightarrow> load_entries es []))"

definition NewOPAEngine :: "string \<Rightarrow> dir_listing \<Rightarrow> string + OPAEngine" where
  "NewOPAEngine dir listing =
     (case loadPolicies dir listing of
        Inl e \<Rightarrow> Inl (''loading OPA policies: '' @ e)
      | Inr ps \<Rightarrow> Inr \<lparr>oe_policyDir = dir, oe_policies = ps\<rparr>)"

definition OPAEngine_Check :: "(PolicyInput \<Rightarrow> string option) \<Rightarrow> OPAEngine \<Rightarrow> engine_check" where
  "OPAEngine_Check marshal_error e input =
     (if oe_policies e = [] then Inr engine_allow
      else (case marshal_error input of
              Some err \<Rightarrow> Inl (''marshaling policy input: '' @ err)
            | None \<Rightarrow> Inr engine_allow))"

definition CompositeEngine_Check :: "engine_check option \<Rightarrow> engine_check option \<Rightarrow> engine_check" where
  "CompositeEngine_Check primary fallback input =
     (let rest = (case fallback of Some f \<Rightarrow> f input | None \<Rightarrow> Inr engine_allow) in
      case primary of
        None \<Rightarrow> rest
      | Some p \<Rightarrow>
          (case p input of
             Inl e \<Rightarrow> Inl e
           | Inr result \<Rightarrow> if po_Action result \<noteq> EngineAllow then Inr result else rest))"

section \<open>The contract\<close>

locale engine =
  fixes check :: engine_check
  assumes nothing_to_check: "pi_Command input = [] \<Longrightarrow> check input = Inr r \<Longrightarrow> po_Action r = EngineAllow"
    and refusal_reason: "check input = Inr r \<Longrightarrow> po_Action r \<noteq> EngineAllow \<Longrightarrow> po_Reason r \<noteq> []"
    and refusal_command: "check input = Inr r \<Longrightarrow> po_Action r \<noteq> EngineAllow \<Longrightarrow> po_Command r = pi_Command input"
begin

lemma refused_has_command: "check input = Inr r \<Longrightarrow> po_Action r \<noteq> EngineAllow \<Longrightarrow> po_Command r \<noteq> []"
  using nothing_to_check refusal_command by metis

end

interpretation regex: engine "RegexEngine_Check policy" for policy
  by unfold_locales (auto simp: RegexEngine_Check_def engine_allow_def split: if_splits)

interpretation opa: engine "OPAEngine_Check marshal_error e" for marshal_error e
  by unfold_locales (auto simp: OPAEngine_Check_def engine_allow_def split: if_splits option.splits)

text \<open>Two engines under one roof.\<close>

locale composite = p: engine primary + f: engine fallback
  for primary :: engine_check and fallback :: engine_check
begin

lemma composite_cases:
  assumes "CompositeEngine_Check (Some primary) (Some fallback) input = Inr r"
  obtains (primary) "primary input = Inr r" "po_Action r \<noteq> EngineAllow"
  | (fallback) r' where "primary input = Inr r'" "po_Action r' = EngineAllow" "fallback input = Inr r"
  using assms by (auto simp: CompositeEngine_Check_def split: sum.splits if_splits)

end

sublocale composite \<subseteq> engine "CompositeEngine_Check (Some primary) (Some fallback)"
proof
  fix input r
  assume r: "CompositeEngine_Check (Some primary) (Some fallback) input = Inr r"
  show "pi_Command input = [] \<Longrightarrow> po_Action r = EngineAllow"
    using r by (cases rule: composite_cases) (auto dest: p.nothing_to_check f.nothing_to_check)
  show "po_Action r \<noteq> EngineAllow \<Longrightarrow> po_Reason r \<noteq> []"
    using r by (cases rule: composite_cases) (auto dest: p.refusal_reason f.refusal_reason)
  show "po_Action r \<noteq> EngineAllow \<Longrightarrow> po_Command r = pi_Command input"
    using r by (cases rule: composite_cases) (auto dest: p.refusal_command f.refusal_command)
qed

interpretation opa_regex: composite "OPAEngine_Check marshal_error e" "RegexEngine_Check policy"
  for marshal_error e policy
  by unfold_locales

section \<open>Properties\<close>

text \<open>
  Loaded Rego policies restrict nothing: the composite of the OPA engine, with whatever policies,
  and the regex engine answers as the regex engine alone, for every input that can be encoded; and
  what it refuses has a reason and is the command of the input.
\<close>

theorem opa_without_effect:
  assumes "CompositeEngine_Check (Some (OPAEngine_Check marshal_error e)) (Some (RegexEngine_Check policy)) input = Inr r"
  shows "RegexEngine_Check policy input = Inr r \<and>
    (po_Action r = EngineAllow \<or> po_Reason r \<noteq> [] \<and> po_Command r = pi_Command input \<and> po_Command r \<noteq> [])"
proof (intro conjI)
  show "RegexEngine_Check policy input = Inr r"
    using assms by (auto simp: CompositeEngine_Check_def OPAEngine_Check_def engine_allow_def
        split: if_splits option.splits)
  show "po_Action r = EngineAllow \<or> po_Reason r \<noteq> [] \<and> po_Command r = pi_Command input \<and> po_Command r \<noteq> []"
    using opa_regex.refusal_reason [OF assms] opa_regex.refusal_command [OF assms]
      opa_regex.refused_has_command [OF assms] by blast
qed

definition deny_rm :: OPAEngine where
  "deny_rm = \<lparr>oe_policyDir = ''/policies'', oe_policies = [(''deny.rego'', ''default allow = false'')]\<rparr>"

definition plain_input :: "string \<Rightarrow> PolicyInput" where
  "plain_input cmd =
     \<lparr>pi_Command = cmd, pi_ToolName = ''bash'', pi_Args = [], pi_ClientIP = [], pi_Method = [], pi_MCPServer = []\<rparr>"

definition empty_policy :: RiskPolicyConfig where
  "empty_policy = \<lparr>rp_BlockCommands = [], rp_RequireApproval = [], rp_blockRegexes = [], rp_approvalRegexes = []\<rparr>"

theorem opa_without_effect_witness:
  "RegexEngine_Check empty_policy (plain_input ''rm'') = Inr engine_allow \<and>
    (po_Action engine_allow = EngineAllow \<or> po_Reason engine_allow \<noteq> [] \<and>
     po_Command engine_allow = pi_Command (plain_input ''rm'') \<and> po_Command engine_allow \<noteq> [])"
  by (rule opa_without_effect [of "\<lambda>_. None" deny_rm]) code_simp

text \<open>
  A pending decision of the first engine hides a block of the second: the composite then asks for
  an approval, although the second engine would block the command for good.
\<close>

theorem composite_pending_hides_block:
  assumes "p input = Inr r" "po_Action r = EnginePending" "f input = Inr r'" "po_Action r' = EngineBlock"
  shows "CompositeEngine_Check (Some p) (Some f) input = Inr r \<and> po_Action r \<noteq> EngineBlock \<and>
    CompositeEngine_Check (Some f) (Some p) input = Inr r'"
  using assms by (simp add: CompositeEngine_Check_def)

definition asks_for :: "string \<Rightarrow> RiskPolicyConfig" where
  "asks_for s = empty_policy\<lparr>rp_approvalRegexes := [rx_lit s]\<rparr>"

definition blocks :: "string \<Rightarrow> RiskPolicyConfig" where
  "blocks s = empty_policy\<lparr>rp_blockRegexes := [rx_lit s]\<rparr>"

theorem composite_pending_hides_block_witness:
  "CompositeEngine_Check (Some (RegexEngine_Check (asks_for ''rm''))) (Some (RegexEngine_Check (blocks ''rm'')))
      (plain_input ''rm'') = Inr \<lparr>po_Action = EnginePending, po_Reason = ''command requires approval'', po_Command = ''rm''\<rparr> \<and>
    EnginePending \<noteq> EngineBlock"
proof -
  have "RegexEngine_Check (asks_for ''rm'') (plain_input ''rm'') =
      Inr \<lparr>po_Action = EnginePending, po_Reason = ''command requires approval'', po_Command = ''rm''\<rparr>"
    "RegexEngine_Check (blocks ''rm'') (plain_input ''rm'') =
      Inr \<lparr>po_Action = EngineBlock, po_Reason = ''command matches block policy'', po_Command = ''rm''\<rparr>"
    by code_simp+
  from composite_pending_hides_block [where p = "RegexEngine_Check (asks_for ''rm'')"
      and f = "RegexEngine_Check (blocks ''rm'')" and input = "plain_input ''rm''", OF this(1) _ this(2)]
  show ?thesis by simp
qed

end
