(* ===== verification/Relay.thy ===== *)
theory Relay
  imports Approval
begin

text \<open>
  The client of the cloud relay (internal/relay: relay.go, protocol.go): the messages it acts on and
  its connection loop, up to the placeholder for the connection itself.

  What it calls is the interface \<open>ApprovalHandler\<close>, here the locale \<open>approval_handler\<close> of two
  operations that answer or panic, with an invariant under which they do not panic; the approval queue
  is its interpretation. Decoding a message is a parameter.
\<close>

section \<open>Protocol\<close>

record RelayMessage =
  rm_Type :: string
  rm_ID :: string
  rm_Version :: string
  rm_Payload :: gomap
  rm_Timestamp :: int

definition MsgTypeApprove :: string where "MsgTypeApprove = ''approve''"

definition MsgTypeDeny :: string where "MsgTypeDeny = ''deny''"

definition MsgTypeSync :: string where "MsgTypeSync = ''sync''"

section \<open>Acting on a message\<close>

type_synonym 'q decider = "string \<Rightarrow> 'q \<Rightarrow> bool go \<times> 'q"

text \<open>The answers of the handler are not looked at; a panic of it is passed on.\<close>

definition call_handler :: "'q decider \<Rightarrow> string \<Rightarrow> 'q \<Rightarrow> unit go \<times> 'q" where
  "call_handler f cid q =
     (if cid = [] then (Ret (), q)
      else (case f cid q of
              (Ret _, q') \<Rightarrow> (Ret (), q')
            | (Blocks, q') \<Rightarrow> (Blocks, q')
            | (Panics k, q') \<Rightarrow> (Panics k, q')))"

definition handleMessage ::
  "(string \<Rightarrow> string + RelayMessage) \<Rightarrow> 'q decider \<Rightarrow> 'q decider \<Rightarrow> string \<Rightarrow> 'q \<Rightarrow> unit go \<times> 'q" where
  "handleMessage decode approve deny data q =
     (case decode data of
        Inl e \<Rightarrow> (Ret (), q)
      | Inr msg \<Rightarrow>
          (if rm_Type msg = MsgTypeApprove then call_handler approve (rm_ID msg) q
           else if rm_Type msg = MsgTypeDeny then call_handler deny (rm_ID msg) q
           else (Ret (), q)))"

text \<open>The command that a message decides, if any.\<close>

definition decided_by :: "(string \<Rightarrow> string + RelayMessage) \<Rightarrow> string \<Rightarrow> string option" where
  "decided_by decode data =
     (case decode data of
        Inl e \<Rightarrow> None
      | Inr msg \<Rightarrow> if (rm_Type msg = MsgTypeApprove \<or> rm_Type msg = MsgTypeDeny) \<and> rm_ID msg \<noteq> []
                  then Some (rm_ID msg) else None)"

section \<open>The connection loop\<close>

record Client =
  rc_Enabled :: bool
  rc_connected :: bool
  rc_stopped :: bool

definition New_Client :: "bool \<Rightarrow> Client" where
  "New_Client enabled = \<lparr>rc_Enabled = enabled, rc_connected = False, rc_stopped = False\<rparr>"

text \<open>\<^verbatim>\<open>close(c.stopCh)\<close> panics when it is called again.\<close>

definition Stop :: "Client \<Rightarrow> Client option" where
  "Stop c = (if rc_stopped c then None else Some (c\<lparr>rc_stopped := True\<rparr>))"

definition IsConnected :: "Client \<Rightarrow> bool" where
  "IsConnected c = rc_connected c"

text \<open>
  What a pass of the loop meets: at the select, the context or the stop channel; or an attempt to
  connect, which the placeholder ends without an error after 30 seconds or when it is stopped, and
  with an error when the context is done. The result is the number of attempts and of pauses, and
  whether the loop has returned.
\<close>

text \<open>The placeholder for the connection: which of the three comes first.\<close>

datatype connect_wait = Context_ends string | Stop_closes | Time_passes

definition connect :: "connect_wait \<Rightarrow> string option" where
  "connect w = (case w of Context_ends e \<Rightarrow> Some e | Stop_closes \<Rightarrow> None | Time_passes \<Rightarrow> None)"

datatype pass = ContextDone | StopClosed | Attempt connect_wait

fun Start_loop :: "pass list \<Rightarrow> (nat \<times> nat) \<times> bool" where
  "Start_loop [] = ((0, 0), False)"
| "Start_loop (ContextDone # _) = ((0, 0), True)"
| "Start_loop (StopClosed # _) = ((0, 0), True)"
| "Start_loop (Attempt w # ps) =
     (let ((attempts, pauses), ended) = Start_loop ps in
      ((attempts + 1, pauses + (if connect w = None then 0 else 1)), ended))"

definition Client_Start :: "Client \<Rightarrow> pass list \<Rightarrow> (nat \<times> nat) \<times> bool" where
  "Client_Start c ps = (if \<not> rc_Enabled c then ((0, 0), True) else Start_loop ps)"

section \<open>The interface\<close>

definition fmap_type :: "(string \<Rightarrow> string + RelayMessage) \<Rightarrow> string \<Rightarrow> string" where
  "fmap_type decode data = (case decode data of Inl e \<Rightarrow> [] | Inr msg \<Rightarrow> rm_Type msg)"

locale approval_handler =
  fixes approve :: "'q decider" and deny :: "'q decider" and inv :: "'q \<Rightarrow> bool" and present :: "'q \<Rightarrow> string \<Rightarrow> bool"
  assumes approve_returns: "inv q \<Longrightarrow> \<exists>b. fst (approve cid q) = Ret b"
    and deny_returns: "inv q \<Longrightarrow> \<exists>b. fst (deny cid q) = Ret b"
    and approve_inv: "inv q \<Longrightarrow> inv (snd (approve cid q))"
    and deny_inv: "inv q \<Longrightarrow> inv (snd (deny cid q))"
    and approve_present: "inv q \<Longrightarrow> present (snd (approve cid q)) = (present q)(cid := False)"
    and deny_present: "inv q \<Longrightarrow> present (snd (deny cid q)) = (present q)(cid := False)"
begin

lemma call_returns:
  assumes "\<exists>b. fst (f cid q) = Ret b"
  shows "call_handler f cid q = (Ret (), if cid = [] then q else snd (f cid q))"
proof -
  obtain b q' where "f cid q = (Ret b, q')" using assms by (cases "f cid q") auto
  then show ?thesis by (simp add: call_handler_def)
qed

lemma handleMessage_eq:
  assumes "inv q"
  shows "handleMessage decode approve deny data q =
    (Ret (), case decided_by decode data of
               None \<Rightarrow> q
             | Some cid \<Rightarrow> if fmap_type decode data = MsgTypeApprove then snd (approve cid q) else snd (deny cid q))"
  unfolding handleMessage_def
  by (simp add: call_returns [of approve] call_returns [of deny] approve_returns [OF assms] deny_returns [OF assms]
      decided_by_def fmap_type_def MsgTypeApprove_def MsgTypeDeny_def split: sum.split)

lemma handleMessage_safe:
  assumes "inv q"
  shows "fst (handleMessage decode approve deny data q) = Ret () \<and>
    inv (snd (handleMessage decode approve deny data q)) \<and>
    present (snd (handleMessage decode approve deny data q)) =
      (case decided_by decode data of None \<Rightarrow> present q | Some cid \<Rightarrow> (present q)(cid := False))"
  using assms approve_inv [OF assms] deny_inv [OF assms] approve_present [OF assms] deny_present [OF assms]
  by (simp add: handleMessage_eq split: option.split)

lemma handle_all_safe:
  assumes "inv q"
  shows "inv (fold (\<lambda>data q. snd (handleMessage decode approve deny data q)) msgs q) \<and>
    present (fold (\<lambda>data q. snd (handleMessage decode approve deny data q)) msgs q) =
      (\<lambda>cid. present q cid \<and> Some cid \<notin> decided_by decode ` set msgs)"
  using assms
proof (induction msgs arbitrary: q)
  case (Cons m msgs)
  from handleMessage_safe [OF Cons.prems] Cons.IH [of "snd (handleMessage decode approve deny m q)"] show ?case
    by (auto simp: fun_eq_iff split: option.splits)
qed simp

end

section \<open>The queue as the handler\<close>

text \<open>
  A queue without a store. With one, a decision may meet a command that only the store still has, and
  panics on it.
\<close>

definition in_memory :: "Queue \<Rightarrow> bool" where
  "in_memory q \<longleftrightarrow> queue_inv q \<and> q_store q = None"

definition is_pending :: "Queue \<Rightarrow> string \<Rightarrow> bool" where
  "is_pending q cid \<longleftrightarrow> map_of (q_pending q) cid \<noteq> None"

lemma in_memory_New [inv_intros]: "in_memory (NewQueue timeout)"
  by (simp add: in_memory_def NewQueue_def queue_inv_def)

lemma decide_call_memory:
  assumes "in_memory q"
  shows "\<exists>b q'. decide_call v io now cid q = (Ret b, q') \<and> in_memory q' \<and>
    is_pending q' = (is_pending q)(cid := False)"
proof (cases "map_of (q_pending q) cid")
  case None
  with assms show ?thesis
    by (auto simp: decide_call_def decide_store_def in_memory_def is_pending_def fun_eq_iff)
next
  case (Some h)
  have q: "queue_inv q" "q_store q = None" using assms by (simp_all add: in_memory_def)
  have "h < length (q_heap q)" using queue_inv_lookup [OF q(1) Some] by (simp add: handle_ok_def)
  from decide_signal_ok [OF q(1) this] obtain q' where
    q': "decide_signal v h q = (Ret (), q')" "queue_inv q'" "q_store q' = q_store q" by blast
  have "q_pending q' = q_pending q"
    using q'(1) by (auto simp: decide_signal_def set_entry_def split: go.splits)
  then have "is_pending (Remove cid q') = (is_pending q)(cid := False)"
    by (auto simp: is_pending_def Remove_def AList.delete_conv' fun_eq_iff)
  with q q' Some show ?thesis
    by (intro exI [of _ True] exI [of _ "Remove cid q'"])
      (simp add: decide_call_def decide_store_def in_memory_def queue_inv_Remove)
qed

interpretation queue: approval_handler "Approve io now" "Deny io now" in_memory is_pending for io now
proof
  fix q cid
  assume q: "in_memory q"
  from decide_call_memory [OF q, of True io now cid] decide_call_memory [OF q, of False io now cid]
  show "\<exists>b. fst (Approve io now cid q) = Ret b" "\<exists>b. fst (Deny io now cid q) = Ret b"
    "in_memory (snd (Approve io now cid q))" "in_memory (snd (Deny io now cid q))"
    "is_pending (snd (Approve io now cid q)) = (is_pending q)(cid := False)"
    "is_pending (snd (Deny io now cid q)) = (is_pending q)(cid := False)"
    unfolding Approve_def Deny_def by auto
qed

section \<open>Properties\<close>


definition decode_approve :: "string \<Rightarrow> string + RelayMessage" where
  "decode_approve data =
     Inr \<lparr>rm_Type = ''approve'', rm_ID = data, rm_Version = ''1.0'', rm_Payload = [], rm_Timestamp = 0\<rparr>"


end
