(* ===== verification/Dashboard.thy ===== *)
theory Dashboard
  imports Relay Middleware Upstream
begin

text \<open>
  The dashboard (internal/dashboard/dashboard.go): its page and its API on the approval queue, alone
  and behind the CSRF middleware. Routing a request to one of the four calls is the router's; the
  embedded page, the printing of a time and the errors of the store are parameters.
\<close>

section \<open>The page\<close>

definition dashboard_Handler :: "string option \<Rightarrow> answer" where
  "dashboard_Handler page =
     (case page of
        None \<Rightarrow> \<lparr>an_Status = 404, an_Headers = [], an_Body = Bytes ''Dashboard not found''\<rparr>
      | Some content \<Rightarrow> \<lparr>an_Status = 200, an_Headers = [(''Content-Type'', ''text/html; charset=utf-8'')],
          an_Body = Bytes content\<rparr>)"

section \<open>The API\<close>

datatype api_call = ListPending_call | GetPending_call string | Approve_call string | Deny_call string

record api_env =
  ae_format :: "int \<Rightarrow> string"
  ae_get_io :: "string option"
  ae_decide_io :: "nat \<Rightarrow> string option"
  ae_now :: int

definition pending_json :: "(int \<Rightarrow> string) \<Rightarrow> PendingCommand \<Rightarrow> gomap" where
  "pending_json fmt pc =
     [(''id'', JStr (pc_ID pc)), (''command'', JStr (pc_Command pc)), (''tool_name'', JStr (pc_ToolName pc)),
      (''args'', JObj (pc_Args pc)), (''reason'', JStr (pc_Reason pc)),
      (''created_at'', JStr (fmt (pc_CreatedAt pc))), (''expires_at'', JStr (fmt (pc_ExpiresAt pc)))]"

definition pending_not_found :: answer where
  "pending_not_found = error_answer 404 ''pending command not found''"

text \<open>\<open>token\<close> is the CSRF token left by a middleware, if any.\<close>

definition api_list :: "api_env \<Rightarrow> string option \<Rightarrow> Queue \<Rightarrow> answer" where
  "api_list en token q =
     (let pending = Queue_List q in
      json_answer 200
        ([(''pending'', JArr (map (\<lambda>pc. JObj (pending_json (ae_format en) pc)) pending)),
          (''count'', JNum (nat_dec (length pending)))] @
         (case token of Some t \<Rightarrow> [(''csrf_token'', JStr t)] | None \<Rightarrow> [])))"

definition api_get :: "api_env \<Rightarrow> string \<Rightarrow> Queue \<Rightarrow> answer" where
  "api_get en cid q =
     (case Queue_Get (ae_get_io en) cid q of
        None \<Rightarrow> pending_not_found
      | Some pc \<Rightarrow> json_answer 200 (pending_json (ae_format en) pc))"

definition api_decide :: "bool \<Rightarrow> api_env \<Rightarrow> string \<Rightarrow> Queue \<Rightarrow> answer go \<times> Queue" where
  "api_decide verdict en cid q =
     (case (if verdict then Approve else Deny) (ae_decide_io en) (ae_now en) cid q of
        (Ret b, q') \<Rightarrow>
          (Ret (if b then json_answer 200 [(''success'', JBool True), (''id'', JStr cid), (''action'', JStr (status_of verdict))]
                else pending_not_found), q')
      | (Blocks, q') \<Rightarrow> (Blocks, q')
      | (Panics k, q') \<Rightarrow> (Panics k, q'))"

definition APIRoutes :: "api_env \<Rightarrow> string option \<Rightarrow> api_call \<Rightarrow> Queue \<Rightarrow> answer go \<times> Queue" where
  "APIRoutes en token call q =
     (case call of
        ListPending_call \<Rightarrow> (Ret (api_list en token q), q)
      | GetPending_call cid \<Rightarrow> (Ret (api_get en cid q), q)
      | Approve_call cid \<Rightarrow> api_decide True en cid q
      | Deny_call cid \<Rightarrow> api_decide False en cid q)"

text \<open>The answer of a middleware that does not hand the request on.\<close>

definition middleware_answer :: "reply \<Rightarrow> answer option" where
  "middleware_answer ry =
     (case ry_verdict ry of
        CallNext \<Rightarrow> None
      | Reply status e \<Rightarrow> Some ((error_answer status e)\<lparr>an_Headers := ry_headers ry\<rparr>))"

text \<open>The CSRF middleware guards the calls that change the queue; \<open>guard\<close> is its reply, if there is one.\<close>

definition APIRoutesWithCSRF ::
  "api_env \<Rightarrow> string option \<Rightarrow> reply option \<Rightarrow> api_call \<Rightarrow> Queue \<Rightarrow> answer go \<times> Queue" where
  "APIRoutesWithCSRF en token guard call q =
     (case call of
        ListPending_call \<Rightarrow> (Ret (api_list en token q), q)
      | GetPending_call cid \<Rightarrow> (Ret (api_get en cid q), q)
      | _ \<Rightarrow>
          (case guard of
             None \<Rightarrow> APIRoutes en token call q
           | Some ry \<Rightarrow>
               (case middleware_answer ry of
                  Some a \<Rightarrow> (Ret a, q)
                | None \<Rightarrow> APIRoutes en token call q)))"

section \<open>Properties\<close>

definition pending_ids :: "Queue \<Rightarrow> string set" where
  "pending_ids q = {cid. is_pending q cid}"

lemma api_decide_memory:
  assumes "in_memory q"
  shows "\<exists>q'. api_decide v en cid q =
      (Ret (if is_pending q cid then json_answer 200 [(''success'', JBool True), (''id'', JStr cid), (''action'', JStr (status_of v))]
            else pending_not_found), q') \<and> in_memory q' \<and> is_pending q' = (is_pending q)(cid := False)"
proof -
  obtain b q' where d: "decide_call v (ae_decide_io en) (ae_now en) cid q = (Ret b, q')" "in_memory q'"
    "is_pending q' = (is_pending q)(cid := False)" using decide_call_memory [OF assms] by blast
  have "b = is_pending q cid"
    using d(1) assms
    by (auto simp: decide_call_def decide_store_def in_memory_def is_pending_def split: option.splits prod.splits go.splits)
  with d show ?thesis by (cases v) (simp_all add: api_decide_def Approve_def Deny_def)
qed

text \<open>
  A decision is taken once: for a queue in memory a call to approve or to deny answers success
  exactly for a command that is pending, which then no longer is, and the other commands stay; so every
  later decision on it, either way, is answered with 404.
\<close>

theorem api_decides_once:
  assumes "in_memory q" "APIRoutes en token (if v then Approve_call cid else Deny_call cid) q = (r, q')"
    and "APIRoutes en' token' (if w then Approve_call cid else Deny_call cid) q' = (r', q'')"
  shows "(\<exists>a. r = Ret a \<and> (an_Status a = 200 \<longleftrightarrow> is_pending q cid) \<and> (an_Status a \<noteq> 200 \<longrightarrow> a = pending_not_found)) \<and>
    is_pending q' = (is_pending q)(cid := False) \<and> r' = Ret pending_not_found \<and> is_pending q'' = is_pending q'"
proof -
  have route: "APIRoutes e t (if x then Approve_call cid else Deny_call cid) p = api_decide x e cid p" for e t x p
    by (cases x) (simp_all add: APIRoutes_def)
  from api_decide_memory [OF assms(1), of v en cid] assms(2) have 1: "in_memory q'" "is_pending q' = (is_pending q)(cid := False)"
    "r = Ret (if is_pending q cid then json_answer 200 [(''success'', JBool True), (''id'', JStr cid), (''action'', JStr (status_of v))]
            else pending_not_found)" unfolding route by auto
  from api_decide_memory [OF 1(1), of w en' cid] assms(3) 1(2) have
    "r' = Ret pending_not_found" "is_pending q'' = is_pending q'" unfolding route by auto
  with 1 show ?thesis by (simp add: json_answer_def pending_not_found_def error_answer_def)
qed

definition plain_api :: api_env where
  "plain_api = \<lparr>ae_format = (\<lambda>_. []), ae_get_io = None, ae_decide_io = (\<lambda>_. None), ae_now = 1\<rparr>"

theorem api_decides_once_witness:
  "fst (APIRoutes plain_api None (Deny_call ''a'') (snd (APIRoutes plain_api None (Approve_call ''a'') one_pending))) =
     Ret pending_not_found"
proof -
  have "in_memory one_pending" unfolding in_memory_def queue_inv_def by code_simp
  from api_decides_once [OF this, of plain_api None True "''a''" _ _ plain_api None False] show ?thesis
    by (metis (full_types) prod.collapse)
qed

text \<open>
  With a store the API claims success for commands that do not exist: approving an identifier that
  is neither pending in memory nor a pending row of the store answers success and changes no command.
\<close>

theorem api_false_success:
  assumes "map_of (q_pending q) cid = None" "q_store q = Some s"
    and "\<not> list_ex (\<lambda>r. sp_ID r = cid \<and> sp_Status r = ''pending'') (st_rows s)"
  shows "\<exists>q' a s'. APIRoutes en token (if v then Approve_call cid else Deny_call cid) q = (Ret a, q') \<and>
    an_Status a = 200 \<and> q_pending q' = q_pending q \<and> q_heap q' = q_heap q \<and> q_store q' = Some s' \<and> st_rows s' = st_rows s"
proof -
  let ?upd = "UpdateStatus (ae_decide_io en 0) (ae_now en) s cid (status_of v)"
  have "map f rs = rs" if "\<not> list_ex P rs" "\<And>r. \<not> P r \<Longrightarrow> f r = r" for f P and rs :: "StoredCommand list"
    using that by (induction rs) auto
  then have "st_rows (snd ?upd) = st_rows s" and "fst ?upd \<noteq> Inr True"
    using assms(3) by (auto simp: UpdateStatus_def update_pending_def split: option.split)
  then obtain x s' where "?upd = (x, s')" "x \<noteq> Inr True" "st_rows s' = st_rows s" by (metis surj_pair fst_conv snd_conv)
  with assms(1,2) show ?thesis
    by (cases v) (auto simp: APIRoutes_def api_decide_def Approve_def Deny_def decide_call_def decide_store_def
        Let_def json_answer_def split: sum.split bool.split)
qed

theorem api_false_success_witness:
  "\<exists>q' a s'. APIRoutes plain_api None (if True then Approve_call ''no'' else Deny_call ''no'')
      (NewPersistentQueue 60 empty_store) = (Ret a, q') \<and> an_Status a = 200 \<and>
    q_pending q' = q_pending (NewPersistentQueue 60 empty_store) \<and> q_heap q' = q_heap (NewPersistentQueue 60 empty_store) \<and>
    q_store q' = Some s' \<and> st_rows s' = st_rows empty_store"
  by (rule api_false_success) (simp_all add: NewPersistentQueue_def empty_store_def)

end
