(* ===== verification/Metrics.thy ===== *)
theory Metrics
  imports Go_Strings "HOL-Library.Word"
begin

text \<open>
  The counters of the program and their exposition in the Prometheus text format
  (internal/metrics/metrics.go). The counters are 64-bit integers that wrap. Printing a duration and an
  average in floating point are parameters.
\<close>

section \<open>Counters\<close>

record Metrics =
  mt_RequestsTotal :: int
  mt_RequestsBlocked :: int
  mt_RequestsApproved :: int
  mt_RequestsDenied :: int
  mt_RequestsRateLimited :: int
  mt_CommandsAllowed :: int
  mt_CommandsBlocked :: int
  mt_CommandsPending :: int
  mt_ForkBombsBlocked :: int
  mt_EgressAllowed :: int
  mt_EgressBlocked :: int
  mt_PIIDetected :: int
  mt_AuthSuccess :: int
  mt_AuthFailure :: int
  mt_MCPToolCallsTotal :: int
  mt_MCPToolCallsBlocked :: int
  mt_MCPToolCallsApproved :: int
  mt_MCPToolCallsAllowed :: int
  mt_MCPResourceReads :: int
  mt_BrokerRequestsTotal :: int
  mt_BrokerCredentialInjected :: int
  mt_BrokerDenied :: int
  mt_BrokerUnavailable :: int
  mt_BrokerEgressBlocked :: int
  mt_latencySum :: int
  mt_latencyCount :: int
  mt_startTime :: int

definition new_metrics :: "int \<Rightarrow> Metrics" where
  "new_metrics now =
     \<lparr>mt_RequestsTotal = 0, mt_RequestsBlocked = 0, mt_RequestsApproved = 0, mt_RequestsDenied = 0,
      mt_RequestsRateLimited = 0, mt_CommandsAllowed = 0, mt_CommandsBlocked = 0, mt_CommandsPending = 0,
      mt_ForkBombsBlocked = 0, mt_EgressAllowed = 0, mt_EgressBlocked = 0, mt_PIIDetected = 0,
      mt_AuthSuccess = 0, mt_AuthFailure = 0, mt_MCPToolCallsTotal = 0, mt_MCPToolCallsBlocked = 0,
      mt_MCPToolCallsApproved = 0, mt_MCPToolCallsAllowed = 0, mt_MCPResourceReads = 0,
      mt_BrokerRequestsTotal = 0, mt_BrokerCredentialInjected = 0, mt_BrokerDenied = 0,
      mt_BrokerUnavailable = 0, mt_BrokerEgressBlocked = 0,
      mt_latencySum = 0, mt_latencyCount = 0, mt_startTime = now\<rparr>"

definition wrap64 :: "int \<Rightarrow> int" where
  "wrap64 n = sint (word_of_int n :: 64 word)"

text \<open>\<^verbatim>\<open>d.Microseconds()\<close> divides towards zero.\<close>

definition RecordLatency :: "int \<Rightarrow> Metrics \<Rightarrow> Metrics" where
  "RecordLatency d m =
     m\<lparr>mt_latencySum := wrap64 (mt_latencySum m + sgn d * (\<bar>d\<bar> div 1000)),
       mt_latencyCount := wrap64 (mt_latencyCount m + 1)\<rparr>"

section \<open>Exposition\<close>

text \<open>The counters in the order in which they are written, with their help texts.\<close>

definition counter_table :: "(string \<times> string \<times> (Metrics \<Rightarrow> int)) list" where
  "counter_table =
     [
      (''parachute_requests_total'', ''Total HTTP requests received'', mt_RequestsTotal),
      (''parachute_requests_blocked'', ''Total requests blocked by policy'', mt_RequestsBlocked),
      (''parachute_requests_approved'', ''Total requests approved via HITL'', mt_RequestsApproved),
      (''parachute_requests_denied'', ''Total requests denied via HITL'', mt_RequestsDenied),
      (''parachute_requests_rate_limited'', ''Total requests rate limited'', mt_RequestsRateLimited),
      (''parachute_commands_allowed'', ''Total commands allowed'', mt_CommandsAllowed),
      (''parachute_commands_blocked'', ''Total commands blocked'', mt_CommandsBlocked),
      (''parachute_commands_pending'', ''Total commands pending approval'', mt_CommandsPending),
      (''parachute_fork_bombs_blocked'', ''Total fork bombs blocked'', mt_ForkBombsBlocked),
      (''parachute_egress_allowed'', ''Total egress requests allowed'', mt_EgressAllowed),
      (''parachute_egress_blocked'', ''Total egress requests blocked'', mt_EgressBlocked),
      (''parachute_pii_detected'', ''Total PII patterns detected'', mt_PIIDetected),
      (''parachute_auth_success'', ''Total successful authentications'', mt_AuthSuccess),
      (''parachute_auth_failure'', ''Total failed authentications'', mt_AuthFailure),
      (''parachute_mcp_tool_calls_total'', ''Total MCP tool calls'', mt_MCPToolCallsTotal),
      (''parachute_mcp_tool_calls_blocked'', ''Total MCP tool calls blocked'', mt_MCPToolCallsBlocked),
      (''parachute_mcp_tool_calls_approved'', ''Total MCP tool calls approved via HITL'', mt_MCPToolCallsApproved),
      (''parachute_mcp_tool_calls_allowed'', ''Total MCP tool calls allowed'', mt_MCPToolCallsAllowed),
      (''parachute_mcp_resource_reads'', ''Total MCP resource reads'', mt_MCPResourceReads),
      (''parachute_broker_requests_total'', ''Total broker credential requests'', mt_BrokerRequestsTotal),
      (''parachute_broker_credential_injected'', ''Total credentials injected'', mt_BrokerCredentialInjected),
      (''parachute_broker_denied'', ''Total broker requests denied'', mt_BrokerDenied),
      (''parachute_broker_unavailable'', ''Total broker credential unavailable'', mt_BrokerUnavailable),
      (''parachute_broker_egress_blocked'', ''Total direct access blocked for managed integrations'', mt_BrokerEgressBlocked)
     ]"

definition counter_rows :: "Metrics \<Rightarrow> (string \<times> string \<times> int) list" where
  "counter_rows m = map (\<lambda>(n, h, f). (n, h, f m)) counter_table"

definition metric_lines :: "string \<Rightarrow> string \<Rightarrow> string \<Rightarrow> string \<Rightarrow> string list" where
  "metric_lines name help kind sample =
     [''# HELP '' @ name @ '' '' @ help, ''# TYPE '' @ name @ '' '' @ kind, name @ '' '' @ sample]"

text \<open>
  The lines of the answer: the uptime, the counters with an empty line before each, and the average
  latency in milliseconds, zero when nothing was recorded.
\<close>

definition metrics_lines :: "(int \<Rightarrow> string) \<Rightarrow> (int \<Rightarrow> int \<Rightarrow> string) \<Rightarrow> int \<Rightarrow> Metrics \<Rightarrow> string list" where
  "metrics_lines seconds average now m =
     metric_lines ''parachute_uptime_seconds'' ''Time since service started'' ''gauge'' (seconds (now - mt_startTime m)) @
     concat (map (\<lambda>(name, help, v). [] # metric_lines name help ''counter'' (int_dec v)) (counter_rows m)) @
     [] # metric_lines ''parachute_request_latency_ms'' ''Average request latency in milliseconds'' ''gauge''
       (if mt_latencyCount m > 0 then average (mt_latencySum m) (mt_latencyCount m) else ''0.000'')"

definition metrics_Handler ::
  "(int \<Rightarrow> string) \<Rightarrow> (int \<Rightarrow> int \<Rightarrow> string) \<Rightarrow> int \<Rightarrow> Metrics \<Rightarrow> (string \<times> string) \<times> string" where
  "metrics_Handler seconds average now m =
     ((''Content-Type'', ''text/plain; version=0.0.4; charset=utf-8''),
      concat (map (\<lambda>l. l @ nl) (metrics_lines seconds average now m)))"

section \<open>Reading the text\<close>

text \<open>What a scraper does: the lines, and the sample of the first line for a metric.\<close>

fun split_lines :: "string \<Rightarrow> string \<Rightarrow> string list" where
  "split_lines cur [] = (if cur = [] then [] else [cur])"
| "split_lines cur (c # s) = (if c = newline then cur # split_lines [] s else split_lines (cur @ [c]) s)"

definition scrape :: "string \<Rightarrow> string \<Rightarrow> string option" where
  "scrape text name =
     map_option (\<lambda>l. drop (length name + 1) l) (find (\<lambda>l. HasPrefix l (name @ '' '')) (split_lines [] text))"

lemma split_lines_line: "newline \<notin> set l \<Longrightarrow> split_lines cur (l @ nl @ s) = (cur @ l) # split_lines [] s"
  by (induction l arbitrary: cur) (auto simp: nl_def)

lemma split_lines_concat:
  "list_all (\<lambda>l. newline \<notin> set l) ls \<Longrightarrow> split_lines [] (concat (map (\<lambda>l. l @ nl) ls)) = ls"
  by (induction ls) (simp_all add: split_lines_line)

text \<open>A name of a metric has no blank, no line end and does not begin like a comment.\<close>

definition metric_name :: "string \<Rightarrow> bool" where
  "metric_name n \<longleftrightarrow> n \<noteq> [] \<and> hd n \<noteq> CHR ''#'' \<and> CHR '' '' \<notin> set n \<and> newline \<notin> set n"

lemma prefix_of_sample:
  "CHR '' '' \<notin> set n \<Longrightarrow> CHR '' '' \<notin> set n' \<Longrightarrow> HasPrefix (n' @ '' '' @ v) (n @ '' '') \<longleftrightarrow> n' = n"
proof
  assume n: "CHR '' '' \<notin> set n" "CHR '' '' \<notin> set n'" and "HasPrefix (n' @ '' '' @ v) (n @ '' '')"
  then obtain t where "n' @ CHR '' '' # v = n @ CHR '' '' # t" by (auto elim: HasPrefixE)
  then have "cut_first (CHR '' '') (n' @ CHR '' '' # v) = cut_first (CHR '' '') (n @ CHR '' '' # t)" by (rule arg_cong)
  with n show "n' = n" by simp
next
  assume "n' = n"
  then have "n' @ '' '' @ v = (n @ '' '') @ v" by simp
  then show "HasPrefix (n' @ '' '' @ v) (n @ '' '')" by (metis HasPrefix_append)
qed

lemma find_metric_lines:
  assumes "metric_name n" "CHR '' '' \<notin> set n'"
  shows "find (\<lambda>l. HasPrefix l (n @ '' '')) (metric_lines n' help kind v @ ls) =
    (if n' = n then Some (n' @ '' '' @ v) else find (\<lambda>l. HasPrefix l (n @ '' '')) ls)"
proof -
  obtain c t where "n = c # t" "c \<noteq> CHR ''#''" using assms(1) by (cases n) (auto simp: metric_name_def)
  then have "\<not> HasPrefix (''# HELP '' @ x) (n @ '' '')" "\<not> HasPrefix (''# TYPE '' @ x) (n @ '' '')" for x
    by (auto elim!: HasPrefixE)
  with assms prefix_of_sample [of n n' v] show ?thesis by (simp add: metric_lines_def metric_name_def)
qed

lemma not_prefix_Nil: "\<not> HasPrefix [] (n @ '' '')"
  by (auto elim!: HasPrefixE)

lemma find_rows:
  assumes "metric_name n" "list_all (\<lambda>(n', _). CHR '' '' \<notin> set n') rows" "map_of rows n = Some (help, v)"
  shows "find (\<lambda>l. HasPrefix l (n @ '' ''))
    (concat (map (\<lambda>(name, help, v). [] # metric_lines name help ''counter'' (int_dec v)) rows) @ ls) =
    Some (n @ '' '' @ int_dec v)"
  using assms(2,3) by (induction rows) (auto simp: find_metric_lines [OF assms(1)] not_prefix_Nil split: if_splits)

lemma table_wf:
  "list_all (\<lambda>(n, h, f). metric_name n \<and> newline \<notin> set h) counter_table" "distinct (map fst counter_table)"
  by code_simp+

lemma rows_wf: "list_all (\<lambda>(n, h, v). metric_name n \<and> newline \<notin> set h) (counter_rows m)"
  using table_wf(1) by (auto simp: counter_rows_def list_all_iff)

lemma map_of_rows: "(n, h, f) \<in> set counter_table \<Longrightarrow> map_of (counter_rows m) n = Some (h, f m)"
proof -
  have "map fst (counter_rows m) = map fst counter_table" by (simp add: counter_rows_def split_def)
  then have "distinct (map fst (counter_rows m))" using table_wf(2) by simp
  moreover assume "(n, h, f) \<in> set counter_table"
  then have "(n, h, f m) \<in> set (counter_rows m)" by (force simp: counter_rows_def)
  ultimately show ?thesis by simp
qed

lemma int_dec_line: "newline \<notin> set (int_dec v)"
proof -
  have "newline \<notin> set (nat_dec n)" for n using nat_dec_digits [of newline n] by (auto simp: newline_def byte_of_def)
  moreover have "newline \<noteq> CHR ''-''" by code_simp
  ultimately show ?thesis by (auto simp: int_dec_def)
qed

lemma metric_lines_one_line:
  "newline \<notin> set n \<Longrightarrow> newline \<notin> set h \<Longrightarrow> newline \<notin> set k \<Longrightarrow> newline \<notin> set v \<Longrightarrow>
     list_all (\<lambda>l. newline \<notin> set l) (metric_lines n h k v)"
proof -
  have "newline \<notin> set ''# HELP ''" "newline \<notin> set ''# TYPE ''" "newline \<notin> set '' ''" by code_simp+
  then show "newline \<notin> set n \<Longrightarrow> newline \<notin> set h \<Longrightarrow> newline \<notin> set k \<Longrightarrow> newline \<notin> set v \<Longrightarrow>
     list_all (\<lambda>l. newline \<notin> set l) (metric_lines n h k v)"
    unfolding metric_lines_def set_append list.pred_inject Un_iff by simp
qed

lemma fixed_lines:
  "newline \<notin> set ''parachute_uptime_seconds''" "newline \<notin> set ''Time since service started''" "newline \<notin> set ''gauge''"
  "newline \<notin> set ''counter''" "newline \<notin> set ''parachute_request_latency_ms''"
  "newline \<notin> set ''Average request latency in milliseconds''" "newline \<notin> set ''0.000''"
  by code_simp+

lemma metrics_lines_wf:
  assumes "\<And>d. newline \<notin> set (seconds d)" "\<And>a b. newline \<notin> set (average a b)"
  shows "list_all (\<lambda>l. newline \<notin> set l) (metrics_lines seconds average now m)"
proof -
  have "list_all (\<lambda>l. newline \<notin> set l)
      (concat (map (\<lambda>(name, help, v). [] # metric_lines name help ''counter'' (int_dec v)) rows))"
    if "list_all (\<lambda>(n, h, v). metric_name n \<and> newline \<notin> set h) rows" for rows
    using that
    by (induction rows) (auto intro!: metric_lines_one_line fixed_lines int_dec_line simp: metric_name_def)
  from this [OF rows_wf] show ?thesis
    unfolding metrics_lines_def list_all_append
    using assms by (auto intro!: metric_lines_one_line fixed_lines)
qed

section \<open>Properties\<close>

text \<open>
  The exposition can be read back: whoever splits the answer of \<open>/metrics\<close> into lines and looks for
  the sample of a counter finds its value, for each of the 24 counters, at any time.
\<close>

theorem metrics_scraped:
  assumes "(name, help, counter) \<in> set counter_table"
    and "\<And>d. newline \<notin> set (seconds d)" "\<And>a b. newline \<notin> set (average a b)"
  shows "scrape (snd (metrics_Handler seconds average now m)) name = Some (int_dec (counter m))"
proof -
  have lines: "split_lines [] (snd (metrics_Handler seconds average now m)) = metrics_lines seconds average now m"
    unfolding metrics_Handler_def snd_conv by (rule split_lines_concat [OF metrics_lines_wf [OF assms(2,3)]])
  have name: "metric_name name" using assms(1) table_wf(1) by (auto simp: list_all_iff)
  have up: "CHR '' '' \<notin> set ''parachute_uptime_seconds''" "''parachute_uptime_seconds'' \<notin> fst ` set counter_table"
    by code_simp+
  have ne: "''parachute_uptime_seconds'' \<noteq> name" using assms(1) up(2) by force
  have rows: "list_all (\<lambda>(n', _). CHR '' '' \<notin> set n') (counter_rows m)"
    using rows_wf [of m] by (auto simp: list_all_iff metric_name_def)
  have "find (\<lambda>l. HasPrefix l (name @ '' '')) (metrics_lines seconds average now m) = Some (name @ '' '' @ int_dec (counter m))"
    unfolding metrics_lines_def find_metric_lines [OF name up(1)] if_not_P [OF ne]
    by (rule find_rows [OF name rows map_of_rows [OF assms(1)]])
  then show ?thesis by (simp add: scrape_def lines)
qed

theorem metrics_scraped_witness:
  "scrape (snd (metrics_Handler (\<lambda>_. ''1.00'') (\<lambda>_ _. ''0.100'') 5 ((new_metrics 0)\<lparr>mt_AuthFailure := 42\<rparr>)))
     ''parachute_auth_failure'' = Some ''42''"
proof -
  have "(''parachute_auth_failure'', ''Total failed authentications'', mt_AuthFailure) \<in> set counter_table"
    by (simp add: counter_table_def)
  moreover have "newline \<notin> set ''1.00''" "newline \<notin> set ''0.100''" "int_dec 42 = ''42''" by code_simp+
  ultimately show ?thesis
    using metrics_scraped [of "''parachute_auth_failure''" _ mt_AuthFailure "\<lambda>_. ''1.00''" "\<lambda>_ _. ''0.100''" 5
        "(new_metrics 0)\<lparr>mt_AuthFailure := 42\<rparr>"] by simp
qed

end
