(* ===== verification/Startup.thy ===== *)
theory Startup
  imports Gateway Forward_Proxy Reverse_Proxy Dashboard Mcp Exporters Metrics
begin

text \<open>
  How the program is put together (cmd/parachute/main.go): the check of the authentication settings,
  the queue, the signing key, the matcher and the broker that the configuration asks for, the
  conversions of the MCP settings, and the groups of routes with their middlewares. The license
  validator of the open-source build (internal/license) is here too.

  Parameters: the environment, files, PEM and Ed25519, parsing a duration. Starting goroutines and
  listeners, signals and the log are left out.
\<close>

section \<open>License\<close>

datatype Feature =
    FeatureCloudRelay | FeatureFleetDashboard | FeatureSIEM | FeatureCentralPolicy | FeatureRBAC | FeatureCompliance

definition IsEnabled :: "Feature \<Rightarrow> bool" where
  "IsEnabled f = False"

definition Validate :: "string \<Rightarrow> string option" where
  "Validate key = Some ''this feature requires a Parachute Pro license''"

section \<open>Authentication settings\<close>

definition authConfigured :: "AuthConfig \<Rightarrow> bool" where
  "authConfigured cfg \<longleftrightarrow> au_Username cfg \<noteq> [] \<or> au_Token cfg \<noteq> []"

text \<open>Whether the program goes on; otherwise it ends with an error.\<close>

definition auth_settings_ok :: "AuthConfig \<Rightarrow> bool" where
  "auth_settings_ok cfg \<longleftrightarrow> authConfigured cfg \<or> au_AllowInsecure cfg"

section \<open>The queue\<close>

definition approval_timeout :: int where "approval_timeout = 5 * 60 * 1000000000"

definition start_queue :: "(string \<Rightarrow> string option) \<Rightarrow> (string \<Rightarrow> string + Store) \<Rightarrow> Config \<Rightarrow> string + Queue" where
  "start_queue mkdir open_store cfg =
     (if sc_Type (cf_Storage cfg) = ''sqlite'' then
        (case mkdir (sc_Path (cf_Storage cfg)) of
           Some e \<Rightarrow> Inl (''Failed to create storage directory: '' @ e)
         | None \<Rightarrow>
             (case open_store (sc_Path (cf_Storage cfg)) of
                Inl e \<Rightarrow> Inl (''Failed to initialize storage: '' @ e)
              | Inr s \<Rightarrow> Inr (NewPersistentQueue approval_timeout s)))
      else Inr (NewQueue approval_timeout))"

section \<open>The signing key\<close>

record key_functions =
  kf_read :: "string \<Rightarrow> string + string"
  kf_pem :: "string \<Rightarrow> string option"
  kf_from_seed :: "string \<Rightarrow> string"
  kf_public :: "string \<Rightarrow> string"

definition hex_string :: "string \<Rightarrow> string" where
  "hex_string s = concat (map (\<lambda>c. [lower_hex (byte_of c div 16), lower_hex (byte_of c mod 16)]) s)"

text \<open>The key and its identifier, none without a path, or the error the program ends with.\<close>

definition load_signing_key :: "key_functions \<Rightarrow> string \<Rightarrow> string \<Rightarrow> string + (string \<times> string) option" where
  "load_signing_key kf path key_id =
     (if path = [] then Inr None
      else (case kf_read kf path of
              Inl e \<Rightarrow> Inl (''Failed to read signing key '' @ path @ '': '' @ e)
            | Inr raw \<Rightarrow>
                (let data = (case kf_pem kf raw of Some b \<Rightarrow> b | None \<Rightarrow> raw);
                     named = (\<lambda>key. Inr (Some (key, if key_id \<noteq> [] then key_id
                                                     else ''sidecar/'' @ hex_string (take 8 (kf_public kf key)))))
                 in if length data = 64 then named data
                    else if length data = 32 then named (kf_from_seed kf data)
                    else Inl (''Invalid signing key size '' @ nat_dec (length data) @ '' (expected 32 or 64 bytes)''))))"

section \<open>Small conversions\<close>

definition heartbeat_url :: "string \<Rightarrow> string" where
  "heartbeat_url url = TrimSuffix url ''/sdr-batch'' @ ''/heartbeat''"

definition parseDuration :: "(string \<Rightarrow> int option) \<Rightarrow> string \<Rightarrow> int \<Rightarrow> int" where
  "parseDuration parse s fallback =
     (if s = [] then fallback else (case parse s of Some d \<Rightarrow> d | None \<Rightarrow> fallback))"

definition loadWebhooks :: "WebhookSetting list \<Rightarrow> WebhookConfig list" where
  "loadWebhooks whs = map (\<lambda>w. \<lparr>wh_URL = wc_URL w, wh_Method = wc_Method w, wh_Headers = wc_Headers w\<rparr>) whs"

definition toMCPServerPolicy :: "MCPServerPolicy \<Rightarrow> ServerPolicy" where
  "toMCPServerPolicy p =
     \<lparr>mp_BlockTools = ms_BlockTools p, mp_RequireApproval = ms_RequireApproval p, mp_AllowTools = ms_AllowTools p,
      mp_BlockResources = ms_BlockResources p\<rparr>"

definition toMCPServerPolicies ::
  "(string \<times> MCPServerPolicy) list option \<Rightarrow> (string \<times> ServerPolicy) list option" where
  "toMCPServerPolicies ps = map_option (map (\<lambda>(k, v). (k, toMCPServerPolicy v))) ps"

definition toMCPUpstreams :: "MCPUpstreamConfig list \<Rightarrow> ServerConfig list" where
  "toMCPUpstreams us =
     map (\<lambda>u. \<lparr>sv_Name = mu_Name u, sv_URL = mu_URL u, sv_Transport = default_to ''http'' (mu_Transport u),
                sv_Command = mu_Command u\<rparr>) us"

section \<open>The broker\<close>

definition integration_def :: "BrokerIntegrationConfig \<Rightarrow> IntegrationDef" where
  "integration_def ic =
     \<lparr>id_Name = bi_Name ic, id_Hosts = bi_Hosts ic, id_Provider = default_to (bi_Name ic) (bi_Provider ic)\<rparr>"

definition start_matcher :: "Config \<Rightarrow> IntegrationMatcher option" where
  "start_matcher cfg =
     (if bc_Enabled (cf_Broker cfg)
      then Some (NewMatcher (map integration_def (filter bi_Enabled (bc_Integrations (cf_Broker cfg)))))
      else None)"

definition uses_pro :: "BrokerConfig \<Rightarrow> bool" where
  "uses_pro bc = list_ex (\<lambda>ic. bi_Enabled ic \<and> bi_CredentialSource ic = ''pro'') (bc_Integrations bc)"

definition dev_sources :: "BrokerConfig \<Rightarrow> (string \<times> DevStaticConfig) list" where
  "dev_sources bc =
     fold (\<lambda>ic m.
         if bi_Enabled ic \<and> bi_CredentialSource ic = ''dev_static'' \<and> bi_StaticTokenEnv ic \<noteq> []
         then AList.update (bi_Name ic)
                \<lparr>ds_TokenEnv = bi_StaticTokenEnv ic, ds_HeaderName = bi_HeaderName ic, ds_Prefix = bi_TokenPrefix ic,
                 ds_NoPrefix = False\<rparr> m
         else m)
       (bc_Integrations bc) []"

datatype credential_source = ProSource ProBroker | StaticSource "(string \<times> staticSource) list" | NoSource

definition choose_broker :: "(string \<Rightarrow> string) \<Rightarrow> BrokerConfig \<Rightarrow> credential_source" where
  "choose_broker getenv bc =
     (if uses_pro bc \<and> bc_ProURL bc \<noteq> [] then ProSource (NewProBroker getenv (bc_ProURL bc) (bc_APIKeyEnv bc))
      else if dev_sources bc \<noteq> [] then StaticSource (NewDevStaticBroker (dev_sources bc))
      else NoSource)"

text \<open>The chosen broker as a resolver over what it keeps.\<close>

definition source_resolve ::
  "(string \<Rightarrow> string) \<Rightarrow> (string \<Rightarrow> string \<Rightarrow> BrokerRequest \<Rightarrow> pro_outcome) \<Rightarrow> int \<Rightarrow> credential_source resolver" where
  "source_resolve getenv call now req src =
     (case src of
        ProSource pb \<Rightarrow> (let (res, pb') = ProBroker_Resolve call now req pb in (res, ProSource pb'))
      | StaticSource m \<Rightarrow> (fst (DevStaticBroker_Resolve getenv m req ()), src)
      | NoSource \<Rightarrow> (fst (NoopBroker_Resolve req ()), src))"

definition start_gateway :: "Config \<Rightarrow> bool \<Rightarrow> Gateway option" where
  "start_gateway cfg collects =
     map_option (\<lambda>m.
       NewGateway m main_registry (bc_Mode (cf_Broker cfg)) (bc_FailBehavior (cf_Broker cfg)) collects
         (tc_AgentID (cf_Telemetry cfg)) (tc_CorrelationID (cf_Telemetry cfg)))
     (start_matcher cfg)"

text \<open>Requests to the gateway one after another, each with its time, its integration and its path.\<close>

fun serve_gateway ::
  "http_client \<Rightarrow> (string \<Rightarrow> string) \<Rightarrow> (string \<Rightarrow> string \<Rightarrow> BrokerRequest \<Rightarrow> pro_outcome) \<Rightarrow> Gateway \<Rightarrow>
   (int \<times> string \<times> string \<times> Request) list \<Rightarrow> credential_source \<Rightarrow> credential_source gateway_result list" where
  "serve_gateway hc getenv call g [] src = []"
| "serve_gateway hc getenv call g ((now, integration, star, r) # reqs) src =
     (let res = Gateway_Handler hc (source_resolve getenv call now) (im_hostMap (gw_matcher g)) g integration star r src
      in res # serve_gateway hc getenv call g reqs (case res of Handled h \<Rightarrow> gh_state h | Panic \<Rightarrow> src))"

section \<open>Groups of routes\<close>

definition start_limiter :: RateLimiter where
  "start_limiter = NewRateLimiter 60 (60 * 1000000000)"

definition api_group ::
  "(string \<Rightarrow> string) \<Rightarrow> AuthConfig \<Rightarrow> int \<Rightarrow> string \<Rightarrow> api_env \<Rightarrow> api_call \<Rightarrow> Request \<Rightarrow> RateLimiter \<times> Queue \<Rightarrow>
   answer go \<times> RateLimiter \<times> Queue" where
  "api_group getenv cfg now cid en call r s =
     (let (limited, rl) = RateLimiter_Handler now cid r (fst s); q = snd s in
      case middleware_answer limited of
        Some a \<Rightarrow> (Ret a, rl, q)
      | None \<Rightarrow>
          (case middleware_answer (Auth getenv cfg cid r) of
             Some a \<Rightarrow> (Ret a, rl, q)
           | None \<Rightarrow> (let (a, q') = APIRoutes en None call q in (a, rl, q'))))"

definition proxy_group ::
  "(string \<Rightarrow> string) \<Rightarrow> AuthConfig \<Rightarrow> string \<Rightarrow> proxy_env \<Rightarrow> ReverseProxy \<Rightarrow> ProxyRequest \<Rightarrow> proxy_state \<Rightarrow>
   Reverse_Proxy.reply \<times> proxy_state" where
  "proxy_group getenv cfg cid en p r s =
     (case middleware_answer (Auth getenv cfg cid (Request.truncate r)) of
        Some a \<Rightarrow> (Answer a, s)
      | None \<Rightarrow> Proxy_Handler en p r s)"

definition mcp_group ::
  "(string \<Rightarrow> string) \<Rightarrow> AuthConfig \<Rightarrow> string \<Rightarrow> (Request \<Rightarrow> ctx \<Rightarrow> string option \<times> ctx) \<Rightarrow> Request \<Rightarrow> ctx \<Rightarrow>
   answer + string option \<times> ctx" where
  "mcp_group getenv cfg cid handler r c =
     (case middleware_answer (Auth getenv cfg cid r) of
        Some a \<Rightarrow> Inl a
      | None \<Rightarrow> Inr (handler r c))"

section \<open>The chosen broker\<close>

definition source_inv :: "(string \<Rightarrow> string \<Rightarrow> BrokerRequest \<Rightarrow> pro_outcome) \<Rightarrow> credential_source \<Rightarrow> bool" where
  "source_inv call src \<longleftrightarrow> (case src of ProSource pb \<Rightarrow> pro_inv call pb | _ \<Rightarrow> True)"

text \<open>Whichever is chosen keeps the contract of a broker, from those of the three.\<close>

interpretation source: credential_broker "source_resolve getenv call now" "source_inv call" plain_class
  for getenv call now
proof
  fix s req r
  assume inv: "source_inv call s" and asks: "plain_class req"
  show "source_inv call (snd (source_resolve getenv call now req s))"
    using inv pro.resolve_inv [OF _ asks]
    by (auto simp: source_inv_def source_resolve_def Let_def split: credential_source.splits prod.splits)
      (metis snd_conv)
  assume r: "fst (source_resolve getenv call now req s) = Inr r"
  show "lawful_result r" "br_Integration r = bq_Integration req \<and> br_RouteClass r = bq_RouteClass req"
    using inv r pro.resolve_lawful [OF _ asks] static.resolve_lawful noop.resolve_lawful
      pro.resolve_subject [OF _ asks] static.resolve_subject noop.resolve_subject
    by (auto simp: source_inv_def source_resolve_def Let_def split: credential_source.splits prod.splits)
      (metis fst_conv)+
qed

lemma choose_broker_inv [inv_intros]: "source_inv call (choose_broker getenv bc)"
  by (simp add: choose_broker_def source_inv_def pro_inv_New)

lemma start_gateway_registry: "start_gateway cfg collects = Some g \<Longrightarrow> gw_registry g = main_registry"
  by (auto simp: start_gateway_def NewGateway_def)

lemma serve_gateway_handled:
  assumes "gw_registry g = main_registry"
  shows "source_inv call src \<Longrightarrow> \<forall>res \<in> set (serve_gateway hc getenv call g reqs src). res \<noteq> Panic"
proof (induction reqs arbitrary: src)
  case (Cons req reqs)
  obtain now integration star r where req: "req = (now, integration, star, r)" by (cases req)
  from source.gateway_safe [OF Cons.prems main_registry_plain [OF assms]] obtain h where
    "Gateway_Handler hc (source_resolve getenv call now) (im_hostMap (gw_matcher g)) g integration star r src = Handled h"
    "source_inv call (gh_state h)" by blast
  with Cons.IH show ?case by (simp add: req)
qed simp

section \<open>Middlewares\<close>

lemma middleware_answer_None: "middleware_answer ry = None \<longleftrightarrow> ry_verdict ry = CallNext"
  by (simp add: middleware_answer_def split: verdict.split)

definition credentials_ok :: "(string \<Rightarrow> string) \<Rightarrow> AuthConfig \<Rightarrow> Request \<Rightarrow> bool" where
  "credentials_ok getenv cfg r \<longleftrightarrow> ip_allowed cfg (rq_IP r) \<and>
     (bearer_ok (au_Token cfg) (header_get (rq_Headers r) ''Authorization'') \<or>
      basic_ok (au_Username cfg) (Password getenv cfg) (header_get (rq_Headers r) ''Authorization''))"

lemma Auth_refuses:
  "au_Username cfg \<noteq> [] \<Longrightarrow> \<not> credentials_ok getenv cfg r \<Longrightarrow> \<exists>a. middleware_answer (Auth getenv cfg cid r) = Some a"
  using middleware_answer_None [of "Auth getenv cfg cid r"]
  by (cases "middleware_answer (Auth getenv cfg cid r)") (auto simp: Auth_iff credentials_ok_def)

section \<open>Properties\<close>

text \<open>
  Without credentials nothing happens: with a user configured, a request that comes from an address
  that is not allowed or carries neither the token nor the user's credentials leaves the queue as it
  is on the API, sends nothing upstream on the proxy, and does not reach the MCP handler.
\<close>

theorem unauthenticated_ineffective:
  assumes "au_Username cfg \<noteq> []" "\<not> credentials_ok getenv cfg (Request.truncate r)"
  shows "snd (snd (api_group getenv cfg now cid en call (Request.truncate r) (rl, q))) = q \<and>
    snd (proxy_group getenv cfg cid pe p r ps) = ps \<and>
    (\<exists>a. mcp_group getenv cfg cid handler (Request.truncate r) c = Inl a)"
proof -
  obtain a where a: "middleware_answer (Auth getenv cfg cid (Request.truncate r)) = Some a"
    using Auth_refuses [OF assms] by blast
  have "snd (snd (api_group getenv cfg now cid en call (Request.truncate r) (rl, q))) = q"
    by (simp add: api_group_def a Let_def split: prod.split option.split)
  with a show ?thesis by (simp add: proxy_group_def mcp_group_def)
qed

definition anonymous :: ProxyRequest where
  "anonymous =
     \<lparr>rq_Method = ''POST'', rq_Host = ''localhost'', rq_Path = ''/api/approve/a'', rq_Query = [], rq_IP = ''10.0.0.9'',
      rq_Headers = [], rq_Body = [], rq_OriginalURL = ''/api/approve/a''\<rparr>"

theorem unauthenticated_ineffective_witness:
  "snd (snd (api_group (\<lambda>_. ''pw'') (auth_config ''me'' []) 0 ''c'' plain_api (Approve_call ''a'')
      (Request.truncate anonymous) (start_limiter, one_pending))) = one_pending"
proof -
  have "\<not> credentials_ok (\<lambda>_. ''pw'') (auth_config ''me'' []) (Request.truncate anonymous)" by code_simp
  then show ?thesis
    using unauthenticated_ineffective [of "auth_config ''me'' []" "\<lambda>_. ''pw''" anonymous]
    by (simp add: auth_config_def)
qed

text \<open>
  A token alone starts an open server: with a token, no user and no insecure flag the program goes
  on without a complaint, and then approves a pending command for anyone who asks, without a token.
\<close>

theorem token_only_open:
  assumes "au_Username cfg = []" "au_Token cfg \<noteq> []" "\<not> au_AllowInsecure cfg" "au_AllowedIPs cfg = []"
    and "in_memory q" "is_pending q cmd"
  shows "auth_settings_ok cfg \<and>
    (\<exists>a rl' q'. api_group getenv cfg now cid en (Approve_call cmd) r (start_limiter, q) = (Ret a, rl', q') \<and>
       an_Status a = 200 \<and> \<not> is_pending q' cmd)"
proof -
  have lim: "ry_verdict (fst (RateLimiter_Handler now cid r start_limiter)) = CallNext"
    by (simp add: RateLimiter_Handler_def start_limiter_def NewRateLimiter_def rate_entry_def pass_def)
  have auth: "middleware_answer (Auth getenv cfg cid r) = None"
    unfolding middleware_answer_None
    using token_only_unprotected [OF assms(1)] assms(4) by (simp add: ip_allowed_def)
  obtain q' where "api_decide True en cmd q =
      (Ret (json_answer 200 [(''success'', JBool True), (''id'', JStr cmd), (''action'', JStr (status_of True))]), q')"
    "is_pending q' = (is_pending q)(cmd := False)" using api_decide_memory [OF assms(5), of True en cmd] assms(6) by auto
  with lim auth show ?thesis
    using assms(2)
    by (cases "RateLimiter_Handler now cid r start_limiter")
      (simp add: auth_settings_ok_def authConfigured_def api_group_def middleware_answer_None [THEN iffD2] APIRoutes_def
        json_answer_def)
qed

theorem token_only_open_witness:
  "auth_settings_ok (auth_config [] ''secret'') \<and>
    (\<exists>a rl' q'. api_group (\<lambda>_. []) (auth_config [] ''secret'') 0 ''c'' plain_api (Approve_call ''a'')
       (Request.truncate anonymous) (start_limiter, one_pending) = (Ret a, rl', q') \<and>
       an_Status a = 200 \<and> \<not> is_pending q' ''a'')"
proof (rule token_only_open)
  show "in_memory one_pending" unfolding in_memory_def queue_inv_def by code_simp
  show "is_pending one_pending ''a''" by code_simp
qed (simp_all add: auth_config_def)

text \<open>
  C31. The gateway that the program starts always answers: with the broker that the configuration
  chooses, over any requests in a row, and whatever the control plane, the upstream servers and the
  environment do, no request ends in the dereference of a missing credential.
\<close>

theorem started_gateway_answers:
  assumes "start_gateway cfg collects = Some g"
  shows "Panic \<notin> set (serve_gateway hc getenv call g reqs (choose_broker getenv (cf_Broker cfg)))"
  using serve_gateway_handled [OF start_gateway_registry [OF assms] choose_broker_inv] by blast

definition broker_section :: BrokerConfig where
  "broker_section =
     \<lparr>bc_Enabled = True, bc_Listen = '':8081'', bc_Mode = ''enforce'', bc_FailBehavior = ''closed'',
      bc_Integrations =
        [\<lparr>bi_Name = ''github'', bi_Provider = [], bi_Hosts = [''API.github.com''], bi_Enabled = True,
          bi_CredentialSource = ''pro'', bi_StaticTokenEnv = [], bi_HeaderName = [], bi_TokenPrefix = []\<rparr>],
      bc_ProURL = ''https://pro'', bc_APIKeyEnv = ''KEY''\<rparr>"

definition broker_config :: Config where
  "broker_config = blank_config\<lparr>cf_Broker := broker_section\<rparr>"

theorem started_gateway_answers_witness:
  "Panic \<notin> set (serve_gateway demo_client (\<lambda>_. ''k'') always_allow
      (the (start_gateway broker_config True)) [(0, ''github'', ''user'', demo_request)]
      (choose_broker (\<lambda>_. ''k'') broker_section))"
proof -
  have "start_gateway broker_config True = Some (the (start_gateway broker_config True))"
    by (simp add: start_gateway_def NewGateway_def start_matcher_def broker_section_def broker_config_def)
  from started_gateway_answers [OF this, of demo_client "\<lambda>_. ''k''" always_allow "[(0, ''github'', ''user'', demo_request)]"]
  show ?thesis by (simp add: broker_config_def)
qed



end
