(* ===== verification/Program.thy ===== *)
theory Program
  imports Startup Telemetry Relay
begin

text \<open>
  The whole of \<^verbatim>\<open>main\<close> (cmd/parachute/main.go) on what \<open>Startup\<close> provides: from the configuration file
  to the parts that run, or the error that ends the program. The parts are values that share what the
  code shares (the queue, the policy, the matcher, the paths of the telemetry files); that they then
  run is what the other theories are about.

  Parameters, in the record \<open>program_env\<close>: the environment, the files and directories, the keys, parsing
  durations, and the fresh identifiers of the collector.
\<close>

record program_env =
  pm_getenv :: "string \<Rightarrow> string"
  pm_version :: string
  pm_mkdir :: "string \<Rightarrow> string option"   \<comment> \<open>the directory of a path\<close>
  pm_open_store :: "string \<Rightarrow> string + Store"
  pm_chain_file :: "string \<Rightarrow> file_content"
  pm_open_spool :: "string \<Rightarrow> string option"
  pm_spool_content :: "string \<Rightarrow> string"
  pm_keys :: key_functions
  pm_duration :: "string \<Rightarrow> int option"
  pm_agent :: string
  pm_session :: string

section \<open>Telemetry\<close>

record telemetry_parts =
  tl_collector :: "string Collector"
  tl_spool :: JSONLExporter
  tl_uploader :: "HTTPBatchConfig option"
  tl_heartbeat :: "HeartbeatConfig option"

definition collector_config :: "program_env \<Rightarrow> TelemetryConfig \<Rightarrow> (string \<times> string) option \<Rightarrow> string CollectorConfig" where
  "collector_config en t key =
     \<lparr>cc_AgentID = tc_AgentID t, cc_TenantID = tc_TenantID t, cc_CorrelationID = tc_CorrelationID t,
      cc_SidecarVersion = pm_version en, cc_QueueSize = 0, cc_SigningKey = map_option fst key,
      cc_KeyID = (case key of Some (_, keyID) \<Rightarrow> keyID | None \<Rightarrow> [])\<rparr>"

definition start_uploader :: "program_env \<Rightarrow> TelemetryConfig \<Rightarrow> HTTPBatchConfig option" where
  "start_uploader en t =
     (if tc_URL t = [] then None
      else Some (NewHTTPBatchExporter
        \<lparr>hb_ProURL = tc_URL t, hb_APIKey = pm_getenv en (tc_APIKeyEnv t), hb_SpoolPath = tc_JSONLPath t,
         hb_OffsetPath = tc_OffsetPath t, hb_BatchSize = tc_BatchSize t,
         hb_FlushInterval = parseDuration (pm_duration en) (tc_FlushInterval t) (10 * 1000000000)\<rparr>))"

definition start_heartbeat :: "program_env \<Rightarrow> TelemetryConfig \<Rightarrow> HeartbeatConfig option" where
  "start_heartbeat en t =
     (if tc_URL t = [] then None
      else Some (NewHeartbeatEmitter
        \<lparr>hc_ProURL = heartbeat_url (tc_URL t), hc_APIKey = pm_getenv en (tc_APIKeyEnv t), hc_AgentID = tc_AgentID t,
         hc_TenantID = tc_TenantID t, hc_CorrelationID = tc_CorrelationID t,
         hc_Interval = parseDuration (pm_duration en) (tc_HeartbeatInterval t) (30 * 1000000000),
         hc_Version = pm_version en\<rparr>))"

definition start_telemetry :: "program_env \<Rightarrow> TelemetryConfig \<Rightarrow> string + telemetry_parts option" where
  "start_telemetry en t =
     (if \<not> tc_Enabled t then Inr None
      else
        (let chain = LoadChainState (pm_chain_file en (tc_ChainStatePath t)) (tc_ChainStatePath t) in
         case NewJSONLExporter (pm_mkdir en (tc_JSONLPath t)) (pm_open_spool en (tc_JSONLPath t))
                (pm_spool_content en (tc_JSONLPath t)) of
           Inl e \<Rightarrow> Inl (''Failed to create JSONL exporter: '' @ e)
         | Inr spool \<Rightarrow>
             (case load_signing_key (pm_keys en) (tc_KeyPath t) (tc_KeyID t) of
                Inl e \<Rightarrow> Inl e
              | Inr key \<Rightarrow> Inr (Some
                  \<lparr>tl_collector = NewCollector (pm_agent en) (pm_session en) (collector_config en t key) chain
                                    (pm_chain_file en (tc_ChainStatePath t)),
                   tl_spool = spool, tl_uploader = start_uploader en t, tl_heartbeat = start_heartbeat en t\<rparr>))))"

section \<open>The program\<close>

definition start_mcp :: "Config \<Rightarrow> bool \<Rightarrow> Proxy option" where
  "start_mcp cfg collects =
     (if mc_Enabled (cf_MCP cfg)
      then Some (NewProxy
        (NewHandler
          (NewPolicyEngine (toMCPServerPolicy (mc_DefaultPolicy (cf_MCP cfg)))
             (toMCPServerPolicies (mc_Servers (cf_MCP cfg))) (Some (cf_RiskPolicy cfg)))
          True collects)
        (toMCPUpstreams (mc_Upstreams (cf_MCP cfg))))
      else None)"

definition start_relay :: "Config \<Rightarrow> Client option" where
  "start_relay cfg =
     (if rlc_Enabled (cf_Relay cfg) then Some (New_Client (rlc_Enabled (cf_Relay cfg))) else None)"

record program =
  pg_config :: Config
  pg_queue :: Queue
  pg_webhooks :: "WebhookConfig list"
  pg_telemetry :: "telemetry_parts option"
  pg_limiter :: RateLimiter
  pg_reverse :: ReverseProxy
  pg_mcp :: "Proxy option"
  pg_relay :: "Client option"
  pg_forward :: ForwardProxy
  pg_gateway :: "(Gateway \<times> credential_source) option"

definition start_program :: "program_env \<Rightarrow> Config \<Rightarrow> string + program" where
  "start_program en cfg =
     (if \<not> auth_settings_ok (cf_Auth cfg) then Inl ''No authentication configured and allow_insecure is not set.''
      else
        (case start_queue (pm_mkdir en) (pm_open_store en) cfg of
           Inl e \<Rightarrow> Inl e
         | Inr q \<Rightarrow>
             (case start_telemetry en (cf_Telemetry cfg) of
                Inl e \<Rightarrow> Inl e
              | Inr t \<Rightarrow> Inr
                  \<lparr>pg_config = cfg, pg_queue = q, pg_webhooks = loadWebhooks (cf_Webhooks cfg), pg_telemetry = t,
                   pg_limiter = start_limiter, pg_reverse = NewReverseProxy cfg, pg_mcp = start_mcp cfg (t \<noteq> None),
                   pg_relay = start_relay cfg, pg_forward = NewForwardProxy cfg (start_matcher cfg) (t \<noteq> None),
                   pg_gateway = map_option (\<lambda>g. (g, choose_broker (pm_getenv en) (cf_Broker cfg)))
                                  (start_gateway cfg (t \<noteq> None))\<rparr>)))"

datatype outcome = VersionShown string | ConfigFailed config_error | StartFailed string | Running program

definition program_main ::
  "(string \<Rightarrow> string + string) \<Rightarrow> (string \<Rightarrow> string + Config) \<Rightarrow> (string \<Rightarrow> string + rx) \<Rightarrow> program_env \<Rightarrow>
   bool \<Rightarrow> string \<Rightarrow> outcome" where
  "program_main read_file yaml compile en showVersion path =
     (if showVersion then VersionShown (''Parachute '' @ pm_version en @ nl)
      else
        (case Load read_file yaml compile path of
           Inl e \<Rightarrow> ConfigFailed e
         | Inr cfg \<Rightarrow> (case start_program en cfg of Inl e \<Rightarrow> StartFailed e | Inr pg \<Rightarrow> Running pg)))"

section \<open>Facts\<close>

lemma program_mainE:
  assumes "program_main read_file yaml compile en showVersion path = Running pg"
  obtains cfg where "Load read_file yaml compile path = Inr cfg" "start_program en cfg = Inr pg" "pg_config pg = cfg"
  using assms by (auto simp: program_main_def start_program_def split: if_splits sum.splits)

lemma start_program_parts:
  assumes "start_program en cfg = Inr pg"
  shows "pg_reverse pg = NewReverseProxy cfg" "pg_mcp pg = start_mcp cfg (pg_telemetry pg \<noteq> None)"
    "pg_forward pg = NewForwardProxy cfg (start_matcher cfg) (pg_telemetry pg \<noteq> None)"
    "start_telemetry en (cf_Telemetry cfg) = Inr (pg_telemetry pg)"
    "start_queue (pm_mkdir en) (pm_open_store en) cfg = Inr (pg_queue pg)"
  using assms by (auto simp: start_program_def split: if_splits sum.splits)

text \<open>Patterns decide by their texts; \<open>Load\<close> keeps the texts.\<close>

lemma Load_blocks:
  assumes "Load read_file yaml compile path = Inr cfg"
  shows "ShouldBlock (cf_RiskPolicy cfg) cmd \<longleftrightarrow> text_matches compile (rp_BlockCommands (cf_RiskPolicy cfg)) cmd"
proof -
  from assms obtain raw rp eg where c: "RiskPolicy_Compile compile (cf_RiskPolicy (set_defaults raw)) = Inr rp"
    "cfg = (set_defaults raw)\<lparr>cf_RiskPolicy := rp, cf_Egress := eg\<rparr>" by (rule Load_InrE)
  from c(1) obtain bs rs where rp: "compile_all compile InvalidBlockPattern (rp_BlockCommands (cf_RiskPolicy (set_defaults raw))) = Inr bs"
    "rp = (cf_RiskPolicy (set_defaults raw))\<lparr>rp_blockRegexes := bs, rp_approvalRegexes := rs\<rparr>"
    by (rule RiskPolicy_Compile_InrE)
  show ?thesis by (simp add: c(2) rp(2) ShouldBlock_iff text_matches_def compile_all_matches [OF rp(1)])
qed

text \<open>A command that all three ways of looking for it find.\<close>

definition plain_command :: "gomap \<Rightarrow> string \<Rightarrow> bool" where
  "plain_command args cmd \<longleftrightarrow> cmd \<noteq> [] \<and> first_string mcpCmdArgNames args = Some cmd"

lemma plain_command_found:
  assumes "plain_command args cmd"
  shows "extractCommandFromArgs args = cmd" "first_string cmdArgNames args = Some cmd"
    "first_nonempty commandFields args = Some cmd"
proof -
  have c: "cmdArgNames = mcpCmdArgNames @ [''CommandLine'']"
    "commandFields = mcpCmdArgNames @ [''CommandLine'', ''shell_command'', ''bash_command'', ''execute'', ''run'', ''shell'']"
    by (simp_all add: cmdArgNames_def mcpCmdArgNames_def commandFields_def)
  have app: "find_first f (xs @ ys) = (case find_first f xs of Some y \<Rightarrow> Some y | None \<Rightarrow> find_first f ys)"
    for f :: "string \<Rightarrow> string option" and xs ys
    by (induction xs) (auto split: option.splits)
  have one: "first_nonempty ns args = Some cmd" if "first_string ns args = Some cmd" "cmd \<noteq> []" for ns
    using that by (induction ns) (auto simp: first_nonempty_def first_string_def split: option.splits)
  show "extractCommandFromArgs args = cmd" using assms by (simp add: plain_command_def extractCommandFromArgs_def)
  show "first_string cmdArgNames args = Some cmd"
    using assms by (simp add: c plain_command_def first_string_def app)
  show "first_nonempty commandFields args = Some cmd"
    using assms one [of mcpCmdArgNames] by (simp add: c plain_command_def first_nonempty_def app)
qed

lemma shell_tool_is_command_tool:
  assumes "ToLower (ni_ToolName n) \<in> set execToolNames"
  shows "IsCommandTool n"
  using assms by (auto simp: IsCommandTool_def execToolNames_def commandTools_def Let_def)

lemma Check_blocks:
  assumes "extractCommand tc = cmd" "cmd \<noteq> []" "\<not> IsBase64Encoded cmd" "ShouldBlock policy cmd"
  shows "rs_Action (snd (Check policy tc)) = ActionBlock"
  using assms by (simp add: Check_action_eq Let_def)

lemma invocation_blocked:
  assumes "\<not> pe_upgrade en r" "is_invoke r" "rv_toolInterception p" "NormalizeToolInvoke (pe_decode en) (rq_Body r) = Inr n"
    and "ToLower (ni_ToolName n) \<in> set execToolNames" "plain_command (ni_Args n) cmd" "\<not> IsBase64Encoded cmd"
    and "ShouldBlock (rv_policy p) cmd"
  shows "snd (Proxy_Handler en p r s) = s"
proof -
  note found = plain_command_found [OF assms(6)]
  have cmd: "cmd \<noteq> []" using assms(6) by (simp add: plain_command_def)
  have "extractCommand (ToToolCall n) = cmd"
    using assms(5) found(2) by (simp add: extractCommand_def ToToolCall_def)
  then have block: "rs_Action (snd (Check (rv_policy p) (ToToolCall n))) = ActionBlock"
    using cmd assms(7,8) by (rule Check_blocks)
  have "ni_Command n = cmd" using assms(4) found(3) by (auto elim: NormalizeToolInvoke_InrE)
  then have "snd (handleOpenClawToolInvoke en p r s) = s"
    using assms(4) cmd block shell_tool_is_command_tool [OF assms(5)]
    by (simp add: handleOpenClawToolInvoke_def Let_def)
  then show ?thesis using assms(1-3) unfolding Proxy_Handler_def Let_def invoke_path by simp
qed

lemma tool_call_blocked:
  assumes "pe_cmdInterceptor pe = Some policy" "ToLower (tp_Name tc) \<in> set execToolNames"
    and "plain_command (tp_Arguments tc) cmd" "\<not> IsBase64Encoded cmd" "ShouldBlock policy cmd"
  shows "pr_Action (CheckToolCall pe tc server) = ActionBlock"
proof -
  note found = plain_command_found [OF assms(3)]
  have cmd: "cmd \<noteq> []" using assms(3) by (simp add: plain_command_def)
  have "rs_Action (snd (Check policy \<lparr>tc_Name = tp_Name tc, tc_Args = tp_Arguments tc, tc_Command = []\<rparr>)) = ActionBlock"
    using assms(2,4,5) cmd found(2) by (intro Check_blocks) (simp_all add: extractCommand_def)
  then have "\<exists>r. command_result pe tc = Some r \<and> pr_Action r = ActionBlock"
    using assms(1,2) cmd found(1) by (simp add: command_result_def isCommandTool_def Let_def)
  then show ?thesis by (auto simp: CheckToolCall_def Let_def)
qed

section \<open>Properties\<close>


definition guarded_config :: Config where
  "guarded_config = letter_config\<lparr>
     cf_Auth := (cf_Auth letter_config)\<lparr>au_Username := ''me''\<rparr>, cf_ToolInterception := True,
     cf_MCP := (cf_MCP letter_config)\<lparr>mc_Enabled := True\<rparr>\<rparr>"

definition idle_env :: program_env where
  "idle_env =
     \<lparr>pm_getenv = (\<lambda>_. []), pm_version = ''dev'', pm_mkdir = (\<lambda>_. None), pm_open_store = (\<lambda>_. Inl ''none''),
      pm_chain_file = (\<lambda>_. Missing), pm_open_spool = (\<lambda>_. None), pm_spool_content = (\<lambda>_. []),
      pm_keys = \<lparr>kf_read = (\<lambda>_. Inl ''none''), kf_pem = (\<lambda>_. None), kf_from_seed = (\<lambda>s. s), kf_public = (\<lambda>s. s)\<rparr>,
      pm_duration = (\<lambda>_. None), pm_agent = ''agent'', pm_session = ''session''\<rparr>"

lemma guarded_program:
  "\<exists>pg mp. program_main (\<lambda>_. Inr ''data'') (\<lambda>_. Inr guarded_config) letter_compile idle_env False ''config.yaml'' = Running pg \<and>
     cf_ToolInterception (pg_config pg) \<and> rp_BlockCommands (cf_RiskPolicy (pg_config pg)) = [''rm''] \<and> pg_mcp pg = Some mp"
proof -
  have "\<exists>cfg. Load (\<lambda>_. Inr ''data'') (\<lambda>_. Inr guarded_config) letter_compile ''config.yaml'' = Inr cfg \<and>
      au_Username (cf_Auth cfg) = ''me'' \<and> sc_Type (cf_Storage cfg) = ''memory'' \<and> \<not> tc_Enabled (cf_Telemetry cfg) \<and>
      cf_ToolInterception cfg \<and> rp_BlockCommands (cf_RiskPolicy cfg) = [''rm''] \<and> mc_Enabled (cf_MCP cfg)"
    by (simp add: Load_def guarded_config_def letter_config_def blank_config_def set_defaults_def default_to_def
      RiskPolicy_Compile_def Egress_Compile_def letter_compile_def Let_def)
  then show ?thesis
    by (auto simp: program_main_def start_program_def auth_settings_ok_def authConfigured_def start_queue_def
      start_telemetry_def start_mcp_def)
qed

definition rm_data :: gomap where
  "rm_data = [(''tool'', JStr ''Bash''), (''input'', JObj [(''command'', JStr ''rm'')])]"


text \<open>What the outside has to provide for the configuration.\<close>

definition storage_usable :: "program_env \<Rightarrow> StorageConfig \<Rightarrow> bool" where
  "storage_usable en st \<longleftrightarrow>
     (sc_Type st = ''sqlite'' \<longrightarrow> pm_mkdir en (sc_Path st) = None \<and> (\<exists>s. pm_open_store en (sc_Path st) = Inr s))"

definition key_usable :: "key_functions \<Rightarrow> string \<Rightarrow> bool" where
  "key_usable kf path \<longleftrightarrow>
     (path \<noteq> [] \<longrightarrow> (\<exists>raw. kf_read kf path = Inr raw \<and>
        length (case kf_pem kf raw of Some b \<Rightarrow> b | None \<Rightarrow> raw) \<in> {32, 64}))"

definition telemetry_usable :: "program_env \<Rightarrow> TelemetryConfig \<Rightarrow> bool" where
  "telemetry_usable en t \<longleftrightarrow>
     (tc_Enabled t \<longrightarrow> pm_mkdir en (tc_JSONLPath t) = None \<and> pm_open_spool en (tc_JSONLPath t) = None \<and>
        key_usable (pm_keys en) (tc_KeyPath t))"

lemma start_queue_iff: "(\<exists>q. start_queue (pm_mkdir en) (pm_open_store en) cfg = Inr q) \<longleftrightarrow> storage_usable en (cf_Storage cfg)"
  by (auto simp: start_queue_def storage_usable_def split: option.splits sum.splits)

lemma load_signing_key_iff: "(\<exists>k. load_signing_key kf path keyID = Inr k) \<longleftrightarrow> key_usable kf path"
  by (auto simp: load_signing_key_def key_usable_def Let_def split: sum.splits)

lemma start_telemetry_iff: "(\<exists>t'. start_telemetry en t = Inr t') \<longleftrightarrow> telemetry_usable en t"
  using load_signing_key_iff [of "pm_keys en" "tc_KeyPath t" "tc_KeyID t"]
  by (auto simp: start_telemetry_def telemetry_usable_def NewJSONLExporter_def Let_def split: option.splits sum.splits)

text \<open>What runs is what the configuration asks for, and the parts share what they have to share.\<close>

definition signs :: "'k Collector \<Rightarrow> bool" where
  "signs c \<longleftrightarrow> cc_SigningKey (co_cfg c) \<noteq> None"

definition telemetry_as_configured :: "TelemetryConfig \<Rightarrow> telemetry_parts option \<Rightarrow> bool" where
  "telemetry_as_configured t parts \<longleftrightarrow>
     (case parts of
        None \<Rightarrow> \<not> tc_Enabled t
      | Some te \<Rightarrow> tc_Enabled t \<and> (signs (tl_collector te) \<longleftrightarrow> tc_KeyPath t \<noteq> []) \<and>
          map_option hb_SpoolPath (tl_uploader te) = (if tc_URL t = [] then None else Some (tc_JSONLPath t)) \<and>
          map_option hc_ProURL (tl_heartbeat te) = (if tc_URL t = [] then None else Some (heartbeat_url (tc_URL t))))"

definition as_configured :: "program \<Rightarrow> bool" where
  "as_configured pg \<longleftrightarrow>
     (let cfg = pg_config pg in
      (q_store (pg_queue pg) \<noteq> None \<longleftrightarrow> sc_Type (cf_Storage cfg) = ''sqlite'') \<and>
      (pg_mcp pg \<noteq> None \<longleftrightarrow> mc_Enabled (cf_MCP cfg)) \<and> (pg_relay pg \<noteq> None \<longleftrightarrow> rlc_Enabled (cf_Relay cfg)) \<and>
      (pg_gateway pg \<noteq> None \<longleftrightarrow> bc_Enabled (cf_Broker cfg)) \<and>
      map_option (gw_matcher \<circ> fst) (pg_gateway pg) = fp_matcher (pg_forward pg) \<and>
      telemetry_as_configured (cf_Telemetry cfg) (pg_telemetry pg))"

lemma load_signing_key_none: "load_signing_key kf path keyID = Inr k \<Longrightarrow> k = None \<longleftrightarrow> path = []"
  by (auto simp: load_signing_key_def Let_def split: sum.splits if_splits)

lemma start_telemetry_as_configured:
  "start_telemetry en t = Inr parts \<Longrightarrow> telemetry_as_configured t parts"
  by (auto simp: start_telemetry_def telemetry_as_configured_def signs_def NewCollector_def collector_config_def
      start_uploader_def start_heartbeat_def NewHTTPBatchExporter_def NewHeartbeatEmitter_def Let_def
      dest: load_signing_key_none split: if_splits sum.splits option.splits)

lemma start_program_iff:
  "(\<exists>pg. start_program en cfg = Inr pg) \<longleftrightarrow> auth_settings_ok (cf_Auth cfg) \<and>
     storage_usable en (cf_Storage cfg) \<and> telemetry_usable en (cf_Telemetry cfg)"
  unfolding start_queue_iff [symmetric] start_telemetry_iff [symmetric]
  by (auto simp: start_program_def split: sum.splits)

lemma Running_iff:
  "program_main read_file yaml compile en False path = Running pg \<longleftrightarrow>
     (\<exists>cfg. Load read_file yaml compile path = Inr cfg \<and> start_program en cfg = Inr pg)"
  by (auto simp: program_main_def split: sum.split)

lemma start_program_as_configured:
  assumes "start_program en cfg = Inr pg"
  shows "as_configured pg"
proof -
  from assms have "telemetry_as_configured (cf_Telemetry cfg) (pg_telemetry pg)"
    by (auto simp: start_program_def dest: start_telemetry_as_configured split: if_splits sum.splits)
  moreover from assms have "q_store (pg_queue pg) \<noteq> None \<longleftrightarrow> sc_Type (cf_Storage cfg) = ''sqlite''"
    by (auto simp: start_program_def start_queue_def NewPersistentQueue_def NewQueue_def
        split: if_splits sum.splits option.splits)
  ultimately show ?thesis
    using assms
    by (auto simp: start_program_def as_configured_def start_mcp_def start_relay_def start_gateway_def NewGateway_def start_matcher_def
        NewForwardProxy_def Let_def split: if_splits sum.splits)
qed


end
