(* ===== verification/Pipeline.thy ===== *)
theory Pipeline
  imports Telemetry Exporters
begin

text \<open>
  The way of a record from the collector to the control plane (internal/telemetry and its exporters):
  the calls that record it, the export loop that batches it, the spool it is written to and the upload
  from the spool, as one composition of the definitions of the theories \<open>Telemetry\<close> and \<open>Exporters\<close>.
\<close>

text \<open>What the control plane has accepted after one upload of a fresh spool that held these batches.\<close>

definition spooled_and_uploaded ::
  "('r \<Rightarrow> string option) \<Rightarrow> 'r upload_env \<Rightarrow> HTTPBatchConfig \<Rightarrow> JSONLExporter \<Rightarrow> 'r list list \<Rightarrow> 'r list" where
  "spooled_and_uploaded marshal en cfg w batches =
     concat (up_accepted (uploadPending en cfg
       (Some (je_file (fold (\<lambda>rs w. snd (JSONL_Export marshal None rs w)) batches w)))
       \<lparr>up_offset = None, up_sent = 0, up_accepted = []\<rparr>))"

text \<open>A run of the export loop that ends with the shutdown.\<close>

definition whole_run :: "export_event list \<Rightarrow> bool" where
  "whole_run es \<longleftrightarrow> (\<exists>es' rest. es = es' @ [ExDone rest] \<and> (\<forall>e \<in> set es'. \<forall>rest. e \<noteq> ExDone rest))"

lemma exportLoop_stopped:
  "ex_running s \<Longrightarrow> \<forall>e \<in> set es. \<forall>rest. e \<noteq> ExDone rest \<Longrightarrow> \<not> ex_running (exportLoop (es @ [ExDone rest]) s)"
proof (induction es arbitrary: s)
  case (Cons e es)
  then have "ex_running (exportLoop_step e s)" by (cases e) (auto simp: flush_batch_def Let_def)
  with Cons show ?case by simp
qed (simp add: Let_def)

lemma whole_run_flushed:
  assumes "whole_run es"
  shows "concat (ex_flushed (exportLoop es export_start)) = received es"
proof -
  obtain es' rest where es: "es = es' @ [ExDone rest]" "\<forall>e \<in> set es'. \<forall>rest. e \<noteq> ExDone rest"
    using assms by (auto simp: whole_run_def)
  then have "\<not> ex_running (exportLoop es export_start)"
    using exportLoop_stopped [of export_start es' rest] by (simp add: export_start_def)
  moreover have "let s = exportLoop es export_start in concat (ex_flushed s) @ ex_batch s = received es \<and> export_inv s"
    using es by (intro export_exactly_once) simp
  ultimately show ?thesis by (auto simp: Let_def export_inv_def)
qed


definition two_calls :: "(fresh \<times> string \<times> TelemetryEvent) list" where
  "two_calls = [(sample_fresh, [], sample_event), (sample_fresh, ''p'', sample_event)]"

definition piped :: "SDR list" where
  "piped = co_queue (record_all hash_tag some_dec toy_sign two_calls sample_collector)"

definition pipe_encode :: "SDR \<Rightarrow> string" where
  "pipe_encode r = (if r = hd piped then ''a'' else ''b'')"

definition pipe_env :: "SDR upload_env" where
  "pipe_env =
     \<lparr>ue_decode = (\<lambda>s. if s = ''a'' then Some (hd piped) else Some (last piped)), ue_encode = (\<lambda>_. Inr ''batch''),
      ue_http = ue_http (flaky False), ue_write = Some\<rparr>"

lemma sample_collector_room:
  "co_queue sample_collector = []" "int (length two_calls) \<le> cc_QueueSize (co_cfg sample_collector)"
  "cs_PrevHash (co_chainState sample_collector) \<noteq> []"
  by (simp_all add: sample_collector_def NewCollector_def LoadChainState_def genesis_state_def GenesisHash_def
      two_calls_def Let_def)

lemma toy_functions: "\<forall>t. some_dec t \<noteq> None" "\<forall>x. hash_tag x \<noteq> []"
  by (simp_all add: some_dec_def hash_tag_def)

lemma plain_letters:
  "newline \<notin> set ''a''" "newline \<notin> set ''b''" "drop_cr ''a'' = ''a''" "drop_cr ''b'' = ''b''"
  by code_simp+

lemma piped_two: "\<exists>r1 r2. piped = [r1, r2]"
proof -
  obtain rs where "piped = rs" "length rs = length two_calls"
    using record_all_linked [OF toy_functions, of sample_collector two_calls toy_sign] sample_collector_room
    by (auto simp: piped_def)
  then show ?thesis by (auto simp: two_calls_def length_Suc_conv numeral_2_eq_2)
qed


end
