(* ===== verification/Restart.thy ===== *)
theory Restart
  imports Program Pipeline
begin

text \<open>
  The telemetry of the program over several runs (internal/telemetry/collector.go, chain_state.go and
  the start of telemetry in cmd/parachute/main.go): a run begins with the chain state and the spool
  that the run before it left in their files, and ends with the shutdown or with the death of the
  process. \<open>Program\<close> gives the start, \<open>Telemetry\<close> the calls and the export loop, \<open>Exporters\<close> the spool.
\<close>

section \<open>One run\<close>

text \<open>
  What happens while the program runs: a call records an event, the export loop takes a record from
  the queue, or its ticker fires. The loop's events carry what the file system answers to a flush.
\<close>

datatype sidecar_event =
    Call fresh string TelemetryEvent
  | Take "(nat \<times> string) option"
  | Tick "(nat \<times> string) option"

record sidecar =
  sd_collector :: "string Collector"
  sd_export :: export_state
  sd_spool :: JSONLExporter

definition sidecar_start :: "telemetry_parts \<Rightarrow> sidecar" where
  "sidecar_start parts = \<lparr>sd_collector = tl_collector parts, sd_export = export_start, sd_spool = tl_spool parts\<rparr>"

text \<open>\<open>flush\<close> hands a batch to the exporter and ignores its error.\<close>

definition collector_flush ::
  "(SDR \<Rightarrow> string option) \<Rightarrow> (nat \<times> string) option \<Rightarrow> SDR list \<Rightarrow> JSONLExporter \<Rightarrow> JSONLExporter" where
  "collector_flush marshal io batch w = snd (JSONL_Export marshal io batch w)"

text \<open>A round of the export loop, with the batches it flushes going to the spool.\<close>

definition export_with ::
  "(SDR \<Rightarrow> string option) \<Rightarrow> (nat \<times> string) option \<Rightarrow> export_event \<Rightarrow> sidecar \<Rightarrow> sidecar" where
  "export_with marshal io e sc =
     (let ex = exportLoop_step e (sd_export sc) in
      sc\<lparr>sd_export := ex,
         sd_spool := fold (collector_flush marshal io) (drop (length (ex_flushed (sd_export sc))) (ex_flushed ex))
                       (sd_spool sc)\<rparr>)"

primrec sidecar_step ::
  "(string \<Rightarrow> string) \<Rightarrow> (int \<Rightarrow> string option) \<Rightarrow> (string \<Rightarrow> string \<Rightarrow> string) \<Rightarrow> (SDR \<Rightarrow> string option) \<Rightarrow>
   sidecar_event \<Rightarrow> sidecar \<Rightarrow> sidecar" where
  "sidecar_step hexsha fmt_time ed_sign marshal (Call fr parent ev) sc =
     sc\<lparr>sd_collector := RecordWithParent hexsha fmt_time ed_sign fr parent ev (sd_collector sc)\<rparr>"
| "sidecar_step hexsha fmt_time ed_sign marshal (Take io) sc =
     (case co_queue (sd_collector sc) of
        [] \<Rightarrow> sc
      | r # q \<Rightarrow> export_with marshal io (ExRecord r) (sc\<lparr>sd_collector := (sd_collector sc)\<lparr>co_queue := q\<rparr>\<rparr>))"
| "sidecar_step hexsha fmt_time ed_sign marshal (Tick io) sc = export_with marshal io ExTick sc"

text \<open>
  The end of the loop, which closes the queue and drains it, and \<open>Close\<close> of the collector: the chain
  state is written (\<open>sync\<close> says whether that succeeds) and the exporter closed.
\<close>

definition loop_end :: "(SDR \<Rightarrow> string option) \<Rightarrow> (nat \<times> string) option \<Rightarrow> sidecar \<Rightarrow> sidecar" where
  "loop_end marshal io sc =
     export_with marshal io (ExDone (co_queue (sd_collector sc)))
       (sc\<lparr>sd_collector := (sd_collector sc)\<lparr>co_queue := []\<rparr>\<rparr>)"

definition Collector_Close :: "bool \<Rightarrow> (nat \<times> string) option \<Rightarrow> string option \<Rightarrow> sidecar \<Rightarrow> sidecar" where
  "Collector_Close sync io close_error sc =
     (let c = sd_collector sc; (ok, cs, file) = ChainState_Sync sync (co_chainState c) (co_file c) in
      sc\<lparr>sd_collector := c\<lparr>co_chainState := cs, co_file := file\<rparr>,
         sd_spool := snd (JSONL_Close io close_error (sd_spool sc))\<rparr>)"

text \<open>
  A call that comes after the loop's end: the chain state advances as in any call, and the send on
  the closed queue panics.
\<close>

definition Record_closed ::
  "(string \<Rightarrow> string) \<Rightarrow> (int \<Rightarrow> string option) \<Rightarrow> (string \<Rightarrow> string \<Rightarrow> string) \<Rightarrow> fresh \<Rightarrow> string \<Rightarrow>
   TelemetryEvent \<Rightarrow> sidecar \<Rightarrow> sidecar" where
  "Record_closed hexsha fmt_time ed_sign fr parent ev sc =
     (let c = sd_collector sc;
          r = make_record hexsha fmt_time ed_sign fr parent ev (GetChainInfo (co_chainState c)) c
      in sc\<lparr>sd_collector := advance_with fr r c\<rparr>)"

section \<open>Several runs\<close>

record telemetry_files =
  fl_chain :: file_content
  fl_spool :: string

text \<open>
  How a run ends: with the shutdown, during which calls may still come between the end of the loop
  and \<open>Close\<close> (and panic in their goroutines), or killed.
\<close>

datatype ending = Stopped "(fresh \<times> string \<times> TelemetryEvent) list" bool | Killed

record run =
  rn_env :: program_env
  rn_events :: "sidecar_event list"
  rn_end :: ending

definition with_files :: "telemetry_files \<Rightarrow> program_env \<Rightarrow> program_env" where
  "with_files f en = en\<lparr>pm_chain_file := \<lambda>_. fl_chain f, pm_spool_content := \<lambda>_. fl_spool f\<rparr>"

definition sidecar_end ::
  "(string \<Rightarrow> string) \<Rightarrow> (int \<Rightarrow> string option) \<Rightarrow> (string \<Rightarrow> string \<Rightarrow> string) \<Rightarrow> (SDR \<Rightarrow> string option) \<Rightarrow>
   ending \<Rightarrow> sidecar \<Rightarrow> sidecar" where
  "sidecar_end hexsha fmt_time ed_sign marshal e sc =
     (case e of
        Killed \<Rightarrow> sc
      | Stopped late sync \<Rightarrow>
          Collector_Close sync None None
            (fold (\<lambda>(fr, parent, ev). Record_closed hexsha fmt_time ed_sign fr parent ev) late (loop_end marshal None sc)))"

text \<open>The state of a run after some events, none when telemetry does not start.\<close>

definition run_state ::
  "(string \<Rightarrow> string) \<Rightarrow> (int \<Rightarrow> string option) \<Rightarrow> (string \<Rightarrow> string \<Rightarrow> string) \<Rightarrow> (SDR \<Rightarrow> string option) \<Rightarrow>
   TelemetryConfig \<Rightarrow> program_env \<Rightarrow> sidecar_event list \<Rightarrow> telemetry_files \<Rightarrow> sidecar option" where
  "run_state hexsha fmt_time ed_sign marshal t en es f =
     (case start_telemetry (with_files f en) t of
        Inr (Some parts) \<Rightarrow> Some (fold (sidecar_step hexsha fmt_time ed_sign marshal) es (sidecar_start parts))
      | _ \<Rightarrow> None)"

definition run_once ::
  "(string \<Rightarrow> string) \<Rightarrow> (int \<Rightarrow> string option) \<Rightarrow> (string \<Rightarrow> string \<Rightarrow> string) \<Rightarrow> (SDR \<Rightarrow> string option) \<Rightarrow>
   TelemetryConfig \<Rightarrow> run \<Rightarrow> telemetry_files \<Rightarrow> telemetry_files" where
  "run_once hexsha fmt_time ed_sign marshal t rn f =
     (case run_state hexsha fmt_time ed_sign marshal t (rn_env rn) (rn_events rn) f of
        Some sc0 \<Rightarrow>
          (let sc = sidecar_end hexsha fmt_time ed_sign marshal (rn_end rn) sc0
           in \<lparr>fl_chain = co_file (sd_collector sc), fl_spool = je_file (sd_spool sc)\<rparr>)
      | None \<Rightarrow> f)"

definition run_all ::
  "(string \<Rightarrow> string) \<Rightarrow> (int \<Rightarrow> string option) \<Rightarrow> (string \<Rightarrow> string \<Rightarrow> string) \<Rightarrow> (SDR \<Rightarrow> string option) \<Rightarrow>
   TelemetryConfig \<Rightarrow> run list \<Rightarrow> telemetry_files \<Rightarrow> telemetry_files" where
  "run_all hexsha fmt_time ed_sign marshal t = fold (run_once hexsha fmt_time ed_sign marshal t)"

section \<open>What a run keeps\<close>

text \<open>All that was recorded in a run, on whatever part of its way it is.\<close>

definition recorded :: "sidecar \<Rightarrow> SDR list" where
  "recorded sc = concat (ex_flushed (sd_export sc)) @ ex_batch (sd_export sc) @ co_queue (sd_collector sc)"

definition chained :: "string \<Rightarrow> sidecar \<Rightarrow> bool" where
  "chained g sc \<longleftrightarrow> linked_from sdr_prev sdr_hash g (recorded sc) \<and>
     cs_PrevHash (co_chainState (sd_collector sc)) = head_of sdr_hash g (recorded sc)"

text \<open>The spool holds what was there before and what was flushed.\<close>

definition spooled :: "(SDR \<Rightarrow> string) \<Rightarrow> SDR list \<Rightarrow> sidecar \<Rightarrow> bool" where
  "spooled enc rs0 sc \<longleftrightarrow> je_file (sd_spool sc) = spool_text enc (rs0 @ concat (ex_flushed (sd_export sc))) \<and>
     je_error (sd_spool sc) = None \<and> je_buffered (sd_spool sc) = []"

text \<open>The state file is behind the chain by as many records as were not synced.\<close>

definition file_head :: "file_content \<Rightarrow> string" where
  "file_head content = cs_PrevHash (LoadChainState content [])"

definition saved :: "string \<Rightarrow> sidecar \<Rightarrow> bool" where
  "saved g sc \<longleftrightarrow> cs_path (co_chainState (sd_collector sc)) \<noteq> [] \<and>
     cs_dirtyCount (co_chainState (sd_collector sc)) = length (recorded sc) mod 10 \<and>
     file_head (co_file (sd_collector sc)) =
       head_of sdr_hash g (take (10 * (length (recorded sc) div 10)) (recorded sc))"

text \<open>
  A run without trouble: starting with \<open>n\<close> records in the queue, no call finds it full and no flush fails.
\<close>

fun smooth :: "nat \<Rightarrow> sidecar_event list \<Rightarrow> bool" where
  "smooth n [] = True"
| "smooth n (Call fr parent ev # es) = (n < 10000 \<and> smooth (n + 1) es)"
| "smooth n (Take io # es) = (io = None \<and> smooth (n - 1) es)"
| "smooth n (Tick io # es) = (io = None \<and> smooth n es)"

fun calls_of :: "sidecar_event list \<Rightarrow> nat" where
  "calls_of [] = 0"
| "calls_of (Call fr parent ev # es) = Suc (calls_of es)"
| "calls_of (e # es) = calls_of es"

definition syncs :: "sidecar_event list \<Rightarrow> bool" where
  "syncs es \<longleftrightarrow> list_all (\<lambda>e. case e of Call fr parent ev \<Rightarrow> fr_sync fr | _ \<Rightarrow> True) es"

lemma exportLoop_step_flushed:
  "\<exists>new. ex_flushed (exportLoop_step e s) = ex_flushed s @ new \<and>
     concat new @ ex_batch (exportLoop_step e s) = ex_batch s @ received [e]"
  by (cases e) (auto simp: flush_batch_def received_def Let_def)

lemma fold_collector_flush:
  assumes "\<forall>r. marshal r = Some (enc r)"
  shows "je_error w = None \<Longrightarrow> je_buffered w = [] \<Longrightarrow>
    fold (collector_flush marshal None) bs w = w\<lparr>je_file := je_file w @ spool_text enc (concat bs)\<rparr>"
proof (induction bs arbitrary: w)
  case (Cons b bs)
  then have "collector_flush marshal None b w = w\<lparr>je_file := je_file w @ spool_text enc b\<rparr>"
    using assms by (simp add: collector_flush_def JSONL_Export_ok [of b marshal enc w])
  with Cons show ?case by simp
qed simp

lemma export_with_spooled:
  assumes "\<forall>r. marshal r = Some (enc r)" "spooled enc rs0 sc"
  shows "spooled enc rs0 (export_with marshal None e sc)"
    and "concat (ex_flushed (sd_export (export_with marshal None e sc))) @ ex_batch (sd_export (export_with marshal None e sc)) =
      concat (ex_flushed (sd_export sc)) @ ex_batch (sd_export sc) @ received [e]"
    and "sd_collector (export_with marshal None e sc) = sd_collector sc"
proof -
  obtain new where new: "ex_flushed (exportLoop_step e (sd_export sc)) = ex_flushed (sd_export sc) @ new"
    "concat new @ ex_batch (exportLoop_step e (sd_export sc)) = ex_batch (sd_export sc) @ received [e]"
    using exportLoop_step_flushed by blast
  then show "spooled enc rs0 (export_with marshal None e sc)"
    using assms by (simp add: export_with_def spooled_def fold_collector_flush [OF assms(1)] Let_def)
  from new show "concat (ex_flushed (sd_export (export_with marshal None e sc))) @ ex_batch (sd_export (export_with marshal None e sc)) =
      concat (ex_flushed (sd_export sc)) @ ex_batch (sd_export sc) @ received [e]"
    by (simp add: export_with_def Let_def)
qed (simp add: export_with_def Let_def)

definition ready :: "string \<Rightarrow> (SDR \<Rightarrow> string) \<Rightarrow> SDR list \<Rightarrow> sidecar \<Rightarrow> bool" where
  "ready g enc rs0 sc \<longleftrightarrow> chained g sc \<and> spooled enc rs0 sc \<and> cc_QueueSize (co_cfg (sd_collector sc)) = 10000 \<and>
     cs_path (co_chainState (sd_collector sc)) \<noteq> []"

lemma path_Advance [simp]: "cs_path (fst (Advance ok now h cs file)) = cs_path cs"
  by (simp add: Advance_def syncLocked_def Let_def)

lemma path_advance_with [simp]: "cs_path (co_chainState (advance_with fr r c)) = cs_path (co_chainState c)"
  by (auto simp: advance_with_def split: prod.splits) (metis path_Advance fst_conv)

lemma RecordWithParent_path [simp]:
  "cs_path (co_chainState (RecordWithParent hexsha fmt_time ed_sign fr parent ev c)) = cs_path (co_chainState c)"
  by (simp add: RecordWithParent_def Let_def)

text \<open>One step of a run without trouble.\<close>

lemma export_with_ready:
  assumes "\<forall>r. marshal r = Some (enc r)" "ready g enc rs0 sc"
    and "recorded sc = concat (ex_flushed (sd_export sc)) @ ex_batch (sd_export sc) @ received [e] @ q"
  shows "ready g enc rs0 (export_with marshal None e (sc\<lparr>sd_collector := (sd_collector sc)\<lparr>co_queue := q\<rparr>\<rparr>)) \<and>
    recorded (export_with marshal None e (sc\<lparr>sd_collector := (sd_collector sc)\<lparr>co_queue := q\<rparr>\<rparr>)) = recorded sc"
proof -
  let ?sc = "sc\<lparr>sd_collector := (sd_collector sc)\<lparr>co_queue := q\<rparr>\<rparr>"
  have "spooled enc rs0 ?sc" using assms(2) by (simp add: ready_def spooled_def)
  note e = export_with_spooled [OF assms(1) this, of e]
  have "recorded (export_with marshal None e ?sc) = recorded sc"
    using e(2,3) assms(3) by (simp add: recorded_def)
  with e assms(2) show ?thesis by (simp add: ready_def chained_def)
qed

lemma sidecar_step_ready:
  fixes ed_sign :: "string \<Rightarrow> string \<Rightarrow> string"
  assumes "\<forall>t. fmt_time t \<noteq> None" "\<forall>x. hexsha x \<noteq> []" "\<forall>r. marshal r = Some (enc r)"
    and "ready g enc rs0 sc" "smooth (length (co_queue (sd_collector sc))) (e # es)"
  defines "sc' \<equiv> sidecar_step hexsha fmt_time ed_sign marshal e sc"
  shows "ready g enc rs0 sc' \<and> smooth (length (co_queue (sd_collector sc'))) es \<and>
    length (recorded sc') = length (recorded sc) + calls_of [e]"
proof (cases e)
  case (Call fr parent ev)
  have "int (length (co_queue (sd_collector sc))) < cc_QueueSize (co_cfg (sd_collector sc))"
    using assms(4,5) Call by (simp add: ready_def)
  from record_one [OF assms(1,2) this, of ed_sign fr parent ev] obtain r where
    r: "co_queue (sd_collector sc') = co_queue (sd_collector sc) @ [r]"
      "sdr_prev r = cs_PrevHash (co_chainState (sd_collector sc))"
      "cs_PrevHash (co_chainState (sd_collector sc')) = sdr_hash r"
      "co_cfg (sd_collector sc') = co_cfg (sd_collector sc)"
    by (auto simp: sc'_def Call)
  have rec: "recorded sc' = recorded sc @ [r]" using r(1) by (simp add: recorded_def sc'_def Call)
  have "spooled enc rs0 sc'" using assms(4) by (simp add: ready_def spooled_def sc'_def Call)
  with r rec assms(4,5) show ?thesis
    by (simp add: ready_def chained_def linked_from_append Call sc'_def)
next
  case (Take io)
  show ?thesis
  proof (cases "co_queue (sd_collector sc)")
    case Nil
    with assms(4,5) Take show ?thesis by (simp add: sc'_def)
  next
    case (Cons r q)
    then have "recorded sc = concat (ex_flushed (sd_export sc)) @ ex_batch (sd_export sc) @ received [ExRecord r] @ q"
      by (simp add: recorded_def received_def)
    note export_with_ready [OF assms(3,4) this]
    with assms(5) Take Cons show ?thesis
      by (simp add: sc'_def export_with_def Let_def)
  qed
next
  case (Tick io)
  have "recorded sc = concat (ex_flushed (sd_export sc)) @ ex_batch (sd_export sc) @ received [ExTick] @ co_queue (sd_collector sc)"
    by (simp add: recorded_def received_def)
  note export_with_ready [OF assms(3,4) this]
  with assms(5) Tick show ?thesis by (simp add: sc'_def export_with_def Let_def)
qed

lemma sidecar_run_ready:
  assumes "\<forall>t. fmt_time t \<noteq> None" "\<forall>x. hexsha x \<noteq> []" "\<forall>r. marshal r = Some (enc r)"
  shows "ready g enc rs0 sc \<Longrightarrow> smooth (length (co_queue (sd_collector sc))) es \<Longrightarrow>
    ready g enc rs0 (fold (sidecar_step hexsha fmt_time ed_sign marshal) es sc) \<and>
    length (recorded (fold (sidecar_step hexsha fmt_time ed_sign marshal) es sc)) = length (recorded sc) + calls_of es"
proof (induction es arbitrary: sc)
  case (Cons e es)
  have "calls_of (e # es) = calls_of [e] + calls_of es" by (cases e) simp_all
  with sidecar_step_ready [OF assms Cons.prems] Cons.IH show ?case by auto
qed simp

text \<open>The state file, when every sync succeeds.\<close>

lemma Advance_saved:
  assumes "cs_path cs \<noteq> []" "cs_dirtyCount cs = n mod 10"
  shows "cs_dirtyCount (fst (Advance True now h cs file)) = Suc n mod 10"
    and "file_head (snd (Advance True now h cs file)) = (if Suc n mod 10 = 0 then h else file_head file)"
proof -
  have "n mod 10 < 10" by simp
  then have "Suc (n mod 10) < 10 \<and> Suc n mod 10 = Suc (n mod 10) \<or> n mod 10 = 9 \<and> Suc n mod 10 = 0"
    by (auto simp: mod_Suc)
  with assms show "cs_dirtyCount (fst (Advance True now h cs file)) = Suc n mod 10"
    "file_head (snd (Advance True now h cs file)) = (if Suc n mod 10 = 0 then h else file_head file)"
    by (auto simp: Advance_def syncLocked_def fsyncInterval_def file_head_def LoadChainState_def snapshot_of_def Let_def)
qed

lemma advance_with_saved:
  assumes "sdr_hash r \<noteq> []" "fr_sync fr" "cs_path (co_chainState c) \<noteq> []" "cs_dirtyCount (co_chainState c) = n mod 10"
  shows "cs_dirtyCount (co_chainState (advance_with fr r c)) = Suc n mod 10"
    and "file_head (co_file (advance_with fr r c)) = (if Suc n mod 10 = 0 then sdr_hash r else file_head (co_file c))"
  using assms(1,2) Advance_saved [OF assms(3,4), of "fr_now fr" "sdr_hash r" "co_file c"]
  by (auto simp: advance_with_def sdr_hash_def split: prod.splits)

lemma enqueue_file [simp]: "co_file (enqueue r c) = co_file c"
  by (simp add: enqueue_def)

lemma take_snoc_tens:
  "take (10 * (Suc (length xs) div 10)) (xs @ [x]) =
     (if Suc (length xs) mod 10 = 0 then xs @ [x] else take (10 * (length xs div 10)) xs)"
proof (cases "Suc (length xs) mod 10 = 0")
  case True
  then have "10 * (Suc (length xs) div 10) = Suc (length xs)" using mult_div_mod_eq [of 10 "Suc (length xs)"] by linarith
  with True show ?thesis by simp
next
  case False
  then have "Suc (length xs) div 10 = length xs div 10" by (simp add: div_Suc)
  moreover have "10 * (length xs div 10) \<le> length xs" by simp
  ultimately show ?thesis using False by simp
qed

lemma saved_same:
  "saved g sc \<Longrightarrow> recorded sc' = recorded sc \<Longrightarrow> co_chainState (sd_collector sc') = co_chainState (sd_collector sc) \<Longrightarrow>
     co_file (sd_collector sc') = co_file (sd_collector sc) \<Longrightarrow> saved g sc'"
  by (simp add: saved_def)

lemma sidecar_step_saved:
  fixes ed_sign :: "string \<Rightarrow> string \<Rightarrow> string"
  assumes "\<forall>t. fmt_time t \<noteq> None" "\<forall>x. hexsha x \<noteq> []" "\<forall>r. marshal r = Some (enc r)"
    and "ready g enc rs0 sc" "smooth (length (co_queue (sd_collector sc))) (e # es)" "saved g sc" "syncs (e # es)"
  defines "sc' \<equiv> sidecar_step hexsha fmt_time ed_sign marshal e sc"
  shows "saved g sc'"
proof (cases e)
  case (Call fr parent ev)
  let ?c = "sd_collector sc" and ?n = "length (recorded sc)"
  define r where "r = make_record hexsha fmt_time ed_sign fr parent ev (GetChainInfo (co_chainState ?c)) ?c"
  have hash: "sdr_hash r \<noteq> []" using sdr_hash_make_record [OF assms(1,2)] by (simp add: r_def)
  have room: "int (length (co_queue ?c)) < cc_QueueSize (co_cfg ?c)" using assms(4,5) Call by (simp add: ready_def)
  have sc': "sc' = sc\<lparr>sd_collector := enqueue r (advance_with fr r ?c)\<rparr>"
    by (simp add: sc'_def Call RecordWithParent_def r_def Let_def)
  then have rec: "recorded sc' = recorded sc @ [r]" using room by (simp add: recorded_def enqueue_def)
  have dirty: "cs_path (co_chainState ?c) \<noteq> []" "cs_dirtyCount (co_chainState ?c) = ?n mod 10"
    using assms(6) by (simp_all add: saved_def)
  have "fr_sync fr" using assms(7) Call by (simp add: syncs_def)
  note adv = advance_with_saved [OF hash this dirty]
  from assms(6) have "file_head (co_file ?c) = head_of sdr_hash g (take (10 * (?n div 10)) (recorded sc))"
    by (simp add: saved_def)
  with adv dirty(1) show ?thesis
    unfolding saved_def rec by (simp add: sc' take_snoc_tens del: take_append)
next
  case (Take io)
  show ?thesis
  proof (cases "co_queue (sd_collector sc)")
    case Nil
    with assms(6) Take show ?thesis by (simp add: sc'_def)
  next
    case (Cons r q)
    then have "recorded sc = concat (ex_flushed (sd_export sc)) @ ex_batch (sd_export sc) @ received [ExRecord r] @ q"
      by (simp add: recorded_def received_def)
    note export_with_ready [OF assms(3,4) this]
    with assms(5,6) Take Cons show ?thesis
      by (intro saved_same [OF assms(6)]) (simp_all add: sc'_def, simp_all add: export_with_def Let_def)
  qed
next
  case (Tick io)
  have "recorded sc = concat (ex_flushed (sd_export sc)) @ ex_batch (sd_export sc) @ received [ExTick] @ co_queue (sd_collector sc)"
    by (simp add: recorded_def received_def)
  note export_with_ready [OF assms(3,4) this]
  with assms(5,6) Tick show ?thesis
    by (intro saved_same [OF assms(6)]) (simp_all add: sc'_def, simp_all add: export_with_def Let_def)
qed

lemma sidecar_run_saved:
  assumes "\<forall>t. fmt_time t \<noteq> None" "\<forall>x. hexsha x \<noteq> []" "\<forall>r. marshal r = Some (enc r)"
  shows "ready g enc rs0 sc \<Longrightarrow> smooth (length (co_queue (sd_collector sc))) es \<Longrightarrow> saved g sc \<Longrightarrow> syncs es \<Longrightarrow>
    saved g (fold (sidecar_step hexsha fmt_time ed_sign marshal) es sc)"
proof (induction es arbitrary: sc)
  case (Cons e es)
  have "syncs es" using Cons.prems(4) by (simp add: syncs_def)
  with sidecar_step_ready [OF assms Cons.prems(1,2)] sidecar_step_saved [OF assms Cons.prems] Cons.IH
  show ?case by auto
qed simp

section \<open>Start and end\<close>

text \<open>Whether telemetry starts does not depend on what the two files hold.\<close>

definition starts :: "program_env \<Rightarrow> TelemetryConfig \<Rightarrow> bool" where
  "starts en t \<longleftrightarrow> (case start_telemetry en t of Inr (Some _) \<Rightarrow> True | _ \<Rightarrow> False)"

lemma start_state:
  assumes "starts en t"
  obtains sc where "run_state hexsha fmt_time ed_sign marshal t en es f =
      Some (fold (sidecar_step hexsha fmt_time ed_sign marshal) es sc)"
    "co_queue (sd_collector sc) = []" "sd_export sc = export_start" "co_file (sd_collector sc) = fl_chain f"
    "cs_dirtyCount (co_chainState (sd_collector sc)) = 0" "cc_QueueSize (co_cfg (sd_collector sc)) = 10000"
    "cs_path (co_chainState (sd_collector sc)) = tc_ChainStatePath t"
    "cs_PrevHash (co_chainState (sd_collector sc)) = file_head (fl_chain f)"
    "sd_spool sc = \<lparr>je_file = fl_spool f, je_buffered = [], je_error = None\<rparr>"
proof -
  obtain key where key: "tc_Enabled t" "pm_mkdir en (tc_JSONLPath t) = None" "pm_open_spool en (tc_JSONLPath t) = None"
    "load_signing_key (pm_keys en) (tc_KeyPath t) (tc_KeyID t) = Inr key"
    using assms by (auto simp: starts_def start_telemetry_def NewJSONLExporter_def Let_def
        split: if_splits option.splits sum.splits)
  let ?c = "collector_config en t key"
  obtain parts where p: "start_telemetry (with_files f en) t = Inr (Some parts)"
    "tl_spool parts = \<lparr>je_file = fl_spool f, je_buffered = [], je_error = None\<rparr>"
    "tl_collector parts = NewCollector (pm_agent en) (pm_session en) ?c
       (LoadChainState (fl_chain f) (tc_ChainStatePath t)) (fl_chain f)"
    using key by (simp add: start_telemetry_def with_files_def NewJSONLExporter_def collector_config_def Let_def)
  let ?cs = "LoadChainState (fl_chain f) (tc_ChainStatePath t)"
  have load: "cs_PrevHash ?cs = file_head (fl_chain f)" "cs_dirtyCount ?cs = 0" "cs_path ?cs = tc_ChainStatePath t"
    by (simp_all add: LoadChainState_def file_head_def genesis_state_def split: file_content.split)
  have size: "cc_QueueSize ?c = 0" by (simp add: collector_config_def)
  show thesis
    by (rule that [of "sidecar_start parts"])
      (use p size load in \<open>simp_all add: run_state_def sidecar_start_def NewCollector_def Let_def\<close>)
qed

lemma start_ready:
  assumes "starts en t" "tc_ChainStatePath t \<noteq> []" "fl_spool f = spool_text enc rs0"
  obtains sc where "run_state hexsha fmt_time ed_sign marshal t en es f =
      Some (fold (sidecar_step hexsha fmt_time ed_sign marshal) es sc)"
    "ready (file_head (fl_chain f)) enc rs0 sc" "saved (file_head (fl_chain f)) sc" "recorded sc = []"
    "co_queue (sd_collector sc) = []"
proof -
  obtain sc where sc: "run_state hexsha fmt_time ed_sign marshal t en es f =
      Some (fold (sidecar_step hexsha fmt_time ed_sign marshal) es sc)"
    "co_queue (sd_collector sc) = []" "sd_export sc = export_start" "co_file (sd_collector sc) = fl_chain f"
    "cs_dirtyCount (co_chainState (sd_collector sc)) = 0" "cc_QueueSize (co_cfg (sd_collector sc)) = 10000"
    "cs_path (co_chainState (sd_collector sc)) = tc_ChainStatePath t"
    "cs_PrevHash (co_chainState (sd_collector sc)) = file_head (fl_chain f)"
    "sd_spool sc = \<lparr>je_file = fl_spool f, je_buffered = [], je_error = None\<rparr>"
    using start_state [OF assms(1)] by metis
  have rec: "recorded sc = []" using sc(2,3) by (simp add: recorded_def export_start_def)
  show thesis
  proof (rule that [OF sc(1)])
    show "ready (file_head (fl_chain f)) enc rs0 sc"
      using sc(3,6-9) assms(2,3) rec by (simp add: ready_def chained_def spooled_def export_start_def)
    show "saved (file_head (fl_chain f)) sc" using sc(4,5,7) assms(2) rec by (simp add: saved_def)
  qed (fact rec sc(2))+
qed

lemma head_of_take_inj:
  assumes "distinct (g # map h xs)" "i \<le> length xs" "j \<le> length xs"
  shows "head_of h g (take i xs) = head_of h g (take j xs) \<longleftrightarrow> i = j"
proof -
  have "head_of h g (take k xs) = (g # map h xs) ! k" if "k \<le> length xs" for k
    using that by (cases k) (auto simp: head_of_def last_conv_nth take_Suc_conv_app_nth)
  with assms show ?thesis by (simp add: nth_eq_iff_index_eq)
qed

text \<open>The shutdown: all that was recorded goes to the spool, and \<open>Close\<close> writes the head of the chain.\<close>

lemma loop_end_ready:
  assumes "\<forall>r. marshal r = Some (enc r)" "ready g enc rs0 sc"
  shows "ready g enc rs0 (loop_end marshal None sc)"
    and "je_file (sd_spool (loop_end marshal None sc)) = spool_text enc (rs0 @ recorded sc)"
    and "co_chainState (sd_collector (loop_end marshal None sc)) = co_chainState (sd_collector sc)"
proof -
  let ?e = "loop_end marshal None sc"
  have "recorded sc = concat (ex_flushed (sd_export sc)) @ ex_batch (sd_export sc) @
      received [ExDone (co_queue (sd_collector sc))] @ []"
    by (simp add: recorded_def received_def)
  from export_with_ready [OF assms(1,2) this]
  have e: "ready g enc rs0 ?e" "recorded ?e = recorded sc" by (simp_all add: loop_end_def)
  have "ex_batch (sd_export ?e) = []" "co_queue (sd_collector ?e) = []"
    by (simp_all add: loop_end_def export_with_def flush_batch_def Let_def)
  with e show "ready g enc rs0 ?e" "je_file (sd_spool ?e) = spool_text enc (rs0 @ recorded sc)"
    by (simp_all add: ready_def spooled_def recorded_def)
  show "co_chainState (sd_collector ?e) = co_chainState (sd_collector sc)"
    by (simp add: loop_end_def export_with_def Let_def)
qed

lemma Collector_Close_files:
  assumes "cs_path (co_chainState (sd_collector sc)) \<noteq> []" "je_buffered (sd_spool sc) = []" "je_error (sd_spool sc) = None"
  shows "file_head (co_file (sd_collector (Collector_Close True None ce sc))) = cs_PrevHash (co_chainState (sd_collector sc))"
    and "je_file (sd_spool (Collector_Close True None ce sc)) = je_file (sd_spool sc)"
  using assms
  by (simp_all add: Collector_Close_def ChainState_Sync_def syncLocked_def file_head_def LoadChainState_def snapshot_of_def
      JSONL_Close_def bufio_flush_def Let_def)

lemma sidecar_end_ready:
  fixes ed_sign :: "string \<Rightarrow> string \<Rightarrow> string" and hexsha :: "string \<Rightarrow> string" and fmt_time :: "int \<Rightarrow> string option"
  assumes "\<forall>r. marshal r = Some (enc r)" "ready g enc rs0 sc"
  defines "sc' \<equiv> sidecar_end hexsha fmt_time ed_sign marshal (Stopped [] True) sc"
  shows "je_file (sd_spool sc') = spool_text enc (rs0 @ recorded sc)"
    and "file_head (co_file (sd_collector sc')) = head_of sdr_hash g (recorded sc)"
  using loop_end_ready [OF assms(1,2)] Collector_Close_files [of "loop_end marshal None sc" None] assms(2)
  by (auto simp: sc'_def sidecar_end_def ready_def spooled_def chained_def)

lemma sidecar_end_late:
  fixes ed_sign :: "string \<Rightarrow> string \<Rightarrow> string"
  assumes "\<forall>t. fmt_time t \<noteq> None" "\<forall>x. hexsha x \<noteq> []" "\<forall>r. marshal r = Some (enc r)" "ready g enc rs0 sc"
    and "r = make_record hexsha fmt_time ed_sign fr parent ev (GetChainInfo (co_chainState (sd_collector sc))) (sd_collector sc)"
  defines "sc' \<equiv> sidecar_end hexsha fmt_time ed_sign marshal (Stopped [(fr, parent, ev)] True) sc"
  shows "je_file (sd_spool sc') = spool_text enc (rs0 @ recorded sc)" "file_head (co_file (sd_collector sc')) = sdr_hash r"
proof -
  let ?e = "loop_end marshal None sc"
  let ?c = "sd_collector ?e"
  note e = loop_end_ready [OF assms(3,4)]
  have "make_record hexsha fmt_time ed_sign fr parent ev (GetChainInfo (co_chainState ?c)) ?c = r"
    by (simp add: assms(5) e(3)) (simp add: make_record_def loop_end_def export_with_def Let_def)
  then have late: "Record_closed hexsha fmt_time ed_sign fr parent ev ?e = ?e\<lparr>sd_collector := advance_with fr r ?c\<rparr>"
    by (simp add: Record_closed_def Let_def)
  have "sdr_hash r \<noteq> []" using sdr_hash_make_record [OF assms(1,2)] by (simp add: assms(5))
  then have "cs_PrevHash (co_chainState (advance_with fr r ?c)) = sdr_hash r" by (rule PrevHash_advance_with)
  then show "je_file (sd_spool sc') = spool_text enc (rs0 @ recorded sc)" "file_head (co_file (sd_collector sc')) = sdr_hash r"
    using e Collector_Close_files [of "?e\<lparr>sd_collector := advance_with fr r ?c\<rparr>" None]
    by (auto simp: sc'_def sidecar_end_def late ready_def spooled_def)
qed

text \<open>A run that is shut down extends the spool by a chain from the head in the state file, and leaves the new head there.\<close>

lemma run_once_stopped:
  assumes "\<forall>t. fmt_time t \<noteq> None" "\<forall>x. hexsha x \<noteq> []" "\<forall>r. marshal r = Some (enc r)"
    and "tc_ChainStatePath t \<noteq> []" "starts (rn_env rn) t" "smooth 0 (rn_events rn)" "rn_end rn = Stopped [] True"
    and "fl_spool f = spool_text enc rs0"
  obtains rs where "fl_spool (run_once hexsha fmt_time ed_sign marshal t rn f) = spool_text enc (rs0 @ rs)"
    "linked_from sdr_prev sdr_hash (file_head (fl_chain f)) rs" "length rs = calls_of (rn_events rn)"
    "file_head (fl_chain (run_once hexsha fmt_time ed_sign marshal t rn f)) = head_of sdr_hash (file_head (fl_chain f)) rs"
proof -
  obtain sc where sc: "run_state hexsha fmt_time ed_sign marshal t (rn_env rn) (rn_events rn) f =
      Some (fold (sidecar_step hexsha fmt_time ed_sign marshal) (rn_events rn) sc)"
    "ready (file_head (fl_chain f)) enc rs0 sc" "recorded sc = []" "co_queue (sd_collector sc) = []"
    using start_ready [OF assms(5,4,8)] by metis
  let ?sc = "fold (sidecar_step hexsha fmt_time ed_sign marshal) (rn_events rn) sc"
  have run: "ready (file_head (fl_chain f)) enc rs0 ?sc" "length (recorded ?sc) = calls_of (rn_events rn)"
    using sidecar_run_ready [OF assms(1-3) sc(2), of "rn_events rn" ed_sign] sc(3,4) assms(6) by simp_all
  show thesis
    using sidecar_end_ready [OF assms(3) run(1), of hexsha fmt_time ed_sign] run sc(1) assms(7)
    by (intro that [of "recorded ?sc"]) (simp_all add: run_once_def ready_def chained_def Let_def)
qed

text \<open>The state of a run that began with no files.\<close>

lemma first_run_ready:
  fixes ed_sign :: "string \<Rightarrow> string \<Rightarrow> string"
  assumes "\<forall>t. fmt_time t \<noteq> None" "\<forall>x. hexsha x \<noteq> []" "\<forall>r. marshal r = Some (enc r)"
    and "tc_ChainStatePath t \<noteq> []" "starts en t" "smooth 0 es"
    and "run_state hexsha fmt_time ed_sign marshal t en es \<lparr>fl_chain = Missing, fl_spool = []\<rparr> = Some sc"
  shows "ready GenesisHash enc [] sc" "length (recorded sc) = calls_of es" "syncs es \<Longrightarrow> saved GenesisHash sc"
proof -
  let ?files = "\<lparr>fl_chain = Missing, fl_spool = []\<rparr>"
  have g: "file_head Missing = GenesisHash" by (simp add: file_head_def LoadChainState_def genesis_state_def)
  have empty: "fl_spool ?files = spool_text enc []" by simp
  obtain sc0 where sc0: "sc = fold (sidecar_step hexsha fmt_time ed_sign marshal) es sc0"
    "ready GenesisHash enc [] sc0" "saved GenesisHash sc0" "recorded sc0 = []" "co_queue (sd_collector sc0) = []"
    using start_ready [OF assms(5,4) empty, where hexsha = hexsha and fmt_time = fmt_time and ed_sign = ed_sign
        and marshal = marshal and es = es] assms(7) g by (metis option.inject telemetry_files.select_convs(1))
  have sm: "smooth (length (co_queue (sd_collector sc0))) es" using assms(6) sc0(5) by simp
  show "ready GenesisHash enc [] sc" "length (recorded sc) = calls_of es"
    using sidecar_run_ready [OF assms(1-3) sc0(2) sm, of ed_sign] sc0(1,4) by simp_all
  show "saved GenesisHash sc" if "syncs es"
    using sidecar_run_saved [OF assms(1-3) sc0(2) sm sc0(3) that, of ed_sign] sc0(1) by simp
qed

text \<open>What a kill leaves of a run that began with no files.\<close>

lemma run_once_killed:
  fixes ed_sign :: "string \<Rightarrow> string \<Rightarrow> string"
  assumes "\<forall>t. fmt_time t \<noteq> None" "\<forall>x. hexsha x \<noteq> []" "\<forall>r. marshal r = Some (enc r)"
    and "tc_ChainStatePath t \<noteq> []" "starts en t" "smooth 0 es" "syncs es"
    and "run_state hexsha fmt_time ed_sign marshal t en es \<lparr>fl_chain = Missing, fl_spool = []\<rparr> = Some sc"
  defines "f \<equiv> run_once hexsha fmt_time ed_sign marshal t \<lparr>rn_env = en, rn_events = es, rn_end = Killed\<rparr>
      \<lparr>fl_chain = Missing, fl_spool = []\<rparr>"
  shows "ready GenesisHash enc [] sc" "length (recorded sc) = calls_of es"
    and "file_head (fl_chain f) = head_of sdr_hash GenesisHash (take (10 * (calls_of es div 10)) (recorded sc))"
    and "fl_spool f = spool_text enc (concat (ex_flushed (sd_export sc)))"
proof -
  note sc = first_run_ready [OF assms(1-6,8)]
  then show "ready GenesisHash enc [] sc" "length (recorded sc) = calls_of es" by simp_all
  have f: "f = \<lparr>fl_chain = co_file (sd_collector sc), fl_spool = je_file (sd_spool sc)\<rparr>"
    using assms(8) by (simp add: f_def run_once_def sidecar_end_def Let_def)
  show "file_head (fl_chain f) = head_of sdr_hash GenesisHash (take (10 * (calls_of es div 10)) (recorded sc))"
    using sc(2) sc(3) [OF assms(7)] by (simp add: saved_def f)
  show "fl_spool f = spool_text enc (concat (ex_flushed (sd_export sc)))"
    using sc(1) by (simp add: ready_def spooled_def f)
qed

section \<open>Properties\<close>


definition restart_config :: TelemetryConfig where
  "restart_config = (cf_Telemetry blank_config)\<lparr>tc_Enabled := True, tc_ChainStatePath := ''/chain''\<rparr>"

definition one_event :: "sidecar_event list" where
  "one_event = [Call sample_fresh [] sample_event, Take None, Tick None]"

definition stopped_run :: run where
  "stopped_run = \<lparr>rn_env = idle_env, rn_events = one_event, rn_end = Stopped [] True\<rparr>"

definition line_of :: "SDR \<Rightarrow> string" where
  "line_of r = sdr_prev r @ sdr_hash r"

lemma restart_config_ok:
  "starts idle_env restart_config" "tc_ChainStatePath restart_config \<noteq> []" "smooth 0 one_event" "syncs one_event"
  "calls_of one_event = 1"
  by (simp_all add: restart_config_def blank_config_def starts_def start_telemetry_def idle_env_def NewJSONLExporter_def
      load_signing_key_def one_event_def syncs_def sample_fresh_def Let_def)


text \<open>
  C17. A kill keeps the chain only at a multiple of ten: when the process dies after some calls, of which a
  part reached the spool, and the next run records something and is shut down in order, the whole
  spool is a valid chain exactly when the number of spooled records was the number of calls rounded
  down to ten, the last at which the chain state was written; that is for hashes that differ.
\<close>

theorem killed_run_chain_iff:
  fixes ed_sign :: "string \<Rightarrow> string \<Rightarrow> string"
  assumes "\<forall>t. fmt_time t \<noteq> None" "\<forall>x. hexsha x \<noteq> []" "\<forall>r. marshal r = Some (enc r)"
    and "tc_ChainStatePath t \<noteq> []" "starts en t" "smooth 0 es" "syncs es"
    and "run_state hexsha fmt_time ed_sign marshal t en es \<lparr>fl_chain = Missing, fl_spool = []\<rparr> = Some sc"
    and "distinct (GenesisHash # map sdr_hash (recorded sc))"
    and "starts (rn_env rn) t" "smooth 0 (rn_events rn)" "rn_end rn = Stopped [] True" "0 < calls_of (rn_events rn)"
  shows "let flushed = concat (ex_flushed (sd_export sc)) in
      \<exists>rs. fl_spool (run_all hexsha fmt_time ed_sign marshal t
            [\<lparr>rn_env = en, rn_events = es, rn_end = Killed\<rparr>, rn] \<lparr>fl_chain = Missing, fl_spool = []\<rparr>) =
          spool_text enc (flushed @ rs) \<and> length rs = calls_of (rn_events rn) \<and>
        (ValidateChain (flushed @ rs) = None \<longleftrightarrow> length flushed = 10 * (calls_of es div 10))"
proof -
  let ?f = "run_once hexsha fmt_time ed_sign marshal t \<lparr>rn_env = en, rn_events = es, rn_end = Killed\<rparr>
      \<lparr>fl_chain = Missing, fl_spool = []\<rparr>"
  let ?flushed = "concat (ex_flushed (sd_export sc))" and ?saved = "10 * (calls_of es div 10)"
  note killed = run_once_killed [OF assms(1-8)]
  obtain rs where rs: "fl_spool (run_once hexsha fmt_time ed_sign marshal t rn ?f) = spool_text enc (?flushed @ rs)"
    "linked_from sdr_prev sdr_hash (file_head (fl_chain ?f)) rs" "length rs = calls_of (rn_events rn)"
    using run_once_stopped [OF assms(1-4,10-12) killed(4), of ed_sign] by metis
  have flushed: "?flushed = take (length ?flushed) (recorded sc)" "length ?flushed \<le> length (recorded sc)"
    by (simp_all add: recorded_def)
  have "linked_from sdr_prev sdr_hash GenesisHash ?flushed"
    using killed(1) by (simp add: ready_def chained_def recorded_def linked_from_append)
  moreover have "rs \<noteq> []" using rs(3) assms(13) by auto
  ultimately have "ValidateChain (?flushed @ rs) = None \<longleftrightarrow>
      head_of sdr_hash GenesisHash ?flushed = file_head (fl_chain ?f)"
    using rs(2) by (cases rs) (auto simp: ValidateChain_iff linked_from_append)
  also have "\<dots> \<longleftrightarrow> length ?flushed = ?saved"
    unfolding killed(3) using head_of_take_inj [OF assms(9) flushed(2), of ?saved] flushed(1) killed(2) by simp
  finally show ?thesis using rs(1,3) unfolding Let_def by (intro exI [of _ rs]) (simp add: run_all_def)
qed

lemma killed_state:
  obtains r sc where "run_state hash_tag some_dec toy_sign (\<lambda>r. Some (line_of r)) restart_config idle_env one_event
      \<lparr>fl_chain = Missing, fl_spool = []\<rparr> = Some sc"
    "concat (ex_flushed (sd_export sc)) = [r]" "recorded sc = [r]" "sdr_hash r \<noteq> GenesisHash"
proof -
  obtain sc0 where sc0: "run_state hash_tag some_dec toy_sign (\<lambda>r. Some (line_of r)) restart_config idle_env one_event
      \<lparr>fl_chain = Missing, fl_spool = []\<rparr> = Some (fold (sidecar_step hash_tag some_dec toy_sign (\<lambda>r. Some (line_of r))) one_event sc0)"
    "co_queue (sd_collector sc0) = []" "sd_export sc0 = export_start" "cc_QueueSize (co_cfg (sd_collector sc0)) = 10000"
    using start_state [OF restart_config_ok(1)] by metis
  let ?c = "sd_collector sc0"
  define r where "r = make_record hash_tag some_dec toy_sign sample_fresh [] sample_event (GetChainInfo (co_chainState ?c)) ?c"
  have "\<exists>x. sdr_hash r = hash_tag x"
    unfolding r_def by (rule sdr_hash_make_record_is) (simp add: some_dec_def)
  then have "sdr_hash r \<noteq> GenesisHash" using hash_tag_not_genesis by metis
  then show thesis
    using sc0(2-4)
    by (intro that [OF sc0(1), of r])
      (simp_all add: one_event_def RecordWithParent_def r_def [symmetric] enqueue_def export_with_def export_start_def
        flush_batch_def recorded_def Let_def)
qed

theorem killed_run_chain_iff_witness:
  "\<exists>r rs. fl_spool (run_all hash_tag some_dec toy_sign (\<lambda>r. Some (line_of r)) restart_config
      [\<lparr>rn_env = idle_env, rn_events = one_event, rn_end = Killed\<rparr>, stopped_run] \<lparr>fl_chain = Missing, fl_spool = []\<rparr>) =
      spool_text line_of ([r] @ rs) \<and> length rs = 1 \<and> ValidateChain ([r] @ rs) \<noteq> None"
proof -
  obtain r sc where sc: "run_state hash_tag some_dec toy_sign (\<lambda>r. Some (line_of r)) restart_config idle_env one_event
      \<lparr>fl_chain = Missing, fl_spool = []\<rparr> = Some sc"
    "concat (ex_flushed (sd_export sc)) = [r]" "recorded sc = [r]" "sdr_hash r \<noteq> GenesisHash"
    by (rule killed_state)
  have "distinct (GenesisHash # map sdr_hash (recorded sc))" using sc(3,4) by auto
  from killed_run_chain_iff [where enc = line_of and rn = stopped_run, OF toy_functions _ restart_config_ok(2,1,3,4) sc(1) this]
  show ?thesis using restart_config_ok sc(2) by (simp add: stopped_run_def Let_def) (metis option.distinct(1))
qed

text \<open>
  A call that comes during the shutdown breaks the chain: when the loop has drained the queue and a
  call still advances the chain state before \<open>Close\<close> writes it, the panic loses the record, and what
  the next run spools does not continue what is there, whatever the hash of the lost record, as
  long as it is another one than that of the last spooled.
\<close>

theorem late_call_breaks_chain:
  fixes ed_sign :: "string \<Rightarrow> string \<Rightarrow> string"
  assumes "\<forall>t. fmt_time t \<noteq> None" "\<forall>x. hexsha x \<noteq> []" "\<forall>r. marshal r = Some (enc r)"
    and "tc_ChainStatePath t \<noteq> []" "starts en t" "smooth 0 es"
    and "run_state hexsha fmt_time ed_sign marshal t en es \<lparr>fl_chain = Missing, fl_spool = []\<rparr> = Some sc"
    and "r = make_record hexsha fmt_time ed_sign fr parent ev (GetChainInfo (co_chainState (sd_collector sc))) (sd_collector sc)"
    and "sdr_hash r \<noteq> cs_PrevHash (co_chainState (sd_collector sc))"
    and "starts (rn_env rn) t" "smooth 0 (rn_events rn)" "rn_end rn = Stopped [] True" "0 < calls_of (rn_events rn)"
  shows "\<exists>rs. fl_spool (run_all hexsha fmt_time ed_sign marshal t
        [\<lparr>rn_env = en, rn_events = es, rn_end = Stopped [(fr, parent, ev)] True\<rparr>, rn] \<lparr>fl_chain = Missing, fl_spool = []\<rparr>) =
      spool_text enc (recorded sc @ rs) \<and> length rs = calls_of (rn_events rn) \<and> ValidateChain (recorded sc @ rs) \<noteq> None"
proof -
  let ?f = "run_once hexsha fmt_time ed_sign marshal t
      \<lparr>rn_env = en, rn_events = es, rn_end = Stopped [(fr, parent, ev)] True\<rparr> \<lparr>fl_chain = Missing, fl_spool = []\<rparr>"
  note sc = first_run_ready [OF assms(1-7)]
  note late = sidecar_end_late [OF assms(1-3) sc(1) assms(8)]
  have f: "fl_spool ?f = spool_text enc (recorded sc)" "file_head (fl_chain ?f) = sdr_hash r"
    using late assms(7) by (simp_all add: run_once_def Let_def)
  obtain rs where rs: "fl_spool (run_once hexsha fmt_time ed_sign marshal t rn ?f) = spool_text enc (recorded sc @ rs)"
    "linked_from sdr_prev sdr_hash (file_head (fl_chain ?f)) rs" "length rs = calls_of (rn_events rn)"
    using run_once_stopped [OF assms(1-4,10-12) f(1), of ed_sign] by metis
  then have "ValidateChain (recorded sc @ rs) \<noteq> None"
    using assms(9,13) sc(1) f(2)
    by (cases rs) (auto simp: ValidateChain_iff linked_from_append ready_def chained_def)
  with rs(1,3) show ?thesis by (intro exI [of _ rs]) (simp add: run_all_def)
qed

end
