(* ===== verification/Keygen.thy ===== *)
theory Keygen
  imports Program
begin

text \<open>
  The key generator (cmd/parachute-keygen/main.go), and what its files are for: the key that the
  program loads to sign its decision records, and the public key that verifies them.

  Parameters: generating a pair (or the error), the PEM encoding of a block of a type, and the error
  of a write to a path.
\<close>

record keygen_env =
  kg_generate :: "string + string \<times> string"   \<comment> \<open>public key, private key\<close>
  kg_pem :: "string \<Rightarrow> string \<Rightarrow> string"
  kg_write :: "string \<Rightarrow> string option"

record written_file =
  wf_path :: string
  wf_mode :: nat
  wf_content :: string

definition key_id :: "string \<Rightarrow> string" where
  "key_id pub = ''sidecar/'' @ hex_string (take 8 pub)"

definition keygen_output :: "string \<Rightarrow> string \<Rightarrow> string \<Rightarrow> string" where
  "keygen_output privPath pubPath keyID =
     ''Keypair generated:'' @ nl @
     ''  Private key: '' @ privPath @
       '' (keep secret, configure in parachute.yaml -> telemetry.signing.key_path)'' @ nl @
     ''  Public key:  '' @ pubPath @ '' (copy to Pro'' @ [CHR 0x27] @ ''s trusted_keys_dir)'' @ nl @
     ''  Key ID:      '' @ keyID @ nl"

text \<open>What is printed, or the error it ends with, and the files written so far, with their modes 0600 and 0644.\<close>

definition keygen_main :: "keygen_env \<Rightarrow> string \<Rightarrow> string \<Rightarrow> (string + string) \<times> written_file list" where
  "keygen_main en privPath pubPath =
     (case kg_generate en of
        Inl e \<Rightarrow> (Inl (''Failed to generate keypair: '' @ e), [])
      | Inr (pub, priv) \<Rightarrow>
          (case kg_write en privPath of
             Some e \<Rightarrow> (Inl (''Failed to write private key: '' @ e), [])
           | None \<Rightarrow>
               (let private = \<lparr>wf_path = privPath, wf_mode = 384, wf_content = kg_pem en ''ED25519 PRIVATE KEY'' priv\<rparr> in
                case kg_write en pubPath of
                  Some e \<Rightarrow> (Inl (''Failed to write public key: '' @ e), [private])
                | None \<Rightarrow>
                    (Inr (keygen_output privPath pubPath (key_id pub)),
                     [private, \<lparr>wf_path = pubPath, wf_mode = 420, wf_content = kg_pem en ''ED25519 PUBLIC KEY'' pub\<rparr>]))))"

text \<open>What a path holds after the writes: the last one counts.\<close>

definition holds :: "written_file list \<Rightarrow> string \<Rightarrow> string option" where
  "holds files path = map_option wf_content (find (\<lambda>f. wf_path f = path) (rev files))"

text \<open>
  What is relied on: sizes and the public part of an Ed25519 key, signatures that verify, PEM decoding
  as the inverse of encoding.
\<close>

definition lawful_keys ::
  "keygen_env \<Rightarrow> key_functions \<Rightarrow> (string \<Rightarrow> string \<Rightarrow> string) \<Rightarrow> (string \<Rightarrow> string \<Rightarrow> string \<Rightarrow> bool) \<Rightarrow> bool" where
  "lawful_keys en kf ed_sign ed_verify \<longleftrightarrow>
     (\<forall>pub priv. kg_generate en = Inr (pub, priv) \<longrightarrow>
        length priv = 64 \<and> kf_public kf priv = pub \<and> (\<forall>msg. ed_verify pub msg (ed_sign priv msg))) \<and>
     (\<forall>kind b. kf_pem kf (kg_pem en kind b) = Some b)"

lemma keygen_files:
  assumes "keygen_main en privPath pubPath = (Inr out, files)" "privPath \<noteq> pubPath"
  obtains pub priv where "kg_generate en = Inr (pub, priv)" "out = keygen_output privPath pubPath (key_id pub)"
    "holds files privPath = Some (kg_pem en ''ED25519 PRIVATE KEY'' priv)"
    "holds files pubPath = Some (kg_pem en ''ED25519 PUBLIC KEY'' pub)"
proof -
  obtain pub priv where g: "kg_generate en = Inr (pub, priv)"
    using assms(1) by (auto simp: keygen_main_def split: sum.splits)
  with assms show thesis
    by (intro that [OF g]) (auto simp: keygen_main_def holds_def Let_def split: option.splits)
qed

text \<open>The program gets the key it was generated for, under the printed identifier.\<close>

lemma load_generated_key:
  assumes "keygen_main en privPath pubPath = (Inr out, files)" "privPath \<noteq> pubPath" "privPath \<noteq> []"
    and "lawful_keys en kf ed_sign ed_verify" "\<forall>p c. holds files p = Some c \<longrightarrow> kf_read kf p = Inr c"
  obtains pub priv where "kg_generate en = Inr (pub, priv)" "out = keygen_output privPath pubPath (key_id pub)"
    "load_signing_key kf privPath [] = Inr (Some (priv, key_id pub))"
    "\<exists>text. kf_read kf pubPath = Inr text \<and> kf_pem kf text = Some pub"
proof -
  obtain pub priv where k: "kg_generate en = Inr (pub, priv)" "out = keygen_output privPath pubPath (key_id pub)"
    "holds files privPath = Some (kg_pem en ''ED25519 PRIVATE KEY'' priv)"
    "holds files pubPath = Some (kg_pem en ''ED25519 PUBLIC KEY'' pub)"
    using keygen_files [OF assms(1,2)] by metis
  moreover have "length priv = 64" "kf_public kf priv = pub" "\<And>kind b. kf_pem kf (kg_pem en kind b) = Some b"
    using assms(4) k(1) by (simp_all add: lawful_keys_def)
  ultimately show thesis
    using assms(3,5) by (intro that [OF k(1,2)]) (simp_all add: load_signing_key_def key_id_def Let_def)
qed

section \<open>Every record of a collector with a key\<close>

lemma signed_make_record:
  fixes ed_sign :: "'k \<Rightarrow> string \<Rightarrow> string"
  assumes "\<forall>t. fmt_time t \<noteq> None" "\<forall>msg. ed_verify pub msg (ed_sign key msg)" "cc_SigningKey (co_cfg c) = Some key"
  shows "Verify hexsha fmt_time ed_verify pub (make_record hexsha fmt_time ed_sign fr parent ev info c) = None \<and>
    sg_KeyID (sdr_Signing (make_record hexsha fmt_time ed_sign fr parent ev info c)) = cc_KeyID (co_cfg c)"
proof -
  let ?b = "build_record (co_cfg c) (co_sessionID c) fr info parent ev"
  obtain C where "\<And>r. CanonicalJSON fmt_time r = Inr (C r)" using CanonicalJSON_total [OF assms(1)] by blast
  then have "\<exists>r'. Sign hexsha fmt_time ed_sign (fr_now fr) key (cc_KeyID (co_cfg c)) ?b = Inr r' \<and>
      sg_KeyID (sdr_Signing r') = cc_KeyID (co_cfg c)" by (simp add: Sign_def)
  then obtain r' where s: "Sign hexsha fmt_time ed_sign (fr_now fr) key (cc_KeyID (co_cfg c)) ?b = Inr r'"
    "sg_KeyID (sdr_Signing r') = cc_KeyID (co_cfg c)" by blast
  have "make_record hexsha fmt_time ed_sign fr parent ev info c = r'"
    using s(1) assms(3) by (simp add: make_record_def seal_record_def)
  moreover have "Verify hexsha fmt_time ed_verify pub (r'\<lparr>sdr_Telemetry := sdr_Telemetry r', sdr_Enforcement := sdr_Enforcement r'\<rparr>) = None"
    using assms(1,2) by (intro Sign_verifies [OF _ s(1)]) simp_all
  ultimately show ?thesis using s(2) by simp
qed

lemma RecordWithParent_queue:
  "set (co_queue (RecordWithParent hexsha fmt_time ed_sign fr parent ev c)) \<subseteq>
     insert (make_record hexsha fmt_time ed_sign fr parent ev (GetChainInfo (co_chainState c)) c) (set (co_queue c))"
  "co_cfg (RecordWithParent hexsha fmt_time ed_sign fr parent ev c) = co_cfg c"
  by (auto simp: RecordWithParent_def enqueue_def Let_def)

lemma record_all_verify:
  fixes ed_sign :: "'k \<Rightarrow> string \<Rightarrow> string"
  assumes "\<forall>t. fmt_time t \<noteq> None" "\<forall>msg. ed_verify pub msg (ed_sign key msg)"
  shows "cc_SigningKey (co_cfg c) = Some key \<Longrightarrow> r \<in> set (co_queue (record_all hexsha fmt_time ed_sign calls c)) \<Longrightarrow>
    r \<in> set (co_queue c) \<or>
    Verify hexsha fmt_time ed_verify pub r = None \<and> sg_KeyID (sdr_Signing r) = cc_KeyID (co_cfg c)"
proof (induction calls arbitrary: c)
  case (Cons x calls)
  obtain fr parent ev where x: "x = (fr, parent, ev)" by (cases x)
  let ?c = "RecordWithParent hexsha fmt_time ed_sign fr parent ev c"
  have "r \<in> set (co_queue (record_all hexsha fmt_time ed_sign calls ?c))"
    using Cons.prems(2) by (simp add: record_all_def x)
  with Cons.IH [of ?c] Cons.prems(1) have "r \<in> set (co_queue ?c) \<or>
      Verify hexsha fmt_time ed_verify pub r = None \<and> sg_KeyID (sdr_Signing r) = cc_KeyID (co_cfg c)"
    by (simp add: RecordWithParent_queue)
  then show ?case
    using RecordWithParent_queue(1) [of hexsha fmt_time ed_sign fr parent ev c]
      signed_make_record [where ed_verify = ed_verify and ed_sign = ed_sign and pub = pub and key = key, OF assms Cons.prems(1)] by blast
qed (simp add: record_all_def)

section \<open>Properties\<close>


definition toy_keygen :: keygen_env where
  "toy_keygen =
     \<lparr>kg_generate = Inr (replicate 64 (CHR ''k''), replicate 64 (CHR ''k'')), kg_pem = (\<lambda>kind b. b), kg_write = (\<lambda>_. None)\<rparr>"

definition toy_keys :: key_functions where
  "toy_keys = \<lparr>kf_read = (\<lambda>_. Inr (replicate 64 (CHR ''k''))), kf_pem = Some, kf_from_seed = (\<lambda>s. s), kf_public = (\<lambda>s. s)\<rparr>"

definition signing_config :: TelemetryConfig where
  "signing_config = (cf_Telemetry blank_config)\<lparr>tc_Enabled := True, tc_KeyPath := ''/k''\<rparr>"


end
