(* ===== verification/App.thy ===== *)
theory App
  imports Program Sse
begin

text \<open>
  The main application of the program (cmd/parachute/main.go): what a request meets from the global
  middlewares through the route groups to the handlers, the callbacks that hand the events of the
  parts to the collector, and the order of the shutdown.

  Parameters, in the record \<open>web\<close>: what the web framework does (which route a request matches, the
  answers for no route, what its CORS middleware adds and answers by itself), and the parameters of
  the handlers. The framework's own handling of an error or a panic is left open: \<open>Failed\<close>, \<open>Recovered\<close>.
\<close>

section \<open>Telemetry callbacks\<close>

definition plain_event :: "string \<Rightarrow> string \<Rightarrow> string \<Rightarrow> string \<Rightarrow> string \<Rightarrow> TelemetryEvent" where
  "plain_event actionType target decision rulePath enforcementMode =
     \<lparr>tv_Timestamp = 0, tv_ActionType = actionType, tv_ActionTarget = target, tv_ActionParams = [],
      tv_Decision = decision, tv_RulePath = rulePath, tv_EnforcementMode = enforcementMode, tv_SpanID = [],
      tv_ParentSpanID = [], tv_Approval = None\<rparr>"

definition egressCallback :: "egress_event \<Rightarrow> TelemetryEvent" where
  "egressCallback e = plain_event (ee_actionType e) (ee_target e) (ee_decision e) (ee_rulePath e) (ee_mode e)"

definition mcpCallback :: "TelemetryHook \<Rightarrow> TelemetryEvent" where
  "mcpCallback h =
     (plain_event (th_ActionType h) (th_ActionTarget h) (th_Decision h) (th_RulePath h) (th_EnforcementMode h))
       \<lparr>tv_SpanID := th_SpanID h, tv_ParentSpanID := th_ParentSpanID h,
        tv_Approval := map_option (\<lambda>a.
          \<lparr>ad_ID = ah_ID a, ad_ApproverID = ah_ApproverID a, ad_ApproverType = ah_ApproverType a,
           ad_ApprovalSource = ah_Source a, ad_Justification = [], ad_DecisionTime = 0\<rparr>) (th_Approval h)\<rparr>"

definition brokerCallback :: "gateway_event \<Rightarrow> TelemetryEvent" where
  "brokerCallback e =
     (plain_event (ge_actionType e) (ge_target e) (ge_decision e) (ge_rulePath e) (ge_mode e))
       \<lparr>tv_ActionParams := map (\<lambda>(k, v). (k, JStr v)) (ge_params e)\<rparr>"

section \<open>State\<close>

datatype mcp_call = MCP_stream string | MCP_server string | MCP_default

text \<open>
  Where a request goes. A group whose middlewares run although none of its routes matches has no call.
\<close>

datatype route =
    Health_route | Version_route | Metrics_route
  | Dashboard_route bool
  | API_route "api_call option"
  | Proxy_route
  | MCP_route "mcp_call option"
  | No_route

record web =
  wb_getenv :: "string \<Rightarrow> string"
  wb_now :: int
  wb_time :: string
  wb_version :: string
  wb_fresh :: string
  wb_route :: "ProxyRequest \<Rightarrow> route"
  wb_cors :: "ProxyRequest \<Rightarrow> headers \<times> answer option"
  wb_missing :: "ProxyRequest \<Rightarrow> answer"
  wb_metrics :: answer
  wb_page :: "string option"
  wb_api :: api_env
  wb_proxy :: proxy_env
  wb_mcp :: env
  wb_any :: "ServerConfig option"

datatype app_reply =
    Answered Reverse_Proxy.reply
  | Messaged nat Mcp.body
  | Events "string \<times> nat \<times> SSEEvent list"
  | Failed string
  | Recovered
  | Waiting

text \<open>What requests change, and what they leave behind: audit events, events for the collector.\<close>

record app_state =
  as_limiter :: RateLimiter
  as_proxy :: proxy_state
  as_counters :: counters
  as_posted :: "(string \<times> string) list"
  as_streams :: SSEBroker
  as_audit :: "Event list"
  as_events :: "TelemetryEvent list"

definition app_start :: "program \<Rightarrow> app_state" where
  "app_start pg =
     \<lparr>as_limiter = pg_limiter pg, as_proxy = \<lparr>ps_queue = pg_queue pg, ps_notified = [], ps_sent = []\<rparr>,
      as_counters = \<lparr>MCPToolCallsTotal = 0, MCPToolCallsAllowed = 0, MCPToolCallsBlocked = 0,
        MCPToolCallsApproved = 0, MCPResourceReads = 0\<rparr>,
      as_posted = [], as_streams = NewSSEBroker 100, as_audit = [], as_events = []\<rparr>"

section \<open>Groups\<close>

text \<open>What the middlewares of a group log: the rate limiter, and the authentication after it.\<close>

definition guard_audit :: "Middleware.reply \<Rightarrow> Middleware.reply \<Rightarrow> Event list" where
  "guard_audit limited auth = ry_audit limited @ (if ry_verdict limited = CallNext then ry_audit auth else [])"

definition dashboard_group :: "web \<Rightarrow> AuthConfig \<Rightarrow> string \<Rightarrow> bool \<Rightarrow> ProxyRequest \<Rightarrow> RateLimiter \<Rightarrow> answer \<times> RateLimiter" where
  "dashboard_group wb cfg cid known r rl =
     (let (limited, rl') = RateLimiter_Handler (wb_now wb) cid (Request.truncate r) rl in
      case middleware_answer limited of
        Some a \<Rightarrow> (a, rl')
      | None \<Rightarrow>
          (case middleware_answer (Auth (wb_getenv wb) cfg cid (Request.truncate r)) of
             Some a \<Rightarrow> (a, rl')
           | None \<Rightarrow> (if known then dashboard_Handler (wb_page wb) else wb_missing wb r, rl')))"

definition go_reply :: "answer go \<Rightarrow> app_reply" where
  "go_reply g = (case g of Ret a \<Rightarrow> Answered (Answer a) | Blocks \<Rightarrow> Waiting | Panics k \<Rightarrow> Recovered)"

text \<open>The API group behind its middlewares; with no call the framework answers after them.\<close>

definition api_routes :: "web \<Rightarrow> AuthConfig \<Rightarrow> string \<Rightarrow> api_call option \<Rightarrow> ProxyRequest \<Rightarrow> RateLimiter \<times> Queue \<Rightarrow>
   app_reply \<times> RateLimiter \<times> Queue" where
  "api_routes wb cfg cid call r s =
     (let r' = Request.truncate r in
      case call of
        Some call \<Rightarrow>
          (let (g, s') = api_group (wb_getenv wb) cfg (wb_now wb) cid (wb_api wb) call r' s in (go_reply g, s'))
      | None \<Rightarrow>
          (let (limited, rl) = RateLimiter_Handler (wb_now wb) cid r' (fst s) in
           case middleware_answer limited of
             Some a \<Rightarrow> (Answered (Answer a), rl, snd s)
           | None \<Rightarrow>
               (case middleware_answer (Auth (wb_getenv wb) cfg cid r') of
                  Some a \<Rightarrow> (Answered (Answer a), rl, snd s)
                | None \<Rightarrow> (Answered (Answer (wb_missing wb r)), rl, snd s))))"

text \<open>A request to the MCP proxy in its own context, which begins with the state that requests share.\<close>

definition mcp_context :: "app_state \<Rightarrow> ctx" where
  "mcp_context s =
     \<lparr>cx_response = None, cx_audit = [], cx_hooks = [], cx_counters = as_counters s,
      cx_queue = ps_queue (as_proxy s), cx_notified = [], cx_upstream = []\<rparr>"

definition mcp_merge :: "ctx \<Rightarrow> app_state \<Rightarrow> app_state" where
  "mcp_merge c s =
     s\<lparr>as_counters := cx_counters c,
       as_proxy := (as_proxy s)\<lparr>ps_queue := cx_queue c, ps_notified := ps_notified (as_proxy s) @ cx_notified c\<rparr>,
       as_posted := as_posted s @ cx_upstream c, as_audit := as_audit s @ cx_audit c,
       as_events := as_events s @ map mcpCallback (cx_hooks c)\<rparr>"

definition mcp_reply :: "string option \<Rightarrow> ctx \<Rightarrow> app_reply" where
  "mcp_reply err c =
     (case err of
        Some e \<Rightarrow> Failed e
      | None \<Rightarrow> (case cx_response c of Some (status, b) \<Rightarrow> Messaged status b | None \<Rightarrow> Messaged 200 (Raw [])))"

definition mcp_handler :: "web \<Rightarrow> Proxy \<Rightarrow> mcp_call \<Rightarrow> Request \<Rightarrow> app_state \<Rightarrow> app_reply \<times> app_state" where
  "mcp_handler wb p call r s =
     (case call of
        MCP_stream query \<Rightarrow>
          (let (opened, b) = HandleSSE (rq_Headers r) query (as_streams s) in (Events opened, s\<lparr>as_streams := b\<rparr>))
      | MCP_server name \<Rightarrow>
          (let (err, c) = proxyToServer (wb_mcp wb) p name r (mcp_context s) in (mcp_reply err c, mcp_merge c s))
      | MCP_default \<Rightarrow>
          (let (err, c) = proxyToDefault (wb_any wb) (wb_mcp wb) p r (mcp_context s) in (mcp_reply err c, mcp_merge c s)))"

definition RegisterRoutes :: "web \<Rightarrow> AuthConfig \<Rightarrow> string \<Rightarrow> Proxy \<Rightarrow> mcp_call option \<Rightarrow> ProxyRequest \<Rightarrow> app_state \<Rightarrow>
   app_reply \<times> app_state" where
  "RegisterRoutes wb cfg cid p call r s =
     (case middleware_answer (Auth (wb_getenv wb) cfg cid (Request.truncate r)) of
        Some a \<Rightarrow> (Answered (Answer a), s)
      | None \<Rightarrow>
          (case call of
             Some call \<Rightarrow> mcp_handler wb p call (Request.truncate r) s
           | None \<Rightarrow> (Answered (Answer (wb_missing wb r)), s)))"

section \<open>The application\<close>

definition log_guard :: "Event list \<Rightarrow> app_state \<Rightarrow> app_state" where
  "log_guard evs s = s\<lparr>as_audit := as_audit s @ evs\<rparr>"

definition dispatch :: "web \<Rightarrow> program \<Rightarrow> string \<Rightarrow> ProxyRequest \<Rightarrow> app_state \<Rightarrow> app_reply \<times> app_state" where
  "dispatch wb pg cid r s =
     (let cfg = cf_Auth (pg_config pg);
          limited = fst (RateLimiter_Handler (wb_now wb) cid (Request.truncate r) (as_limiter s));
          auth = Auth (wb_getenv wb) cfg cid (Request.truncate r) in
      case wb_route wb r of
        Health_route \<Rightarrow> (Answered (Answer (HealthHandler (wb_time wb))), s)
      | Version_route \<Rightarrow> (Answered (Answer (VersionHandler (wb_version wb))), s)
      | Metrics_route \<Rightarrow> (Answered (Answer (wb_metrics wb)), s)
      | Dashboard_route known \<Rightarrow>
          (let (a, rl) = dashboard_group wb cfg cid known r (as_limiter s)
           in (Answered (Answer a), log_guard (guard_audit limited auth) (s\<lparr>as_limiter := rl\<rparr>)))
      | API_route call \<Rightarrow>
          (let (reply, rl, q) = api_routes wb cfg cid call r (as_limiter s, ps_queue (as_proxy s))
           in (reply, log_guard (guard_audit limited auth)
                        (s\<lparr>as_limiter := rl, as_proxy := (as_proxy s)\<lparr>ps_queue := q\<rparr>\<rparr>)))
      | Proxy_route \<Rightarrow>
          (let (reply, p) = proxy_group (wb_getenv wb) cfg cid (wb_proxy wb) (pg_reverse pg) r (as_proxy s)
           in (Answered reply, log_guard (ry_audit auth) (s\<lparr>as_proxy := p\<rparr>)))
      | MCP_route call \<Rightarrow>
          (case pg_mcp pg of
             Some p \<Rightarrow> RegisterRoutes wb cfg cid p call r (log_guard (ry_audit auth) s)
           | None \<Rightarrow> (Answered (Answer (wb_missing wb r)), s))
      | No_route \<Rightarrow> (Answered (Answer (wb_missing wb r)), s))"

text \<open>
  The whole way of a request: the forwarding headers are stripped, the security headers and the
  correlation identifier set on the response, then CORS, then the routes. The result begins with the
  response headers that are set before the handler runs.
\<close>

definition strip_request :: "ProxyRequest \<Rightarrow> ProxyRequest" where
  "strip_request r = r\<lparr>rq_Headers := rq_Headers (StripForwardedHeaders (Request.truncate r))\<rparr>"

definition set_headers :: "headers \<Rightarrow> headers \<Rightarrow> headers" where
  "set_headers new_ones hs = fold (\<lambda>(k, v). header_set k v) new_ones hs"

definition main_app :: "web \<Rightarrow> program \<Rightarrow> ProxyRequest \<Rightarrow> app_state \<Rightarrow> (headers \<times> app_reply) \<times> app_state" where
  "main_app wb pg r s =
     (let r1 = strip_request r;
          (cid, ry) = CorrelationID (wb_fresh wb) (Request.truncate r1);
          (ch, preflight) = wb_cors wb r1;
          hs = set_headers ch (set_headers (ry_headers ry) (SecureHeaders []))
      in case preflight of
           Some a \<Rightarrow> ((hs, Answered (Answer a)), s)
         | None \<Rightarrow> (let (reply, s') = dispatch wb pg cid r1 s in ((hs, reply), s')))"

section \<open>Shutdown\<close>

datatype shutdown_step = Close_forward | Close_store | Close_collector | Shutdown_broker | Shutdown_app

definition shutdown_steps :: "program \<Rightarrow> shutdown_step list" where
  "shutdown_steps pg =
     [Close_forward] @ (if sc_Type (cf_Storage (pg_config pg)) = ''sqlite'' then [Close_store] else []) @
     (if pg_telemetry pg \<noteq> None then [Close_collector] else []) @
     (if pg_gateway pg \<noteq> None then [Shutdown_broker] else []) @ [Shutdown_app]"

definition step_text :: "shutdown_step \<Rightarrow> string" where
  "step_text st =
     (case st of
        Close_forward \<Rightarrow> ''Forward proxy shutdown error: '' | Close_store \<Rightarrow> ''Storage shutdown error: ''
      | Close_collector \<Rightarrow> ''Telemetry shutdown error: '' | Shutdown_broker \<Rightarrow> ''Broker gateway shutdown error: ''
      | Shutdown_app \<Rightarrow> ''Shutdown error: '')"

text \<open>What is logged; no error keeps a later step from being taken.\<close>

definition shutdown_log :: "(shutdown_step \<Rightarrow> string option) \<Rightarrow> program \<Rightarrow> string list" where
  "shutdown_log result pg =
     ''Shutting down gracefully...'' #
     concat (map (\<lambda>st. case result st of Some e \<Rightarrow> [step_text st @ e] | None \<Rightarrow> []) (shutdown_steps pg)) @ [''Goodbye!'']"

text \<open>
  The listeners are shut down last: requests are still served when the forward proxy, the store and the
  collector have been closed.
\<close>

theorem listeners_closed_last:
  "\<exists>closed. shutdown_steps pg = closed @ (if pg_gateway pg \<noteq> None then [Shutdown_broker] else []) @ [Shutdown_app] \<and>
     Close_forward \<in> set closed \<and> (sc_Type (cf_Storage (pg_config pg)) = ''sqlite'' \<longleftrightarrow> Close_store \<in> set closed) \<and>
     (pg_telemetry pg \<noteq> None \<longleftrightarrow> Close_collector \<in> set closed)"
  by (rule exI [of _ "[Close_forward] @ (if sc_Type (cf_Storage (pg_config pg)) = ''sqlite'' then [Close_store] else []) @
     (if pg_telemetry pg \<noteq> None then [Close_collector] else [])"]) (simp add: shutdown_steps_def)

section \<open>Properties\<close>

lemma StripForwardedHeaders_drops:
  assumes "k \<in> set headersToStrip" "same_name k' k"
  shows "StripForwardedHeaders (r\<lparr>rq_Headers := hs1 @ (k', v) # hs2\<rparr>) = StripForwardedHeaders (r\<lparr>rq_Headers := hs1 @ hs2\<rparr>)"
proof -
  have "fold header_del ks (hs1 @ (k', v) # hs2) = fold header_del ks (hs1 @ hs2)" if "k \<in> set ks" for ks
    using that
  proof (induction ks arbitrary: hs1 hs2)
    case (Cons k0 ks)
    show ?case
    proof (cases "same_name k' k0")
      case False
      with Cons assms(2) have "k \<in> set ks" by auto
      with Cons.IH [of "header_del k0 hs1" "header_del k0 hs2"] False show ?thesis by (simp add: header_del_def)
    qed (simp add: header_del_def)
  qed simp
  from this [OF assms(1)] show ?thesis by (simp add: StripForwardedHeaders_def)
qed

text \<open>A framework for the examples.\<close>

definition plain_route :: "ProxyRequest \<Rightarrow> route" where
  "plain_route r =
     (let p = rq_Path r in
      if p = ''/health'' then Health_route
      else if p = ''/api/pending'' then API_route (Some ListPending_call)
      else if HasPrefix p ''/api/approve/'' then API_route (Some (Approve_call (drop 13 p)))
      else if HasPrefix p ''/proxy/'' then Proxy_route
      else No_route)"

definition plain_web :: "string \<Rightarrow> proxy_env \<Rightarrow> web" where
  "plain_web password pe =
     \<lparr>wb_getenv = (\<lambda>_. password), wb_now = 0, wb_time = ''now'', wb_version = ''dev'', wb_fresh = ''c'', wb_route = plain_route,
      wb_cors = (\<lambda>_. ([(''Access-Control-Allow-Origin'', ''*'')], None)), wb_missing = (\<lambda>_. error_answer 404 ''Not Found''),
      wb_metrics = json_answer 200 [], wb_page = None, wb_api = plain_api, wb_proxy = pe,
      wb_mcp = sample_env DecisionDenied, wb_any = None\<rparr>"

text \<open>
  Forwarding headers decide nothing: with a header that claims another client address, host or path
  among its headers, in whatever spelling, a request is answered as it would be without it, with the
  same effects, whatever the framework and the handlers look at.
\<close>

theorem forwarding_headers_ignored:
  assumes "k \<in> set headersToStrip" "same_name k' k"
  shows "main_app wb pg (r\<lparr>rq_Headers := hs1 @ (k', v) # hs2\<rparr>) s = main_app wb pg (r\<lparr>rq_Headers := hs1 @ hs2\<rparr>) s"
proof -
  have "strip_request (r\<lparr>rq_Headers := hs1 @ (k', v) # hs2\<rparr>) = strip_request (r\<lparr>rq_Headers := hs1 @ hs2\<rparr>)"
    using StripForwardedHeaders_drops [OF assms, where r = "Request.truncate r" and ?hs1.0 = hs1 and v = v and ?hs2.0 = hs2]
    by (simp add: strip_request_def Request.truncate_def)
  then show ?thesis by (simp add: main_app_def)
qed

theorem forwarding_headers_ignored_witness:
  "\<forall>wb pg s. main_app wb pg (anonymous\<lparr>rq_Headers := [(''Accept'', ''x''), (''x-forwarded-FOR'', ''127.0.0.1''), (''a'', ''b'')]\<rparr>) s =
     main_app wb pg (anonymous\<lparr>rq_Headers := [(''Accept'', ''x''), (''a'', ''b'')]\<rparr>) s"
proof (intro allI)
  fix wb pg s
  have "''X-Forwarded-For'' \<in> set headersToStrip" "same_name ''x-forwarded-FOR'' ''X-Forwarded-For''"
    by code_simp+
  from forwarding_headers_ignored [OF this, where wb = wb and pg = pg and s = s and r = anonymous
      and ?hs1.0 = "[(''Accept'', ''x'')]" and v = "''127.0.0.1''" and ?hs2.0 = "[(''a'', ''b'')]"]
  show "main_app wb pg (anonymous\<lparr>rq_Headers := [(''Accept'', ''x''), (''x-forwarded-FOR'', ''127.0.0.1''), (''a'', ''b'')]\<rparr>) s =
     main_app wb pg (anonymous\<lparr>rq_Headers := [(''Accept'', ''x''), (''a'', ''b'')]\<rparr>) s" by simp
qed

text \<open>The refusals of the middlewares.\<close>

lemma limiter_refuses:
  assumes "middleware_answer (fst (RateLimiter_Handler now cid r rl)) = Some a"
  shows "an_Status a = 429 \<and> ry_audit (fst (RateLimiter_Handler now cid r rl)) = [LogRateLimit cid (rq_IP r)]"
  using assms by (auto simp: RateLimiter_Handler_def middleware_answer_def pass_def refuse_def error_answer_def json_answer_def
      split: prod.splits if_splits)

lemma stranger_refused:
  assumes "au_Username cfg \<noteq> []" "\<not> credentials_ok getenv cfg r"
  obtains a where "middleware_answer (Auth getenv cfg cid r) = Some a" "an_Status a \<in> {401, 403}" "ry_audit (Auth getenv cfg cid r) \<noteq> []"
proof -
  obtain a where a: "middleware_answer (Auth getenv cfg cid r) = Some a" using Auth_refuses [OF assms] by blast
  then have "an_Status a \<in> {401, 403} \<and> ry_audit (Auth getenv cfg cid r) \<noteq> []"
    using assms(1) by (auto simp: Auth_def middleware_answer_def pass_def refuse_def error_answer_def json_answer_def Let_def
        split: if_splits)
  with a show thesis using that by blast
qed

definition refusal :: "nat set" where "refusal = {401, 403, 429}"

text \<open>The routes that need no credentials.\<close>

fun public :: "program \<Rightarrow> route \<Rightarrow> bool" where
  "public pg Health_route = True"
| "public pg Version_route = True"
| "public pg Metrics_route = True"
| "public pg No_route = True"
| "public pg (MCP_route call) = (pg_mcp pg = None)"
| "public pg _ = False"

text \<open>What requests share apart from the limiter, and what they leave for others.\<close>

definition effects :: "app_state \<Rightarrow> proxy_state \<times> counters \<times> (string \<times> string) list \<times> SSEBroker \<times> TelemetryEvent list" where
  "effects s = (as_proxy s, as_counters s, as_posted s, as_streams s, as_events s)"

lemma effects_log [simp]: "effects (log_guard evs s) = effects s" "as_audit (log_guard evs s) = as_audit s @ evs"
  by (simp_all add: effects_def log_guard_def)

lemma dispatch_refuses:
  assumes "au_Username (cf_Auth (pg_config pg)) \<noteq> []"
    and "\<not> credentials_ok (wb_getenv wb) (cf_Auth (pg_config pg)) (Request.truncate r)" "\<not> public pg (wb_route wb r)"
  shows "\<exists>a s' evs. dispatch wb pg cid r s = (Answered (Answer a), s') \<and> an_Status a \<in> refusal \<and> effects s' = effects s \<and>
    as_audit s' = as_audit s @ evs \<and> evs \<noteq> []"
proof -
  let ?cfg = "cf_Auth (pg_config pg)" and ?r = "Request.truncate r"
  obtain a where a: "middleware_answer (Auth (wb_getenv wb) ?cfg cid ?r) = Some a" "an_Status a \<in> refusal"
    "ry_audit (Auth (wb_getenv wb) ?cfg cid ?r) \<noteq> []"
    using stranger_refused [OF assms(1,2), of cid] unfolding refusal_def by (metis insert_iff singletonD)
  obtain limited rl where lim: "RateLimiter_Handler (wb_now wb) cid ?r (as_limiter s) = (limited, rl)" by fastforce
  let ?b = "case middleware_answer limited of Some b \<Rightarrow> b | None \<Rightarrow> a"
  have b: "an_Status ?b \<in> refusal" "guard_audit limited (Auth (wb_getenv wb) ?cfg cid ?r) \<noteq> []"
    using limiter_refuses [of "wb_now wb" cid ?r "as_limiter s"] a lim middleware_answer_None [of limited]
    by (auto simp: guard_audit_def refusal_def split: option.splits)
  show ?thesis
  proof (cases "wb_route wb r")
    case (Dashboard_route known)
    then have "dispatch wb pg cid r s = (Answered (Answer ?b),
        log_guard (guard_audit limited (Auth (wb_getenv wb) ?cfg cid ?r)) (s\<lparr>as_limiter := rl\<rparr>))"
      by (simp add: dispatch_def dashboard_group_def lim a(1) Let_def split: option.split)
    then show ?thesis using b by (simp add: effects_def log_guard_def)
  next
    case (API_route call)
    then have "dispatch wb pg cid r s = (Answered (Answer ?b),
        log_guard (guard_audit limited (Auth (wb_getenv wb) ?cfg cid ?r)) (s\<lparr>as_limiter := rl\<rparr>))"
      by (simp add: dispatch_def api_routes_def api_group_def go_reply_def lim a(1) Let_def split: option.split)
    then show ?thesis using b by (simp add: effects_def log_guard_def)
  next
    case Proxy_route
    then show ?thesis using a by (simp add: dispatch_def proxy_group_def effects_def log_guard_def Let_def)
  next
    case (MCP_route call)
    with assms(3) show ?thesis using a by (auto simp: dispatch_def RegisterRoutes_def Let_def)
  qed (use assms(3) in simp_all)
qed

text \<open>
  C12. Strangers get nowhere in the application: with a user configured, a request that comes from an
  address that is not allowed or carries neither the token nor the user's credentials, is answered
  with a refusal on every route but the health checks, the version and the metrics. It changes no
  approval, sends nothing to the agent or an MCP server, opens no stream and records nothing but the
  refusal, which it always leaves in the audit log.
\<close>

theorem strangers_refused:
  assumes "au_Username (cf_Auth (pg_config pg)) \<noteq> []"
    and "\<not> credentials_ok (wb_getenv wb) (cf_Auth (pg_config pg)) (Request.truncate (strip_request r))"
    and "\<not> public pg (wb_route wb (strip_request r))" "snd (wb_cors wb (strip_request r)) = None"
  shows "\<exists>hs a s' evs. main_app wb pg r s = ((hs, Answered (Answer a)), s') \<and> an_Status a \<in> refusal \<and>
    effects s' = effects s \<and> as_audit s' = as_audit s @ evs \<and> evs \<noteq> []"
proof -
  obtain cid ry where c: "CorrelationID (wb_fresh wb) (Request.truncate (strip_request r)) = (cid, ry)" by fastforce
  obtain ch where "wb_cors wb (strip_request r) = (ch, None)" using assms(4) by (cases "wb_cors wb (strip_request r)") simp
  with dispatch_refuses [OF assms(1-3), of cid s] c show ?thesis by (auto simp: main_app_def Let_def)
qed

theorem strangers_refused_witness:
  "\<exists>pg hs a s' evs.
     program_main (\<lambda>_. Inr ''data'') (\<lambda>_. Inr guarded_config) letter_compile idle_env False ''config.yaml'' = Running pg \<and>
     main_app (plain_web ''pw'' (body_env [])) pg anonymous (app_start pg) = ((hs, Answered (Answer a)), s') \<and>
     an_Status a \<in> refusal \<and> effects s' = effects (app_start pg) \<and> as_audit s' = as_audit (app_start pg) @ evs \<and> evs \<noteq> []"
proof -
  let ?main = "program_main (\<lambda>_. Inr ''data'') (\<lambda>_. Inr guarded_config) letter_compile idle_env False ''config.yaml''"
  let ?wb = "plain_web ''pw'' (body_env [])"
  obtain pg where pg: "?main = Running pg" using guarded_program by blast
  then have auth: "au_Username (cf_Auth (pg_config pg)) = ''me''" "au_Token (cf_Auth (pg_config pg)) = []"
    by (auto elim!: program_mainE Load_InrE simp: Egress_Compile_frame guarded_config_def letter_config_def blank_config_def
        set_defaults_def Let_def)
  have "header_get (rq_Headers (strip_request anonymous)) ''Authorization'' = []" by code_simp
  then have "\<not> credentials_ok (wb_getenv ?wb) (cf_Auth (pg_config pg)) (Request.truncate (strip_request anonymous))"
    using auth by (simp add: credentials_ok_def bearer_ok_def basic_ok_def Request.truncate_def)
  moreover have "\<not> public pg (wb_route ?wb (strip_request anonymous))"
    by (simp add: plain_web_def plain_route_def strip_request_def anonymous_def Let_def HasPrefix_def)
  moreover have "snd (wb_cors ?wb (strip_request anonymous)) = None" by (simp add: plain_web_def)
  moreover have "au_Username (cf_Auth (pg_config pg)) \<noteq> []" using auth by simp
  ultimately show ?thesis using strangers_refused [of pg ?wb anonymous "app_start pg"] pg by blast
qed

end
