(* ===== verification/Service.thy ===== *)
theory Service
  imports App
begin

text \<open>
  Requests to the main application one after another, each with what the outside answers during it, and
  what all of them keep: the queue, the counters of the MCP handler and the event streams stay as they
  have to be, and no request ends in a panic or without an answer.

  A request that waits for an operator gives the queue to the waiting, which other requests and the
  clean-up change meanwhile; the locale \<open>waiting\<close> is what is needed of that.
\<close>

section \<open>Waiting\<close>

locale waiting =
  fixes await :: "string \<Rightarrow> Queue \<Rightarrow> Decision \<times> Queue"
    and keeps :: "Queue \<Rightarrow> bool"
  assumes await_keeps: "keeps q \<Longrightarrow> keeps (snd (await cid q))"
    and add_keeps: "keeps q \<Longrightarrow> keeps (snd (Queue_Add io cid now command tool reason args q))"
begin

lemma added_keeps: "Queue_Add io cid now command tool reason args q = (i, q') \<Longrightarrow> keeps q \<Longrightarrow> keeps q'"
  by (metis add_keeps snd_conv)

lemma awaited_keeps: "await cid q = (d, q') \<Longrightarrow> keeps q \<Longrightarrow> keeps q'"
  by (metis await_keeps snd_conv)

lemma ask_operator_keeps:
  assumes "pe_await en = await" "ask_operator en command tool reason args s = (d, s')" "keeps (ps_queue s)"
  shows "keeps (ps_queue s')"
  using assms(2,3) by (auto simp: ask_operator_def Let_def split: prod.splits dest!: added_keeps awaited_keeps [folded assms(1)])

lemma handleStandardRequest_queue: "ps_queue (snd (handleStandardRequest en p r s)) = ps_queue s"
  by (simp add: handleStandardRequest_state sent_def)

lemma forward_request_queue: "ps_queue (snd (forward_request en p r s)) = ps_queue s"
  by (simp add: forward_request_def handleStandardRequest_queue)
    (simp add: handleStreaming_def sent_def Let_def split: option.split sum.split)

lemma handleOpenClaw_keeps:
  assumes "pe_await en = await" "keeps (ps_queue s)"
  shows "keeps (ps_queue (snd (handleOpenClawToolInvoke en p r s)))"
  using assms(2) ask_operator_keeps [OF assms(1)]
  by (simp add: handleOpenClawToolInvoke_def handleStandardRequest_queue Let_def
      split: sum.split Action.split Decision.split prod.split)

lemma checkToolCalls_keeps:
  assumes "pe_await en = await" "checkToolCalls en p body s = (x, s')" "keeps (ps_queue s)"
  shows "keeps (ps_queue s')"
  using assms(2,3) ask_operator_keeps [OF assms(1)]
  by (auto simp: checkToolCalls_def Let_def split: sum.splits option.splits Action.splits Decision.splits prod.splits)

lemma Proxy_Handler_keeps:
  assumes "pe_await en = await" "keeps (ps_queue s)"
  shows "keeps (ps_queue (snd (Proxy_Handler en p r s)))"
  using assms(2) handleOpenClaw_keeps [OF assms] checkToolCalls_keeps [OF assms(1)]
  by (auto simp: Proxy_Handler_def forward_request_queue handleWebSocket_def Let_def split: prod.split option.split bool.split)

lemma handleApproval_keeps:
  assumes "en_await en = await" "keeps (cx_queue c)"
  shows "keeps (cx_queue (snd (handleApproval en h req tc result cid s c)))"
  using assms(2)
  by (auto simp: handleApproval_def send_json_def notify_pending_def count_blocked_def count_approved_def Let_def
      split: prod.splits Decision.splits dest!: added_keeps awaited_keeps [folded assms(1)])

lemma HandleJSONRPC_keeps:
  assumes "en_await en = await" "keeps (cx_queue c)"
  shows "keeps (cx_queue (snd (HandleJSONRPC en h r c)))"
proof -
  have tools: "keeps (cx_queue (snd (handleToolsCall en h req cid s c)))" for req cid s
    using assms(2) handleApproval_keeps [OF assms(1)]
    by (auto simp: handleToolsCall_def send_json_def count_blocked_def Let_def split: sum.splits Action.splits)
  have resources: "cx_queue (snd (handleResourcesRead en h req cid s c)) = cx_queue c" for req cid s
    by (simp add: handleResourcesRead_def send_json_def Let_def split: sum.split)
  show ?thesis
    using assms(2) by (simp add: HandleJSONRPC_def tools resources send_json_def Let_def split: sum.split)
qed

lemma forward_upstream_keeps: "cx_queue (snd (forward_upstream en u r c)) = cx_queue c"
  by (simp add: forward_upstream_def ForwardToServer_def send_json_def Let_def split: sum.split)

lemma proxy_keeps:
  assumes "en_await en = await" "keeps (cx_queue c)"
  shows "keeps (cx_queue (snd (proxyToServer en p name r c)))" "keeps (cx_queue (snd (proxyToDefault any en p r c)))"
  using HandleJSONRPC_keeps [OF assms]
  by (auto simp: proxyToServer_def proxyToDefault_def forward_upstream_keeps send_json_def Let_def
      split: prod.split option.split) (metis snd_conv)+

end

definition keeps_memory :: "(string \<Rightarrow> Queue \<Rightarrow> Decision \<times> Queue) \<Rightarrow> bool" where
  "keeps_memory await \<longleftrightarrow> (\<forall>cid q. in_memory q \<longrightarrow> in_memory (snd (await cid q)))"

lemma in_memory_add: "in_memory q \<Longrightarrow> in_memory (snd (Queue_Add io cid now command tool reason args q))"
proof -
  assume q: "in_memory q"
  obtain h q' where a: "add_memory (new_command cid now q command tool reason args) q = (h, q')" by fastforce
  from add_memory_ok [OF _ a] q have "queue_inv q' \<and> q_store q' = None" by (simp add: in_memory_def)
  then show ?thesis by (simp add: Queue_Add_def a add_store_def in_memory_def)
qed

lemma keeps_memory_waiting: "keeps_memory await \<Longrightarrow> waiting await in_memory"
  by unfold_locales (simp_all add: keeps_memory_def in_memory_add)

text \<open>The queue's own \<open>Wait\<close> keeps the law.\<close>

interpretation waits: waiting "Wait io now ctx_done" in_memory for io now ctx_done
proof
  fix q cid
  assume q: "in_memory q"
  show "in_memory (snd (Wait io now ctx_done cid q))"
  proof (cases "map_of (q_pending q) cid")
    case None
    with q show ?thesis by (simp add: Wait_def wait_store_def in_memory_def)
  next
    case (Some h)
    have h: "h < length (q_heap q)" using queue_inv_lookup [OF _ Some] q by (simp add: handle_ok_def in_memory_def)
    obtain r q' where w: "wait_receive h q = (r, q')" by fastforce
    from wait_receive_ok [OF _ h w] q have "in_memory q'" by (simp add: in_memory_def)
    with q Some w show ?thesis by (auto simp: Wait_def in_memory_def queue_inv_Remove split: go.split)
  qed
qed (rule in_memory_add)

section \<open>What requests keep\<close>

definition app_ok :: "app_state \<Rightarrow> bool" where
  "app_ok s \<longleftrightarrow> in_memory (ps_queue (as_proxy s)) \<and> calls_balanced (mcp_context s) \<and>
     clients_ok (as_streams s) \<and> bounded (as_streams s)"

definition keeps_law :: "web \<Rightarrow> bool" where
  "keeps_law wb \<longleftrightarrow> keeps_memory (pe_await (wb_proxy wb)) \<and> keeps_memory (en_await (wb_mcp wb))"

lemma app_ok_log [simp]: "app_ok (log_guard evs s) = app_ok s" "app_ok (s\<lparr>as_limiter := rl\<rparr>) = app_ok s"
  by (simp_all add: app_ok_def log_guard_def mcp_context_def calls_balanced_def)

lemma app_ok_proxy: "app_ok s \<Longrightarrow> in_memory (ps_queue p) \<Longrightarrow> app_ok (s\<lparr>as_proxy := p\<rparr>)"
  by (simp add: app_ok_def mcp_context_def calls_balanced_def)

lemma proxy_balanced:
  assumes "calls_balanced c"
  shows "calls_balanced (snd (proxyToServer en p name r c))" "calls_balanced (snd (proxyToDefault any en p r c))"
proof -
  have step: "HandleJSONRPC en h r' c = (e, c1) \<Longrightarrow> calls_balanced c1" for h r' e c1
    using tool_calls_balanced [OF assms, of en h r'] by simp
  have fwd: "calls_balanced (snd (forward_upstream en u r' c1)) = calls_balanced c1" for u r' c1
    by (simp add: forward_upstream_def ForwardToServer_def calls_balanced_def Let_def split: sum.split)
  have json: "calls_balanced (snd (send_json en st resp c1)) = calls_balanced c1" for st resp c1
    by (simp add: calls_balanced_def)
  show "calls_balanced (snd (proxyToServer en p name r c))" "calls_balanced (snd (proxyToDefault any en p r c))"
    by (auto simp: proxyToServer_def proxyToDefault_def fwd json Let_def split: prod.split option.split dest: step)
qed

lemma mcp_merge_ok:
  assumes "app_ok s" "in_memory (cx_queue c)" "calls_balanced c"
  shows "app_ok (mcp_merge c s)"
  using assms by (simp add: app_ok_def mcp_merge_def mcp_context_def calls_balanced_def)

definition answered :: "app_reply \<Rightarrow> bool" where
  "answered reply \<longleftrightarrow> reply \<noteq> Recovered \<and> reply \<noteq> Waiting"

lemma mcp_handler_ok:
  assumes "app_ok s" "keeps_law wb" "mcp_handler wb p call r s = (reply, s')"
  shows "app_ok s' \<and> answered reply"
proof -
  have "keeps_memory (en_await (wb_mcp wb))" using assms(2) by (simp add: keeps_law_def)
  note w = waiting.proxy_keeps [OF keeps_memory_waiting [OF this] refl]
  have q: "in_memory (cx_queue (mcp_context s))" "calls_balanced (mcp_context s)"
    using assms(1) by (simp_all add: app_ok_def mcp_context_def)
  have rep: "answered (mcp_reply e c)" for e c by (simp add: mcp_reply_def answered_def split: option.split)
  show ?thesis
  proof (cases call)
    case (MCP_stream query)
    with assms(1,3) Subscribe_ok show ?thesis
      by (auto simp: mcp_handler_def HandleSSE_def app_ok_def mcp_context_def calls_balanced_def answered_def Let_def
          split: prod.splits) (metis snd_conv)+
  next
    case (MCP_server name)
    with assms(3) w(1) [OF q(1)] proxy_balanced(1) [OF q(2)] rep show ?thesis
      by (auto simp: mcp_handler_def split: prod.splits intro!: mcp_merge_ok [OF assms(1)]) (metis snd_conv)+
  next
    case MCP_default
    with assms(3) w(2) [OF q(1)] proxy_balanced(2) [OF q(2)] rep show ?thesis
      by (auto simp: mcp_handler_def split: prod.splits intro!: mcp_merge_ok [OF assms(1)]) (metis snd_conv)+
  qed
qed

lemma RegisterRoutes_ok:
  assumes "app_ok s" "keeps_law wb" "RegisterRoutes wb cfg cid p call r s = (reply, s')"
  shows "app_ok s' \<and> answered reply"
  using assms mcp_handler_ok [OF assms(1,2)]
  by (auto simp: RegisterRoutes_def answered_def split: option.splits)

lemma APIRoutes_memory:
  assumes "in_memory q"
  shows "\<exists>a q'. APIRoutes en token call q = (Ret a, q') \<and> in_memory q'"
proof (cases call)
  case (Approve_call cid)
  from api_decide_memory [OF assms, of True en cid] show ?thesis by (auto simp: APIRoutes_def Approve_call)
next
  case (Deny_call cid)
  from api_decide_memory [OF assms, of False en cid] show ?thesis by (auto simp: APIRoutes_def Deny_call)
qed (use assms in \<open>simp_all add: APIRoutes_def\<close>)

lemma api_routes_ok:
  assumes "in_memory q" "api_routes wb cfg cid call r (rl, q) = (reply, rl', q')"
  shows "in_memory q' \<and> answered reply"
proof (cases call)
  case None
  with assms show ?thesis by (auto simp: api_routes_def answered_def Let_def split: prod.splits option.splits)
next
  case (Some call)
  obtain a q1 where "APIRoutes (wb_api wb) None call q = (Ret a, q1)" "in_memory q1"
    using APIRoutes_memory [OF assms(1)] by blast
  with Some assms show ?thesis
    by (auto simp: api_routes_def api_group_def go_reply_def answered_def Let_def split: prod.splits option.splits)
qed

lemma proxy_group_memory:
  assumes "in_memory (ps_queue s)" "keeps_memory (pe_await en)" "proxy_group getenv cfg cid en p r s = (reply, s')"
  shows "in_memory (ps_queue s')"
proof -
  from waiting.Proxy_Handler_keeps [OF keeps_memory_waiting [OF assms(2)] refl assms(1), of p r]
  have "in_memory (ps_queue (snd (Proxy_Handler en p r s)))" .
  with assms(1,3) show ?thesis by (auto simp: proxy_group_def split: option.splits)
qed

lemma dispatch_ok:
  assumes "app_ok s" "keeps_law wb" "dispatch wb pg cid r s = (reply, s')"
  shows "app_ok s' \<and> answered reply"
proof (cases "wb_route wb r")
  case (API_route call)
  have q: "in_memory (ps_queue (as_proxy s))" using assms(1) by (simp add: app_ok_def)
  from API_route assms(1,3) api_routes_ok [OF q] show ?thesis
    by (auto simp: dispatch_def Let_def split: prod.splits intro!: app_ok_proxy)
next
  case Proxy_route
  have "in_memory (ps_queue (as_proxy s))" "keeps_memory (pe_await (wb_proxy wb))"
    using assms(1,2) by (simp_all add: app_ok_def keeps_law_def)
  note keeps = proxy_group_memory [OF this]
  from Proxy_route assms(1,3) show ?thesis
    by (auto simp: dispatch_def answered_def Let_def split: prod.splits intro!: app_ok_proxy dest: keeps)
next
  case (MCP_route call)
  with assms show ?thesis
    by (auto simp: dispatch_def answered_def Let_def split: option.splits
        dest: RegisterRoutes_ok [OF app_ok_log(1) [THEN iffD2]])
qed (use assms in \<open>auto simp: dispatch_def answered_def Let_def split: prod.splits\<close>)

lemma main_app_ok:
  assumes "app_ok s" "keeps_law wb" "main_app wb pg r s = ((hs, reply), s')"
  shows "app_ok s' \<and> answered reply"
  using assms dispatch_ok [OF assms(1,2)]
  by (auto simp: main_app_def answered_def Let_def split: prod.splits option.splits)

section \<open>Runs\<close>

fun serve :: "program \<Rightarrow> (web \<times> ProxyRequest) list \<Rightarrow> app_state \<Rightarrow> app_reply list \<times> app_state" where
  "serve pg [] s = ([], s)"
| "serve pg ((wb, r) # reqs) s =
     (let ((hs, reply), s1) = main_app wb pg r s; (replies, s2) = serve pg reqs s1 in (reply # replies, s2))"

lemma serve_ok:
  assumes "\<forall>(wb, r) \<in> set reqs. keeps_law wb"
  shows "app_ok s \<Longrightarrow> serve pg reqs s = (replies, s') \<Longrightarrow> app_ok s' \<and> list_all answered replies"
  using assms
proof (induction reqs arbitrary: s s' replies)
  case (Cons wr reqs)
  obtain wb r where wr: "wr = (wb, r)" by (cases wr)
  obtain hs reply s1 where m: "main_app wb pg r s = ((hs, reply), s1)" by (metis surj_pair)
  obtain rest s2 where t: "serve pg reqs s1 = (rest, s2)" by fastforce
  have "app_ok s1 \<and> answered reply" using Cons.prems wr main_app_ok [OF _ _ m] by auto
  moreover from this Cons.prems Cons.IH [OF _ t] have "app_ok s2 \<and> list_all answered rest" by auto
  ultimately show ?case using Cons.prems wr m t by auto
qed simp

lemma app_start_ok:
  assumes "start_program en cfg = Inr pg" "sc_Type (cf_Storage cfg) \<noteq> ''sqlite''"
  shows "app_ok (app_start pg)"
proof -
  have "pg_queue pg = NewQueue approval_timeout"
    using start_program_parts(5) [OF assms(1)] assms(2) by (simp add: start_queue_def)
  then show ?thesis
    using sse_inv_New [of 100]
    by (simp add: app_ok_def app_start_def in_memory_New mcp_context_def calls_balanced_def sse_inv_def)
qed

section \<open>Properties\<close>


definition waiting_web :: web where
  "waiting_web = plain_web ''pw'' ((body_env rm_data)\<lparr>pe_await := Wait None 0 False\<rparr>)"

definition with_password :: "ProxyRequest \<Rightarrow> ProxyRequest" where
  "with_password r = r\<lparr>rq_Headers := [(''Authorization'', ''Basic '' @ EncodeToString StdAlphabet True ''me:pw'')]\<rparr>"


end
