(* ===== verification/Demo_Servers.thy ===== *)
theory Demo_Servers
  imports Upstream
begin

text \<open>
  The servers of the demonstrations: the mock of GitHub's API (demo/mock-github), the mock MCP server
  (demo/mock-mcp-server) and the echo server (demo/echo-server). Each is a function from a request to
  its answer, with the part of \<^verbatim>\<open>http.ServeMux\<close> that they use: paths are cleaned by a
  redirect, a pattern that ends with a slash stands for the subtree.

  Encoding a JSON value and the page of a redirect are parameters of \<open>respond\<close>; decoding a JSON-RPC
  request is one of the MCP server. What the servers log is left out.
\<close>

section \<open>Answers\<close>

datatype server_body = JsonText json | PlainText string | Moved string

record server_answer =
  sa_Status :: nat
  sa_Headers :: headers
  sa_Body :: server_body

text \<open>\<^verbatim>\<open>json.NewEncoder(w).Encode\<close> ends the text with a newline.\<close>

definition respond :: "(json \<Rightarrow> string) \<Rightarrow> (string \<Rightarrow> string) \<Rightarrow> server_answer \<Rightarrow> HttpResponse" where
  "respond encode page a =
     \<lparr>hr_Status = sa_Status a, hr_Headers = sa_Headers a,
      hr_Body = Inr (case sa_Body a of JsonText j \<Rightarrow> encode j @ nl | PlainText s \<Rightarrow> s | Moved url \<Rightarrow> page url)\<rparr>"

definition json_headers :: headers where
  "json_headers = [(''Content-Type'', ''application/json'')]"

definition json_reply :: "json \<Rightarrow> server_answer" where
  "json_reply j = \<lparr>sa_Status = 200, sa_Headers = json_headers, sa_Body = JsonText j\<rparr>"

text \<open>\<^verbatim>\<open>http.NotFound\<close>, which replaces a content type set before it.\<close>

definition NotFound :: server_answer where
  "NotFound =
     \<lparr>sa_Status = 404, sa_Headers = [(''Content-Type'', ''text/plain; charset=utf-8''), (''X-Content-Type-Options'', ''nosniff'')],
      sa_Body = PlainText (''404 page not found'' @ nl)\<rparr>"

text \<open>\<^verbatim>\<open>http.Redirect\<close>: only \<^verbatim>\<open>GET\<close> gets a page.\<close>

definition redirect :: "string \<Rightarrow> Request \<Rightarrow> server_answer" where
  "redirect path r =
     (let url = path @ (if rq_Query r \<noteq> [] then CHR ''?'' # rq_Query r else []) in
      \<lparr>sa_Status = 301,
       sa_Headers = (''Location'', url) #
         (if rq_Method r \<in> {''GET'', ''HEAD''} then [(''Content-Type'', ''text/html; charset=utf-8'')] else []),
       sa_Body = (if rq_Method r = ''GET'' then Moved url else PlainText [])\<rparr>)"

section \<open>Paths\<close>

text \<open>\<^verbatim>\<open>strings.Split\<close> at a byte.\<close>

fun Split :: "char \<Rightarrow> string \<Rightarrow> string list" where
  "Split b [] = [[]]"
| "Split b (c # s) =
     (if c = b then [] # Split b s
      else (case Split b s of [] \<Rightarrow> [[c]] | w # ws \<Rightarrow> (c # w) # ws))"

lemma Split_nonempty [simp]: "Split b s \<noteq> []"
  by (induction s) (auto split: list.splits)

lemma Split_none: "b \<notin> set s \<Longrightarrow> Split b s = [s]"
  by (induction s) auto

lemma Split_append: "b \<notin> set u \<Longrightarrow> Split b (u @ b # v) = u # Split b v"
  by (induction u) auto

definition Join :: "char \<Rightarrow> string list \<Rightarrow> string" where
  "Join b ws = (case ws of [] \<Rightarrow> [] | w # ws \<Rightarrow> w @ concat (map (\<lambda>w. b # w) ws))"

text \<open>Splitting and joining are inverse.\<close>

lemma Join_Split: "Join b (Split b s) = s"
  by (induction s) (auto simp: Join_def split: list.splits)

text \<open>The path without empty elements, dots and what two dots take back.\<close>

fun clean_elements :: "string list \<Rightarrow> string list \<Rightarrow> string list" where
  "clean_elements acc [] = rev acc"
| "clean_elements acc (w # ws) =
     (if w = [] \<or> w = ''.'' then clean_elements acc ws
      else if w = ''..'' then clean_elements (tl acc) ws
      else clean_elements (w # acc) ws)"

definition cleanPath :: "string \<Rightarrow> string" where
  "cleanPath p =
     (if p = [] then ''/''
      else
        (let p' = (if hd p \<noteq> CHR ''/'' then CHR ''/'' # p else p);
             np = CHR ''/'' # Join (CHR ''/'') (clean_elements [] (Split (CHR ''/'') p'))
         in if last p' = CHR ''/'' \<and> np \<noteq> ''/'' then np @ ''/'' else np))"

section \<open>The mock of GitHub\<close>

definition listen_address :: "(string \<Rightarrow> string) \<Rightarrow> string \<Rightarrow> string" where
  "listen_address getenv fallback = CHR '':'' # (if getenv ''PORT'' = [] then fallback else getenv ''PORT'')"

text \<open>The line that is logged for a request, at a time.\<close>

definition logRequest :: "string \<Rightarrow> Request \<Rightarrow> string" where
  "logRequest now r =
     ''['' @ now @ ''] '' @ rq_Method r @ '' '' @ rq_Path r @ '' auth='' @
     (if header_get (rq_Headers r) ''Authorization'' \<noteq> [] then ''true'' else ''false'')"

definition requireAuth :: "(Request \<Rightarrow> server_answer) \<Rightarrow> Request \<Rightarrow> server_answer" where
  "requireAuth next_handler r =
     (let auth = header_get (rq_Headers r) ''Authorization'' in
      if auth = [] \<or> \<not> HasPrefix auth ''Bearer '' then
        \<lparr>sa_Status = 401, sa_Headers = json_headers, sa_Body = JsonText (JObj [(''message'', JStr ''Bad credentials'')])\<rparr>
      else next_handler r)"

definition handleUser :: "Request \<Rightarrow> server_answer" where
  "handleUser r =
     json_reply (JObj [(''login'', JStr ''demo-bot''), (''id'', JNum ''12345''), (''type'', JStr ''User'')])"

definition demo_user :: json where
  "demo_user = JObj [(''login'', JStr ''demo-bot'')]"

definition demo_issue :: "string \<Rightarrow> string \<Rightarrow> string \<Rightarrow> json" where
  "demo_issue number title label =
     JObj [(''number'', JNum number), (''title'', JStr title), (''state'', JStr ''open''), (''user'', demo_user),
           (''labels'', JArr [JObj [(''name'', JStr label)]])]"

definition handleRepos :: "Request \<Rightarrow> server_answer" where
  "handleRepos r =
     (case Split (CHR ''/'') (TrimPrefix (rq_Path r) ''/repos/'') of
        owner # repo # rest \<Rightarrow>
          (let resource = (case rest of [] \<Rightarrow> [] | x # _ \<Rightarrow> x) in
           if resource = [] then
             json_reply (JObj [(''full_name'', JStr (owner @ ''/'' @ repo)), (''private'', JBool False),
               (''description'', JStr ''Demo repository'')])
           else if resource = ''issues'' then
             json_reply (JArr
               [demo_issue ''1'' ''Add credential broker support'' ''enhancement'',
                demo_issue ''2'' ''Fix token rotation edge case'' ''bug''])
           else if resource = ''pulls'' then
             json_reply (JArr
               [JObj [(''number'', JNum ''10''), (''title'', JStr ''Implement broker gateway''), (''state'', JStr ''open''),
                      (''user'', demo_user), (''head'', JObj [(''ref'', JStr ''feature/broker'')]),
                      (''base'', JObj [(''ref'', JStr ''main'')])]])
           else NotFound)
      | _ \<Rightarrow> NotFound)"

definition mock_github :: "Request \<Rightarrow> server_answer" where
  "mock_github r =
     (let path = cleanPath (rq_Path r) in
      if path = ''/repos'' then redirect ''/repos/'' r
      else if path \<noteq> rq_Path r then redirect path r
      else if path = ''/health'' then
        \<lparr>sa_Status = 200, sa_Headers = [], sa_Body = PlainText (''{'' @ go_quote ''status'' @ '':'' @ go_quote ''ok'' @ ''}'')\<rparr>
      else if path = ''/user'' then requireAuth handleUser r
      else if HasPrefix path ''/repos/'' then requireAuth handleRepos r
      else NotFound)"

text \<open>Nothing but the health check is answered without a bearer token.\<close>

lemma mock_github_authenticated:
  assumes "sa_Status (mock_github r) = 200" "rq_Path r \<noteq> ''/health''"
  shows "\<exists>token. header_get (rq_Headers r) ''Authorization'' = ''Bearer '' @ token"
proof -
  have "HasPrefix (header_get (rq_Headers r) ''Authorization'') ''Bearer ''"
    using assms by (auto simp: mock_github_def requireAuth_def redirect_def NotFound_def Let_def split: if_splits)
  then show ?thesis by (auto elim: HasPrefixE)
qed

section \<open>The mock MCP server\<close>

record jsonrpcRequest =
  jq_JSONRPC :: string
  jq_Method :: string
  jq_Params :: string
  jq_ID :: json

definition mcp_listen :: "(string \<Rightarrow> string) \<Rightarrow> string" where
  "mcp_listen getenv = (if getenv ''LISTEN'' \<noteq> [] then getenv ''LISTEN'' else '':3001'')"

definition bare :: "nat \<Rightarrow> server_answer" where
  "bare status = \<lparr>sa_Status = status, sa_Headers = [], sa_Body = PlainText []\<rparr>"

definition mock_mcp :: "(string \<Rightarrow> jsonrpcRequest option) \<Rightarrow> Request \<Rightarrow> server_answer" where
  "mock_mcp decode r =
     (if cleanPath (rq_Path r) \<noteq> rq_Path r then redirect (cleanPath (rq_Path r)) r
      else if rq_Method r \<noteq> ''POST'' then bare 405
      else
        (case decode (rq_Body r) of
           None \<Rightarrow> bare 400
         | Some req \<Rightarrow>
             json_reply (JObj
               [(''jsonrpc'', JStr ''2.0''),
                (''result'', JObj [(''content'', JArr [JObj [(''type'', JStr ''text''),
                   (''text'', JStr (''Mock result for '' @ jq_Method req))]])]),
                (''id'', jq_ID req)])))"

section \<open>The echo server\<close>

text \<open>The text is put together without escaping: a quote in the path ends the value early.\<close>

definition echo_text :: "string \<Rightarrow> string \<Rightarrow> nat \<Rightarrow> string" where
  "echo_text meth path body_len =
     (let q = [char_of (34 :: nat)] in
      ''{'' @ q @ ''status'' @ q @ '':'' @ q @ ''ok'' @ q @ '','' @ q @ ''method'' @ q @ '':'' @ q @ meth @ q @ '','' @
      q @ ''path'' @ q @ '':'' @ q @ path @ q @ '','' @ q @ ''body_len'' @ q @ '':'' @ nat_dec body_len @ ''}'')"

definition echo_server :: "Request \<Rightarrow> server_answer" where
  "echo_server r =
     (if cleanPath (rq_Path r) \<noteq> rq_Path r then redirect (cleanPath (rq_Path r)) r
      else \<lparr>sa_Status = 200, sa_Headers = json_headers,
            sa_Body = PlainText (echo_text (rq_Method r) (rq_Path r) (length (rq_Body r)))\<rparr>)"

end
