(* ===== verification/Demo.thy ===== *)
theory Demo
  imports Program Demo_Clients
begin

text \<open>
  The demonstrations as they are set up: the program under the configurations in demo/, with the clients
  and servers of \<open>Demo_Clients\<close> and \<open>Demo_Servers\<close> around it. The network is a parameter: an HTTP
  client \<open>reaches\<close> a server when a request to a path under its address is answered by what the server
  makes of that request.
\<close>

section \<open>Between client and server\<close>

text \<open>
  The request as the server sees it: method, path and body are those that were sent, and a header that
  was sent has the value that was sent; the client's library may add others of its own.
\<close>

definition library_headers :: "string list" where
  "library_headers = [''Host'', ''User-Agent'', ''Content-Length'', ''Accept-Encoding'']"

definition arrives :: "Outgoing \<Rightarrow> string \<Rightarrow> Request \<Rightarrow> bool" where
  "arrives out path r \<longleftrightarrow> rq_Method r = og_Method out \<and> rq_Path r = path \<and> rq_Query r = [] \<and> rq_Body r = og_Body out \<and>
     (\<forall>k. has_header (og_Headers out) k \<longrightarrow> header_get (rq_Headers r) k = header_get (og_Headers out) k) \<and>
     (\<forall>k. has_header (rq_Headers r) k \<longrightarrow> has_header (og_Headers out) k \<or> list_ex (same_name k) library_headers)"

definition reaches :: "http_client \<Rightarrow> string \<Rightarrow> (Request \<Rightarrow> HttpResponse) \<Rightarrow> bool" where
  "reaches hc address server \<longleftrightarrow>
     (\<forall>m url. hc_new hc m url = None) \<and>
     (\<forall>out path. og_URL out = address @ path \<and> HasPrefix path ''/'' \<and> CHR ''?'' \<notin> set path \<longrightarrow>
        (\<exists>r. arrives out path r \<and> hc_do hc out = Inr (server r)))"

text \<open>An answer of a handler as the client gets it.\<close>

definition respond_answer :: "(gomap \<Rightarrow> string) \<Rightarrow> answer \<Rightarrow> HttpResponse" where
  "respond_answer encode a =
     \<lparr>hr_Status = an_Status a, hr_Headers = an_Headers a,
      hr_Body = Inr (case an_Body a of JsonBody m \<Rightarrow> encode m | Bytes b \<Rightarrow> b)\<rparr>"

section \<open>The listener of the gateway\<close>

text \<open>
  The separate application of the gateway, with what the web framework does left open: the match of
  \<^verbatim>\<open>/broker/:integration/*\<close>, the answer to what matches no route, and the one after a panic.
\<close>

record framework =
  fb_params :: "string \<Rightarrow> (string \<times> string) option"
  fb_missing :: "Request \<Rightarrow> HttpResponse"
  fb_recovered :: HttpResponse

definition broker_app ::
  "framework \<Rightarrow> (gomap \<Rightarrow> string) \<Rightarrow> (string \<Rightarrow> string \<Rightarrow> Request \<Rightarrow> 's gateway_result) \<Rightarrow> Request \<Rightarrow> HttpResponse" where
  "broker_app fb encode handler r =
     (if rq_Path r = ''/health'' \<and> rq_Method r \<in> {''GET'', ''HEAD''} then
        respond_answer encode (json_answer 200 [(''status'', JStr ''ok''), (''service'', JStr ''broker'')])
      else
        (case fb_params fb (rq_Path r) of
           None \<Rightarrow> fb_missing fb r
         | Some (integration, star) \<Rightarrow>
             (case handler integration star r of
                Panic \<Rightarrow> fb_recovered fb
              | Handled h \<Rightarrow> respond_answer encode (gh_answer h))))"

text \<open>The gateway of a running program at a time, with its control plane, if it has one.\<close>

definition program_gateway ::
  "program_env \<Rightarrow> http_client \<Rightarrow> (string \<Rightarrow> string \<Rightarrow> BrokerRequest \<Rightarrow> pro_outcome) \<Rightarrow> int \<Rightarrow> Gateway \<times> credential_source \<Rightarrow>
   string \<Rightarrow> string \<Rightarrow> Request \<Rightarrow> credential_source gateway_result" where
  "program_gateway en hc call now gs integration star r =
     Gateway_Handler hc (source_resolve (pm_getenv en) call now) (im_hostMap (gw_matcher (fst gs))) (fst gs)
       integration star r (snd gs)"

section \<open>The broker demonstration\<close>

text \<open>The decoded file demo/parachute.broker-demo.yaml.\<close>

definition broker_demo_yaml :: Config where
  "broker_demo_yaml = blank_config\<lparr>
     cf_Auth := (cf_Auth blank_config)\<lparr>au_Username := ''admin'', au_PasswordEnv := ''PARACHUTE_PASSWORD''\<rparr>,
     cf_Broker := (cf_Broker blank_config)\<lparr>
       bc_Enabled := True, bc_Listen := '':8081'', bc_Mode := ''enforce'', bc_FailBehavior := ''closed'',
       bc_Integrations :=
         [\<lparr>bi_Name = ''github'', bi_Provider = [], bi_Hosts = [''mock-github:9090''], bi_Enabled = True,
           bi_CredentialSource = ''dev_static'', bi_StaticTokenEnv = ''GITHUB_TOKEN'', bi_HeaderName = [],
           bi_TokenPrefix = []\<rparr>]\<rparr>,
     cf_Egress := (cf_Egress blank_config)\<lparr>
       eg_Mode := ''enforce'',
       eg_Rules := [\<lparr>er_Domains = [''api.github.com''], er_Label = ''github-managed'', er_Action = ''deny''\<rparr>,
                    \<lparr>er_Domains = [''mock-github''], er_Label = ''mock-github'', er_Action = ''allow''\<rparr>]\<rparr>,
     cf_Storage := \<lparr>sc_Type = ''memory'', sc_Path = []\<rparr>,
     cf_Upstream := ''http://localhost:9999'', cf_Listen := '':8080'', cf_ProxyListen := '':8888''\<rparr>"

lemma broker_demo_config:
  assumes "Load read_file (\<lambda>_. Inr broker_demo_yaml) compile path = Inr cfg"
  shows "cf_Broker cfg = cf_Broker broker_demo_yaml" "eg_Rules (cf_Egress cfg) = eg_Rules (cf_Egress broker_demo_yaml)"
    "eg_Mode (cf_Egress cfg) = ''enforce''" "eg_AllowDomains (cf_Egress cfg) = []"
proof -
  from assms obtain raw rp eg where c: "Inr broker_demo_yaml = (Inr raw :: string + Config)"
    "Egress_Compile compile (cf_Egress (set_defaults raw)) = Inr eg"
    "cfg = (set_defaults raw)\<lparr>cf_RiskPolicy := rp, cf_Egress := eg\<rparr>" by (rule Load_InrE)
  have raw: "raw = broker_demo_yaml" using c(1) by simp
  from Egress_Compile_frame [OF c(2)]
  show "cf_Broker cfg = cf_Broker broker_demo_yaml" "eg_Rules (cf_Egress cfg) = eg_Rules (cf_Egress broker_demo_yaml)"
    "eg_Mode (cf_Egress cfg) = ''enforce''" "eg_AllowDomains (cf_Egress cfg) = []"
    by (simp_all add: c(3) raw set_defaults_def broker_demo_yaml_def blank_config_def default_to_def Let_def)
qed

definition demo_token :: "program_env \<Rightarrow> Credential" where
  "demo_token en = \<lparr>cd_HeaderName = ''Authorization'', cd_HeaderValue = ''Bearer '' @ pm_getenv en ''GITHUB_TOKEN''\<rparr>"

text \<open>Every request to the integration is forwarded to the mock with the token.\<close>

lemma broker_demo_gateway:
  assumes "cf_Broker cfg = cf_Broker broker_demo_yaml" "pm_getenv en ''GITHUB_TOKEN'' \<noteq> []"
    and "start_gateway cfg collects = Some g"
  shows "\<exists>s evs. program_gateway en hc call now (g, choose_broker (pm_getenv en) (cf_Broker cfg)) ''github'' star r =
    forwarded s evs (forwardRequest hc ''mock-github:9090'' (gateway_path star) (Some (demo_token en)) r)"
proof -
  have low: "ToLower ''mock-github:9090'' = ''mock-github:9090''" by code_simp
  have src: "choose_broker (pm_getenv en) (cf_Broker cfg) =
      StaticSource [(''github'', \<lparr>ss_envVar = ''GITHUB_TOKEN'', ss_headerName = ''Authorization'', ss_prefix = ''Bearer ''\<rparr>)]"
    by (simp add: assms(1) broker_demo_yaml_def blank_config_def choose_broker_def uses_pro_def dev_sources_def
        NewDevStaticBroker_def static_source_def)
  have g: "im_hostMap (gw_matcher g) = [(''mock-github:9090'', ''github'')]"
    using assms(3) by (auto simp: start_gateway_def NewGateway_def start_matcher_def assms(1) broker_demo_yaml_def blank_config_def
        NewMatcher_def add_def_def integration_def_def low)
  show ?thesis
    using assms(2)
    by (auto simp: program_gateway_def Gateway_Handler_def src g HostForIntegration_def source_resolve_def
        DevStaticBroker_Resolve_def broker_request_def result_for_def demo_token_def Let_def)
qed

lemma mock_url: "upstream_url ''mock-github:9090'' path [] = ''http://mock-github:9090'' @ path"
proof -
  have "LastIndexByte ''mock-github:9090'' (CHR '':'') = Some 11" by code_simp
  then show ?thesis by (simp add: upstream_url_def)
qed

text \<open>What is forwarded arrives at the mock with the token.\<close>

lemma forwarded_to_mock:
  assumes "reaches hc ''http://mock-github:9090'' (\<lambda>r. respond encode page (mock_github r))"
    and "HasPrefix path ''/''" "CHR ''?'' \<notin> set path" "rq_Query r = []"
  shows "\<exists>r'. rq_Path r' = path \<and> header_get (rq_Headers r') ''Authorization'' = cd_HeaderValue (demo_token en) \<and>
    an_Status (snd (forwardRequest hc ''mock-github:9090'' path (Some (demo_token en)) r)) = sa_Status (mock_github r')"
proof -
  let ?out = "upstream_request ''mock-github:9090'' path (Some (demo_token en)) r"
  have url: "og_URL ?out = ''http://mock-github:9090'' @ path" by (simp add: upstream_request_def mock_url assms(4) Let_def)
  obtain r' where r': "arrives ?out path r'" "hc_do hc ?out = Inr (respond encode page (mock_github r'))"
    using assms(1-3) url unfolding reaches_def by blast
  have "same_name (cd_HeaderName (demo_token en)) ''Authorization''" by (simp add: demo_token_def)
  then have "has_header (og_Headers ?out) ''Authorization''"
    "header_get (og_Headers ?out) ''Authorization'' = cd_HeaderValue (demo_token en)"
    by (simp_all add: upstream_request_def has_header_StripAndInject header_get_StripAndInject Let_def)
  then have "header_get (rq_Headers r') ''Authorization'' = cd_HeaderValue (demo_token en)"
    using r'(1) by (simp add: arrives_def)
  moreover have "an_Status (snd (forwardRequest hc ''mock-github:9090'' path (Some (demo_token en)) r)) = sa_Status (mock_github r')"
    using assms(1) r'(2) by (simp add: forwardRequest_def reaches_def respond_def Let_def)
  ultimately show ?thesis using r'(1) by (auto simp: arrives_def)
qed

definition demo_paths :: "string list" where
  "demo_paths = [''/user'', ''/repos/demo-org/demo-repo'', ''/repos/demo-org/demo-repo/issues'', ''/repos/demo-org/demo-repo/pulls'']"

lemma mock_github_demo:
  assumes "rq_Path r \<in> set demo_paths" "header_get (rq_Headers r) ''Authorization'' = ''Bearer '' @ token"
  shows "sa_Status (mock_github r) = 200"
proof -
  have clean: "list_all (\<lambda>p. cleanPath p = p) demo_paths" by code_simp
  have split: "Split (CHR ''/'') (TrimPrefix ''/repos/demo-org/demo-repo'' ''/repos/'') = [''demo-org'', ''demo-repo'']"
    "Split (CHR ''/'') (TrimPrefix ''/repos/demo-org/demo-repo/issues'' ''/repos/'') = [''demo-org'', ''demo-repo'', ''issues'']"
    "Split (CHR ''/'') (TrimPrefix ''/repos/demo-org/demo-repo/pulls'' ''/repos/'') = [''demo-org'', ''demo-repo'', ''pulls'']"
    by code_simp+
  have auth: "HasPrefix (''Bearer '' @ token) ''Bearer ''" by (rule HasPrefix_append)
  have pre: "HasPrefix ''/repos/demo-org/demo-repo'' ''/repos/''" "HasPrefix ''/repos/demo-org/demo-repo/issues'' ''/repos/''"
    "HasPrefix ''/repos/demo-org/demo-repo/pulls'' ''/repos/''" by code_simp+
  from clean have "cleanPath (rq_Path r) = rq_Path r" using assms(1) by (auto simp: list_all_iff)
  with assms auth pre show ?thesis
    by (auto simp: mock_github_def demo_paths_def requireAuth_def handleUser_def handleRepos_def split json_reply_def Let_def)
qed

text \<open>The forward proxy of the demonstration refuses GitHub itself.\<close>

definition proxied_response :: "written \<Rightarrow> string + HttpResponse" where
  "proxied_response w =
     (case w of
        Nothing \<Rightarrow> Inl ''EOF''
      | Wrote status hs text \<Rightarrow> Inr \<lparr>hr_Status = status, hr_Headers = hs, hr_Body = Inr text\<rparr>
      | Relayed resp \<Rightarrow> Inr resp)"

text \<open>A client that sends its requests for plain URLs to the proxy, in absolute form.\<close>

definition uses_proxy :: "http_client \<Rightarrow> (RawRequest \<Rightarrow> server_result) \<Rightarrow> bool" where
  "uses_proxy hc serve \<longleftrightarrow>
     (\<forall>m url. hc_new hc m url = None) \<and>
     (\<forall>out host path. og_URL out = ''http://'' @ host @ path \<and> CHR ''/'' \<notin> set host \<and> HasPrefix path ''/'' \<longrightarrow>
        (\<exists>req. rr_Method req = og_Method out \<and> rr_Host req = host \<and> rr_URL req = og_URL out \<and> rr_IsAbs req \<and>
           rr_Body req = Inr (og_Body out) \<and> hc_do hc out = proxied_response (sr_written (serve req))))"

lemma broker_demo_proxy:
  assumes "cf_Broker cfg = cf_Broker broker_demo_yaml" "eg_Rules (cf_Egress cfg) = eg_Rules (cf_Egress broker_demo_yaml)"
    and "eg_Mode (cf_Egress cfg) = ''enforce''"
    and "rr_Host req = ''api.github.com''" "rr_IsAbs req" "hostname (rr_URL req) = Inr ''api.github.com''"
  shows "\<exists>hs text. sr_written (handleHTTPRequest hostname hc (NewForwardProxy cfg (start_matcher cfg) onEvent) req) = Wrote 403 hs text"
proof -
  let ?fp = "NewForwardProxy cfg (start_matcher cfg) onEvent"
  have low: "ToLower ''mock-github:9090'' = ''mock-github:9090''" "ToLower ''api.github.com'' = ''api.github.com''"
    "cut_last (CHR '':'') ''api.github.com'' = ''api.github.com''" by code_simp+
  have "matchDomain ''api.github.com'' ''api.github.com''" by (simp add: matchDomain_def)
  then have "find (rule_matches ''api.github.com'') (eg_Rules (fp_egress ?fp)) =
      Some \<lparr>er_Domains = [''api.github.com''], er_Label = ''github-managed'', er_Action = ''deny''\<rparr>"
    by (simp add: NewForwardProxy_def assms(2) broker_demo_yaml_def rule_matches_def)
  then have "\<not> cr_Allowed (CheckURL hostname (fp_egress ?fp) (rr_URL req))"
    by (simp add: CheckURL_def assms(6) check_host_Allowed)
  moreover have "\<not> isRecordMode ?fp" using assms(3) by (simp add: isRecordMode_def NewForwardProxy_def)
  moreover have "snd (fst (checkManagedHost ?fp ''api.github.com'')) = False"
    by (simp add: checkManagedHost_def NewForwardProxy_def start_matcher_def assms(1) broker_demo_yaml_def blank_config_def
        Match_def NewMatcher_def add_def_def integration_def_def low Let_def)
  ultimately show ?thesis
    using assms(4,5) low(3)
    by (auto simp: handleHTTPRequest_def target_url_def check_destination_def server_refused_def Let_def split: prod.split)
qed

lemma running_gateway:
  assumes "start_program en cfg = Inr pg" "pg_gateway pg = Some gs"
  obtains g where "start_gateway cfg (pg_telemetry pg \<noteq> None) = Some g"
    "gs = (g, choose_broker (pm_getenv en) (cf_Broker cfg))"
  using assms by (auto simp: start_program_def split: if_splits sum.splits)

text \<open>One brokered scenario.\<close>

lemma brokered_scenario:
  assumes "cf_Broker cfg = cf_Broker broker_demo_yaml" "pm_getenv en ''GITHUB_TOKEN'' \<noteq> []"
    and "start_gateway cfg collects = Some g" "gs = (g, choose_broker (pm_getenv en) (cf_Broker cfg))"
    and "reaches hc ''http://mock-github:9090'' (\<lambda>r. respond encode page (mock_github r))"
    and "\<forall>star. fb_params fb (''/broker/github/'' @ star) = Some (''github'', star)"
    and "reaches client brokerURL (broker_app fb encode' (program_gateway en hc call now gs))"
    and "CHR ''/'' # star \<in> set demo_paths" "sm_URL s = brokerURL @ ''/broker/github/'' @ star" "sm_ExpectCode s = 200"
  shows "fst (runScenario partial client s)"
proof -
  have plain: "list_all (\<lambda>p. CHR ''?'' \<notin> set p) demo_paths" "list_all (\<lambda>p. \<not> HasPrefix (tl p) ''/'' \<and> tl p \<noteq> []) demo_paths"
    by code_simp+
  have star: "CHR ''?'' \<notin> set star" "gateway_path star = CHR ''/'' # star"
    using plain assms(8) by (auto simp: list_all_iff gateway_path_def)
  have "HasPrefix (''/broker/github/'' @ star) ''/''" by (simp add: HasPrefix_def)
  moreover have "CHR ''?'' \<notin> set (''/broker/github/'' @ star)" using star(1) by simp
  ultimately obtain r where r: "arrives (scenario_request s) (''/broker/github/'' @ star) r"
    "hc_do client (scenario_request s) = Inr (broker_app fb encode' (program_gateway en hc call now gs) r)"
    using assms(7,9) unfolding reaches_def scenario_request_def by (metis Outgoing.select_convs(2))
  obtain st evs where h: "program_gateway en hc call now gs ''github'' star r =
      forwarded st evs (forwardRequest hc ''mock-github:9090'' (CHR ''/'' # star) (Some (demo_token en)) r)"
    using broker_demo_gateway [OF assms(1-3)] assms(4) star(2) by metis
  have q: "rq_Query r = []" using r(1) by (simp add: arrives_def)
  have "HasPrefix (CHR ''/'' # star) ''/''" "CHR ''?'' \<notin> set (CHR ''/'' # star)" using star(1) by (simp_all add: HasPrefix_def)
  from forwarded_to_mock [OF assms(5) this q] obtain r' where
    r': "rq_Path r' = CHR ''/'' # star" "header_get (rq_Headers r') ''Authorization'' = cd_HeaderValue (demo_token en)"
    "an_Status (snd (forwardRequest hc ''mock-github:9090'' (CHR ''/'' # star) (Some (demo_token en)) r)) = sa_Status (mock_github r')"
    by blast
  have "sa_Status (mock_github r') = 200"
    using r'(1,2) assms(8) by (intro mock_github_demo) (simp_all add: demo_token_def)
  then have "hr_Status (broker_app fb encode' (program_gateway en hc call now gs) r) = 200"
    using r(1) r'(3) h assms(6) by (auto simp: broker_app_def arrives_def forwarded_def respond_answer_def)
  then show ?thesis
    using r(2) assms(7,10) by (simp add: runScenario_def reaches_def Let_def)
qed

section \<open>Properties\<close>

text \<open>
  C27. The broker demonstration works: with the program running on the demonstration's configuration and a
  token in its environment, every scenario of the simulator passes. The four requests to the gateway
  are answered by the mock of GitHub, which wants the token that the agent does not have, and the
  direct request to GitHub is refused by the forward proxy.
\<close>

theorem broker_demo_passes:
  assumes "program_main read_file (\<lambda>_. Inr broker_demo_yaml) compile en False path = Running pg"
    and "pg_gateway pg = Some gs" "pm_getenv en ''GITHUB_TOKEN'' \<noteq> []"
    and "reaches hc ''http://mock-github:9090'' (\<lambda>r. respond encode page (mock_github r))"
    and "\<forall>star. fb_params fb (''/broker/github/'' @ star) = Some (''github'', star)"
    and "reaches client brokerURL (broker_app fb encode' (program_gateway en hc call now gs))"
    and "uses_proxy proxyClient (handleHTTPRequest hostname fhc (pg_forward pg))"
    and "hostname ''http://api.github.com/user'' = Inr ''api.github.com''"
  shows "fst (run_scenarios partial client proxyClient (broker_scenarios brokerURL))"
proof -
  obtain cfg where cfg: "Load read_file (\<lambda>_. Inr broker_demo_yaml) compile path = Inr cfg" "start_program en cfg = Inr pg"
    using assms(1) by (rule program_mainE)
  note c = broker_demo_config [OF cfg(1)]
  obtain g where g: "start_gateway cfg (pg_telemetry pg \<noteq> None) = Some g"
    "gs = (g, choose_broker (pm_getenv en) (cf_Broker cfg))"
    using cfg(2) assms(2) by (rule running_gateway)
  note brokered = brokered_scenario [OF c(1) assms(3) g assms(4-6), of _ _ partial]
  have direct: "fst (runScenario partial proxyClient s)"
    if "sm_URL s = ''http://api.github.com/user''" "sm_ExpectCode s = 403" "sm_UseProxy s" for s
  proof -
    have "og_URL (scenario_request s) = ''http://'' @ ''api.github.com'' @ ''/user''"
      using that(1) by (simp add: scenario_request_def)
    moreover have "CHR ''/'' \<notin> set ''api.github.com''" "HasPrefix ''/user'' ''/''" by (simp_all add: HasPrefix_def)
    ultimately obtain req where req: "rr_Host req = ''api.github.com''" "rr_IsAbs req" "rr_URL req = og_URL (scenario_request s)"
      "hc_do proxyClient (scenario_request s) = proxied_response (sr_written (handleHTTPRequest hostname fhc (pg_forward pg) req))"
      using assms(7) unfolding uses_proxy_def by meson
    have "hostname (rr_URL req) = Inr ''api.github.com''" using req(3) that(1) assms(8) by (simp add: scenario_request_def)
    from broker_demo_proxy [where hostname = hostname, OF c(1-3) req(1,2) this, of fhc "pg_telemetry pg \<noteq> None"] show ?thesis
      using req(4) assms(7) that
      by (auto simp: runScenario_def start_program_parts [OF cfg(2)] uses_proxy_def proxied_response_def Let_def)
  qed
  show ?thesis
    unfolding run_scenarios_def broker_scenarios_def Let_def
    using brokered [of "''user''"] brokered [of "''repos/demo-org/demo-repo''"]
      brokered [of "''repos/demo-org/demo-repo/issues''"] brokered [of "''repos/demo-org/demo-repo/pulls''"] direct
    by (simp add: demo_paths_def)
qed

text \<open>A network for the examples.\<close>

definition net_request :: "string \<Rightarrow> Outgoing \<Rightarrow> Request" where
  "net_request path out =
     \<lparr>rq_Method = og_Method out, rq_Host = [], rq_Path = path, rq_Query = [], rq_IP = ''172.18.0.2'',
      rq_Headers = og_Headers out, rq_Body = og_Body out\<rparr>"

definition net_client :: "string \<Rightarrow> (Request \<Rightarrow> HttpResponse) \<Rightarrow> http_client" where
  "net_client address server =
     \<lparr>hc_new = (\<lambda>_ _. None),
      hc_do = (\<lambda>out. if HasPrefix (og_URL out) address then Inr (server (net_request (drop (length address) (og_URL out)) out))
                     else Inl ''no route'')\<rparr>"

definition net_proxy_client :: "(RawRequest \<Rightarrow> server_result) \<Rightarrow> http_client" where
  "net_proxy_client serve =
     \<lparr>hc_new = (\<lambda>_ _. None),
      hc_do = (\<lambda>out. proxied_response (sr_written (serve
        \<lparr>rr_Method = og_Method out, rr_Host = takeWhile (\<lambda>c. c \<noteq> CHR ''/'') (drop 7 (og_URL out)), rr_URL = og_URL out,
         rr_IsAbs = True, rr_RequestURI = og_URL out, rr_Header = og_Headers out, rr_Body = Inr (og_Body out)\<rparr>)))\<rparr>"

lemma net_client_reaches: "reaches (net_client address server) address server"
  unfolding reaches_def
proof (intro conjI allI impI)
  fix out :: Outgoing and path :: string
  assume "og_URL out = address @ path \<and> HasPrefix path ''/'' \<and> CHR ''?'' \<notin> set path"
  then show "\<exists>r. arrives out path r \<and> hc_do (net_client address server) out = Inr (server r)"
    by (intro exI [of _ "net_request path out"]) (simp add: arrives_def net_request_def net_client_def)
qed (simp add: net_client_def)

lemma net_proxy_client_uses: "uses_proxy (net_proxy_client serve) serve"
  unfolding uses_proxy_def
proof (intro conjI allI impI)
  fix out :: Outgoing and host path :: string
  assume *: "og_URL out = ''http://'' @ host @ path \<and> CHR ''/'' \<notin> set host \<and> HasPrefix path ''/''"
  then obtain rest where "path = CHR ''/'' # rest" by (auto elim: HasPrefixE)
  with * have host: "takeWhile (\<lambda>c. c \<noteq> CHR ''/'') (drop 7 (og_URL out)) = host"
    by (auto simp: takeWhile_append)
  let ?req = "\<lparr>rr_Method = og_Method out, rr_Host = host, rr_URL = og_URL out, rr_IsAbs = True, rr_RequestURI = og_URL out,
      rr_Header = og_Headers out, rr_Body = Inr (og_Body out)\<rparr>"
  show "\<exists>req. rr_Method req = og_Method out \<and> rr_Host req = host \<and> rr_URL req = og_URL out \<and> rr_IsAbs req \<and>
      rr_Body req = Inr (og_Body out) \<and> hc_do (net_proxy_client serve) out = proxied_response (sr_written (serve req))"
    by (rule exI [of _ ?req]) (simp add: net_proxy_client_def host)
qed (simp add: net_proxy_client_def)

definition demo_env :: program_env where
  "demo_env = idle_env\<lparr>pm_getenv := \<lambda>_. ''demo''\<rparr>"

definition demo_framework :: framework where
  "demo_framework =
     \<lparr>fb_params = (\<lambda>p. if HasPrefix p ''/broker/github/'' then Some (''github'', drop 15 p) else None),
      fb_missing = (\<lambda>_. \<lparr>hr_Status = 404, hr_Headers = [], hr_Body = Inr ''Not Found''\<rparr>),
      fb_recovered = \<lparr>hr_Status = 500, hr_Headers = [], hr_Body = Inr ''panic''\<rparr>\<rparr>"

lemma broker_demo_runs:
  obtains pg gs where "program_main (\<lambda>_. Inr ''yaml'') (\<lambda>_. Inr broker_demo_yaml) letter_compile demo_env False ''config.yaml'' = Running pg"
    "pg_gateway pg = Some gs"
proof -
  have "\<exists>cfg. Load (\<lambda>_. Inr ''yaml'') (\<lambda>_. Inr broker_demo_yaml) letter_compile ''config.yaml'' = Inr cfg \<and>
      au_Username (cf_Auth cfg) = ''admin'' \<and> sc_Type (cf_Storage cfg) = ''memory'' \<and> \<not> tc_Enabled (cf_Telemetry cfg) \<and>
      bc_Enabled (cf_Broker cfg)"
    by (simp add: Load_def broker_demo_yaml_def blank_config_def set_defaults_def default_to_def RiskPolicy_Compile_def
      Egress_Compile_def Let_def)
  then have "\<exists>pg gs. program_main (\<lambda>_. Inr ''yaml'') (\<lambda>_. Inr broker_demo_yaml) letter_compile demo_env False ''config.yaml'' = Running pg
      \<and> pg_gateway pg = Some gs"
    by (auto simp: program_main_def start_program_def auth_settings_ok_def authConfigured_def start_queue_def
      start_telemetry_def start_gateway_def NewGateway_def start_matcher_def)
  then show thesis using that by blast
qed

theorem broker_demo_passes_witness:
  "\<exists>pg gs. program_main (\<lambda>_. Inr ''yaml'') (\<lambda>_. Inr broker_demo_yaml) letter_compile demo_env False ''config.yaml'' = Running pg \<and>
     pg_gateway pg = Some gs \<and>
     fst (run_scenarios (\<lambda>_. [])
       (net_client ''http://parachute:8081'' (broker_app demo_framework (\<lambda>_. ''{...}'')
          (program_gateway demo_env (net_client ''http://mock-github:9090'' (\<lambda>r. respond (\<lambda>_. ''{...}'') (\<lambda>u. u) (mock_github r)))
             always_allow 0 gs)))
       (net_proxy_client (handleHTTPRequest (\<lambda>_. Inr ''api.github.com'') answering (pg_forward pg)))
       (broker_scenarios ''http://parachute:8081''))"
proof -
  obtain pg gs where pg: "program_main (\<lambda>_. Inr ''yaml'') (\<lambda>_. Inr broker_demo_yaml) letter_compile demo_env False ''config.yaml'' = Running pg"
    "pg_gateway pg = Some gs" by (rule broker_demo_runs)
  have "pm_getenv demo_env ''GITHUB_TOKEN'' \<noteq> []" by (simp add: demo_env_def)
  note passes = broker_demo_passes [OF pg this net_client_reaches _ net_client_reaches net_proxy_client_uses]
  have "\<forall>star. fb_params demo_framework (''/broker/github/'' @ star) = Some (''github'', star)"
    by (simp add: demo_framework_def HasPrefix_def)
  from passes [OF this, of "\<lambda>_. Inr ''api.github.com''"] show ?thesis using pg by blast
qed

end
