(* ===== verification/Spec2Isabelle.thy ===== *)
theory Spec2Isabelle
  imports Storage Approval Notifier Audit_Chain Sdr Telemetry Middleware Interceptor Normalize Mcp Egress Regexp_Spec
    Integrations Broker Gateway Reverse_Proxy Forward_Proxy Sse Exporters Policy_Engines Relay Dashboard Metrics Startup
    Program Pipeline Restart Keygen App Service Demo Agent_Demo
begin

text \<open>
  Parachute is a security sidecar for AI agents, written in Go. It stands between an agent, the clients
  that drive it and the outside world, decides on commands, tool calls, destinations and credentials,
  asks an operator where the policy says so, and records what it decided. This library models its
  program logic, translated function by function from the sources, and proves what each part does.

  \<^bold>\<open>How the parts interact.\<close> A client's request passes the middlewares (authentication, rate limit) and
  reaches the reverse proxy, the MCP gateway or the dashboard's API. The reverse proxy and the MCP
  handler give tool calls to the interceptor, which decides by the risk policy of the configuration;
  a call that needs an operator goes into the approval queue, whose waiter sleeps until the dashboard
  or the relay decides it or it runs out. What the agent sends out goes through the forward proxy,
  which asks the egress filter and keeps it away from hosts of managed integrations; these are reached
  through the broker gateway, which strips the agent's credentials and injects those of a broker.
  Decisions become audit events (a hash chain) and signed decision records (a chain with signatures),
  which the collector queues, spools and uploads.

  \<^bold>\<open>Theories and sources.\<close> Each theory opens with what it holds. Functions and types keep their Go
  names; methods of the same name carry their type, and the fields of a record have a short prefix.

  \<^item> \<open>Prelude\<close>, \<open>Go_Strings\<close>, \<open>Go_Regexp\<close>, \<open>Regexp_Spec\<close>, \<open>Json\<close>, \<open>Base64\<close>, \<open>Http\<close>, \<open>Upstream\<close>: lists and
    maps, the parts of Go's library that the sources use (strings as bytes, the leftmost-first search of
    regular expressions, JSON values, header maps, the copying of headers), with their lemmas.
  \<^item> \<open>Config\<close>: internal/config. The structures, defaults, compilation and the decisions of the policy.
  \<^item> \<open>Interceptor\<close>, \<open>Normalize\<close>: internal/interceptor. Commands of tool calls, unwrapping, splitting and
    substitutions, detectors, \<open>Check\<close>; the six shapes of a tool invocation.
  \<^item> \<open>Storage\<close>, \<open>Approval\<close>, \<open>Notifier\<close>: internal/storage, internal/approval. Rows, the queue with its
    channels and goroutines, webhooks.
  \<^item> \<open>Hash_Chain\<close>, \<open>Audit_Chain\<close>: chains of hashes in general; internal/audit and cmd/parachute-verify.
  \<^item> \<open>Sdr\<close>, \<open>Telemetry\<close>, \<open>Exporters\<close>: pkg/sdr, internal/telemetry with its exporters.
  \<^item> \<open>Middleware\<close>: internal/middleware.
  \<^item> \<open>Mcp_Policy\<close>, \<open>Mcp\<close>, \<open>Sse\<close>: internal/mcp.
  \<^item> \<open>Egress\<close>, \<open>Reverse_Proxy\<close>, \<open>Forward_Proxy\<close>: internal/egress, internal/proxy.
  \<^item> \<open>Integrations\<close>, \<open>Broker\<close>, \<open>Gateway\<close>: pkg/integrations, internal/broker.
  \<^item> \<open>Policy_Engines\<close>, \<open>Relay\<close>, \<open>Dashboard\<close>, \<open>Metrics\<close>: internal/policy, internal/relay,
    internal/dashboard, internal/metrics.
  \<^item> \<open>Startup\<close>, \<open>Program\<close>: cmd/parachute/main.go and internal/license. What the configuration builds, how
    the routes are guarded, and \<open>main\<close> from the file to the running parts.
  \<^item> \<open>App\<close>, \<open>Service\<close>: the main application of cmd/parachute/main.go. A request from the global middlewares
    through the groups of routes to its handler, the callbacks to the collector, the order of the
    shutdown; and what holds of every sequence of requests.
  \<^item> \<open>Pipeline\<close>, \<open>Restart\<close>: collector, export loop, spool and uploader as one composition; runs of the
    program one after another over the same files, each ended by a shutdown or killed.
  \<^item> \<open>Keygen\<close>: cmd/parachute-keygen.
  \<^item> \<open>Demo_Servers\<close>, \<open>Demo_Clients\<close>, \<open>Demo\<close>, \<open>Agent_Demo\<close>: demo. The mock servers, the two simulators, and
    the two demonstrations: clients and servers around the program under the demonstration's configuration.

  \<^bold>\<open>How the code's state and effects appear.\<close> A struct is a record, an enumeration a datatype, a map an
  association list or a map. An operation that changes state takes the state and returns it; calls to
  the outside (files, HTTP, the clock, fresh identifiers, JSON, hashes, signatures) are arguments, of
  which the lemmas assume only what the Go documentation says. Errors are sums, panics and blocking
  operations are results of their own (\<open>go\<close> in \<open>Approval\<close>, \<open>None\<close> in \<open>Sse\<close>, \<open>Panic\<close> in \<open>Gateway\<close>, \<open>Failed\<close> and \<open>Recovered\<close> in \<open>App\<close>).
  Goroutines are processes whose atomic sections interleave in any order (\<open>queue_step\<close> in \<open>Approval\<close>,
  \<open>run_ops\<close> in \<open>Sse\<close>, overlapping calls in \<open>Telemetry\<close>). The order in which Go visits a map is a parameter
  wherever it can be seen. 64-bit integers wrap where the code can reach the bound (TTL of the Pro
  client, offsets, latencies).

  \<^bold>\<open>Interfaces.\<close> Where a part relies on another through an interface, the interface is a locale with the
  laws the client uses, and it is interpreted on the model of every provider: \<open>credential_broker\<close> (the
  three brokers, and the one the configuration chooses), \<open>route_classifier\<close> (GitHub, Linear, Slack),
  \<open>engine\<close> and \<open>composite\<close> (policy engines), \<open>approval_handler\<close> (the queue, for the relay), \<open>waiting\<close>
  (the queue, for the handlers that wait for an operator), and the hash chains of \<open>Hash_Chain\<close>.

  \<^bold>\<open>What the lemmas show.\<close>
  \<^item> Decisions on commands: \<open>Check\<close> equals a short specification, is monotone in the policy, sees every
    segment of a compound command; splitting keeps everything but separators.
  \<^item> Approvals: nothing is approved without an operator in any interleaving, channels are used safely, a
    decision reaches its waiter, rows are decided at most once; and where the code fails to do so.
  \<^item> Requests: what authentication, rate limit and CSRF let through, what the reverse proxy sends to the
    agent, what leaves by the three ways of the forward proxy, and that all three obey one policy.
  \<^item> Credentials: none of the agent's leaves by the gateway, managed hosts are reached by it only, and
    an injected one is what the control plane allowed for that integration and route class.
  \<^item> Records: logs and signed records chain, verify and bind their content; the spool is uploaded
    exactly once, in order, and to its end.
  \<^item> Composition: a block pattern of the configuration file holds on every way to the agent; the program
    starts exactly when what it needs is there; what is recorded arrives at the control plane as a chain;
    strangers get nothing from any route but health, version and metrics; every request of every sequence
    is answered; the key that the generator writes signs what its public half verifies.
  \<^item> Restarts: runs that end with a shutdown keep one chain and no command is decided twice; what a kill
    or a late call does to the chain.
  \<^item> Demonstrations: what each of them prints, against the program as it is modelled.
  \<^item> Refinement, liveness and termination: the relay against a set of pending commands, the uploader's
    drain, the gateway's answers, the loops of streams, tunnels, heartbeat and accept.

  \<^bold>\<open>Bounds and fuel.\<close> Recursions are structural or have a measure. The search of \<open>Go_Regexp\<close> bounds the
  iterations of a star by the length of the rest of the text plus one: an iteration that consumes
  nothing ends the star as in Go, so no longer run exists. Sizes are those of the code: channel buffers
  and replay buffer of 100, batches of 50, the line limit of the spool reader of 1 MB.

  \<^bold>\<open>Not modelled.\<close> Text for the log that nothing else reads; the scheduling of goroutines beyond the
  interleavings above, sleeping, signals, and the opening of listeners; the web framework's matching of
  routes, its CORS and what it makes of errors and panics (parameters, or left open); SQL itself and its
  driver; YAML, JSON and PEM, cryptography, parsing of pattern texts to regular expressions; the connection
  of the relay, a placeholder in this repository, with the payload types only it would use; the transport
  types of pkg/sdr that only a server reads; HTML, charts and documentation.
\<close>

end
